theory Spec2Isabelle
  imports Main
begin

section \<open>Python helpers\<close>

text \<open>
  Strings are lists of 8-bit characters, read as text in the Latin-1 range, which is where the
  identifiers, unit names and certification levels of the scheduling scripts live; text with
  characters beyond U+00FF is outside the model. \<open>str.strip()\<close> removes the characters for
  which \<open>str.isspace()\<close> holds. \<open>str.upper()\<close> maps the letters a to z and the lower-case
  letters of Latin-1 to their capitals and the sharp s to \<open>SS\<close>; the capitals of the micro
  sign and of y with diaeresis lie beyond U+00FF, so these two characters are left as they
  are, which like their capitals differ from every ASCII character.
\<close>

definition is_space :: "char \<Rightarrow> bool" where
  "is_space c = ((of_char c :: nat) \<in> set [9, 10, 11, 12, 13, 28, 29, 30, 31, 32, 133, 160])"

definition strip :: "string \<Rightarrow> string" where
  "strip s = rev (dropWhile is_space (rev (dropWhile is_space s)))"

definition upper_char :: "char \<Rightarrow> string" where
  "upper_char c =
     (let n = (of_char c :: nat) in
      if 97 \<le> n \<and> n \<le> 122 then [char_of (n - 32)]
      else if n = 223 then ''SS''
      else if 224 \<le> n \<and> n \<le> 254 \<and> n \<noteq> 247 then [char_of (n - 32)]
      else [c])"

definition upper :: "string \<Rightarrow> string" where
  "upper s = concat (map upper_char s)"

text \<open>\<open>x or ""\<close> on a nullable text column.\<close>

definition or_empty :: "string option \<Rightarrow> string" where
  "or_empty v = (case v of None \<Rightarrow> [] | Some s \<Rightarrow> s)"

text \<open>Truth value of a nullable text column: neither NULL nor the empty string.\<close>

definition truthy :: "string option \<Rightarrow> bool" where
  "truthy v = (case v of None \<Rightarrow> False | Some s \<Rightarrow> s \<noteq> [])"

section \<open>Eligibility evaluator (fragility\_radar\_v2.py)\<close>

record person =
  person_id :: string
  display_name :: string
  active :: int
  medical_cert :: "string option"
  willing_attend :: int

record person_ops =
  po_person_id :: string
  po_unit_id :: string
  can_operate :: int

text \<open>A row of the shift query: \<open>sc_shifts LEFT JOIN sc_shift_config\<close>.\<close>

record shift_cfg_view =
  sv_shift_id :: string
  sv_label :: string
  sv_staffed_unit_id :: "string option"
  sv_first_out_override_unit_id :: "string option"

datatype status = GREEN | YELLOW | RED

definition norm_cert :: "string option \<Rightarrow> string" where
  "norm_cert s = upper (strip (or_empty s))"

definition is_als :: "string option \<Rightarrow> bool" where
  "is_als cert = (norm_cert cert \<in> set [''ALS'', ''PARAMEDIC'', ''MEDIC''])"

definition is_emt_or_higher :: "string option \<Rightarrow> bool" where
  "is_emt_or_higher cert = (norm_cert cert \<in> set [''EMT'', ''AEMT'', ''ALS'', ''PARAMEDIC'', ''MEDIC''])"

text \<open>
  \<open>ops_by_unit\<close> is a \<open>defaultdict(set)\<close> filled from the rows of
  \<open>person_ops\<close> with \<open>can_operate = 1\<close>; \<open>ops_by_unit.get(unit, set())\<close>
  is the application of the resulting function.
\<close>

definition ops_by_unit :: "person_ops list \<Rightarrow> string \<Rightarrow> string set" where
  "ops_by_unit ops_rows =
     fold (\<lambda>r m. m(po_unit_id r := insert (po_person_id r) (m (po_unit_id r))))
          (filter (\<lambda>r. can_operate r = 1) ops_rows) (\<lambda>_. {})"

fun eligible_attendant_pool :: "person list \<Rightarrow> person list" where
  "eligible_attendant_pool [] = []"
| "eligible_attendant_pool (p # ps) =
     (if active p \<noteq> 1 then eligible_attendant_pool ps
      else if willing_attend p \<noteq> 1 then eligible_attendant_pool ps
      else if \<not> is_emt_or_higher (medical_cert p) then eligible_attendant_pool ps
      else p # eligible_attendant_pool ps)"

fun eligible_driver_pool :: "bool \<Rightarrow> string set \<Rightarrow> person list \<Rightarrow> person list" where
  "eligible_driver_pool allow unit_ops [] = []"
| "eligible_driver_pool allow unit_ops (p # ps) =
     (if active p \<noteq> 1 then eligible_driver_pool allow unit_ops ps
      else if person_id p \<notin> unit_ops then eligible_driver_pool allow unit_ops ps
      else if \<not> allow \<and> \<not> is_emt_or_higher (medical_cert p)
        then eligible_driver_pool allow unit_ops ps
      else p # eligible_driver_pool allow unit_ops ps)"

text \<open>
  \<open>s["first_out_override_unit_id"] or s["staffed_unit_id"] or wk["first_out_default_unit_id"]\<close>
\<close>

definition effective_unit :: "string \<Rightarrow> shift_cfg_view \<Rightarrow> string" where
  "effective_unit wk_default s =
     (if truthy (sv_first_out_override_unit_id s) then or_empty (sv_first_out_override_unit_id s)
      else if truthy (sv_staffed_unit_id s) then or_empty (sv_staffed_unit_id s)
      else wk_default)"

record evaluation =
  ev_unit :: string
  ev_att_pool :: "person list"
  ev_att_als_pool :: "person list"
  ev_drv_pool :: "person list"
  ev_status :: status
  ev_reasons :: "string list"

text \<open>The body of the loop over the week's shifts, for one shift.\<close>

definition evaluate :: "bool \<Rightarrow> string \<Rightarrow> person_ops list \<Rightarrow> person list \<Rightarrow> shift_cfg_view \<Rightarrow> evaluation" where
  "evaluate allow_nonmedical_driver wk_default ops_rows people s =
     (let unit = effective_unit wk_default s;
          att_pool = eligible_attendant_pool people;
          att_als_pool = filter (\<lambda>p. is_als (medical_cert p)) att_pool;
          drv_pool = eligible_driver_pool allow_nonmedical_driver (ops_by_unit ops_rows unit) people;
          has_att = (length att_pool > 0);
          has_drv = (length drv_pool > 0);
          has_als = (length att_als_pool > 0);
          st0 = (GREEN, []);
          st1 = (if \<not> has_att then (RED, snd st0 @ [''No attendant candidates'']) else st0);
          st2 = (if \<not> has_drv
                 then (RED, snd st1 @ [''No driver candidates with '' @ unit @ ''_ops''])
                 else st1);
          st3 = (if has_att \<and> \<not> has_als \<and> fst st2 \<noteq> RED
                 then (YELLOW, snd st2 @ [''No ALS available for attendant''])
                 else st2);
          st4 = (if fst st3 = GREEN \<and> (length att_pool \<le> 1 \<or> length drv_pool \<le> 1)
                 then (YELLOW, snd st3 @ [''Fragile: only 1 candidate in a pool''])
                 else st3)
      in \<lparr>ev_unit = unit, ev_att_pool = att_pool, ev_att_als_pool = att_als_pool,
          ev_drv_pool = drv_pool, ev_status = fst st4, ev_reasons = snd st4\<rparr>)"


section \<open>Eligibility evaluator, first version (fragility\_radar\_v1.py)\<close>

text \<open>
  The first version looks the roster tables and their columns up at run time. \<open>active_col\<close>,
  \<open>cert_col\<close> and \<open>wta_col\<close> say whether the people table has the column; the columns
  \<open>active\<close> and \<open>willing_to_attend\<close> hold integers or NULL. The ops table is read with
  \<open>SELECT pid, unit\<close>, whatever \<open>can_operate\<close> says.
\<close>

record roster_cols =
  active_col :: bool
  cert_col :: bool
  wta_col :: bool

record roster_person =
  rp_pid :: string
  rp_active :: "int option"
  rp_cert :: "string option"
  rp_wta :: "int option"

text \<open>\<open>int(p[active_col]) == 1\<close>, and \<open>True\<close> when the conversion raises.\<close>

definition is_active_v1 :: "roster_cols \<Rightarrow> roster_person \<Rightarrow> bool" where
  "is_active_v1 cols p =
     (if \<not> active_col cols then True
      else case rp_active p of None \<Rightarrow> True | Some n \<Rightarrow> n = 1)"

definition cert_v1 :: "roster_cols \<Rightarrow> roster_person \<Rightarrow> string" where
  "cert_v1 cols p = (if \<not> cert_col cols then [] else upper (strip (or_empty (rp_cert p))))"

definition willing_v1 :: "roster_cols \<Rightarrow> roster_person \<Rightarrow> bool" where
  "willing_v1 cols p =
     (if \<not> wta_col cols then True
      else case rp_wta p of None \<Rightarrow> True | Some n \<Rightarrow> n = 1)"

definition is_als_v1 :: "roster_cols \<Rightarrow> roster_person \<Rightarrow> bool" where
  "is_als_v1 cols p = (cert_v1 cols p \<in> set [''ALS'', ''PARAMEDIC''])"

definition is_emt_or_higher_v1 :: "roster_cols \<Rightarrow> roster_person \<Rightarrow> bool" where
  "is_emt_or_higher_v1 cols p = (cert_v1 cols p \<in> set [''EMT'', ''AEMT'', ''ALS'', ''PARAMEDIC''])"

definition ops_by_unit_v1 :: "person_ops list \<Rightarrow> string \<Rightarrow> string set" where
  "ops_by_unit_v1 ops_rows =
     fold (\<lambda>r m. m(po_unit_id r := insert (po_person_id r) (m (po_unit_id r)))) ops_rows (\<lambda>_. {})"

text \<open>\<open>s["first_out_override_unit_id"] or s["staffed_unit_id"]\<close>, which may be \<open>None\<close>.\<close>

definition unit_v1 :: "shift_cfg_view \<Rightarrow> string option" where
  "unit_v1 s =
     (if truthy (sv_first_out_override_unit_id s) then sv_first_out_override_unit_id s
      else sv_staffed_unit_id s)"

definition attendant_pool_v1 :: "roster_cols \<Rightarrow> roster_person list \<Rightarrow> roster_person list" where
  "attendant_pool_v1 cols people =
     filter (\<lambda>p. is_active_v1 cols p \<and> willing_v1 cols p \<and> is_emt_or_higher_v1 cols p) people"

definition attendant_als_pool_v1 :: "roster_cols \<Rightarrow> roster_person list \<Rightarrow> roster_person list" where
  "attendant_als_pool_v1 cols people = filter (is_als_v1 cols) (attendant_pool_v1 cols people)"

definition driver_pool_v1 ::
  "bool \<Rightarrow> roster_cols \<Rightarrow> person_ops list \<Rightarrow> roster_person list \<Rightarrow> shift_cfg_view \<Rightarrow> roster_person list" where
  "driver_pool_v1 allow_nonmedical_driver cols ops_rows people s =
     (let unit_ops = (case unit_v1 s of None \<Rightarrow> {} | Some u \<Rightarrow> ops_by_unit_v1 ops_rows u) in
      if allow_nonmedical_driver
        then filter (\<lambda>p. is_active_v1 cols p \<and> rp_pid p \<in> unit_ops) people
      else filter (\<lambda>p. is_active_v1 cols p \<and> rp_pid p \<in> unit_ops \<and> is_emt_or_higher_v1 cols p) people)"


subsection \<open>A sample roster\<close>

definition ex_people :: "person list" where
  "ex_people =
     [\<lparr>person_id = ''P1'', display_name = ''Avery'', active = 1, medical_cert = Some '' emt '', willing_attend = 1\<rparr>,
      \<lparr>person_id = ''P2'', display_name = ''Blake'', active = 1, medical_cert = Some ''Medic'', willing_attend = 1\<rparr>,
      \<lparr>person_id = ''P3'', display_name = ''Casey'', active = 0, medical_cert = Some ''PARAMEDIC'', willing_attend = 1\<rparr>,
      \<lparr>person_id = ''P4'', display_name = ''Devon'', active = 1, medical_cert = None, willing_attend = 0\<rparr>]"

definition ex_ops :: "person_ops list" where
  "ex_ops =
     [\<lparr>po_person_id = ''P1'', po_unit_id = ''AMB121'', can_operate = 1\<rparr>,
      \<lparr>po_person_id = ''P2'', po_unit_id = ''AMB121'', can_operate = 1\<rparr>,
      \<lparr>po_person_id = ''P4'', po_unit_id = ''AMB121'', can_operate = 1\<rparr>,
      \<lparr>po_person_id = ''P2'', po_unit_id = ''AMB120'', can_operate = 0\<rparr>]"

definition ex_shift :: shift_cfg_view where
  "ex_shift = \<lparr>sv_shift_id = ''WEEK_2025-12-04_to_2025-12-10__D0__DAY'', sv_label = ''Thu 12/04 DAY (06-18)'',
                sv_staffed_unit_id = Some ''AMB121'', sv_first_out_override_unit_id = None\<rparr>"

text \<open>One non-ALS attendant and nobody with ops for the unit.\<close>

definition ex_people_emt :: "person list" where
  "ex_people_emt =
     [\<lparr>person_id = ''P1'', display_name = ''Avery'', active = 1, medical_cert = Some ''EMT'', willing_attend = 1\<rparr>]"

text \<open>
  The same shift overridden to a unit, and a shift whose config names no unit; ops rows that
  let Avery operate all three units.
\<close>

definition ex_shift_override :: shift_cfg_view where
  "ex_shift_override = ex_shift\<lparr>sv_first_out_override_unit_id := Some ''AMB131''\<rparr>"

definition ex_shift_default :: shift_cfg_view where
  "ex_shift_default = ex_shift\<lparr>sv_staffed_unit_id := None\<rparr>"

definition ex_ops_wide :: "person_ops list" where
  "ex_ops_wide =
     ex_ops @ [\<lparr>po_person_id = ''P1'', po_unit_id = ''AMB131'', can_operate = 1\<rparr>,
               \<lparr>po_person_id = ''P1'', po_unit_id = ''AMB120'', can_operate = 1\<rparr>]"

text \<open>The sample roster in the columns the first version reads, all of them present.\<close>

definition ex_cols :: roster_cols where
  "ex_cols = \<lparr>active_col = True, cert_col = True, wta_col = True\<rparr>"

definition ex_roster :: "roster_person list" where
  "ex_roster =
     [\<lparr>rp_pid = ''P1'', rp_active = Some 1, rp_cert = Some '' emt '', rp_wta = Some 1\<rparr>,
      \<lparr>rp_pid = ''P2'', rp_active = Some 1, rp_cert = Some ''Medic'', rp_wta = Some 1\<rparr>,
      \<lparr>rp_pid = ''P3'', rp_active = Some 0, rp_cert = Some ''PARAMEDIC'', rp_wta = Some 1\<rparr>,
      \<lparr>rp_pid = ''P4'', rp_active = Some 1, rp_cert = None, rp_wta = Some 0\<rparr>,
      \<lparr>rp_pid = ''P5'', rp_active = None, rp_cert = Some ''Paramedic'', rp_wta = None\<rparr>]"

section \<open>Dates and their text forms\<close>

text \<open>
  A \<open>datetime.date\<close> is its proleptic Gregorian ordinal (\<open>date.toordinal()\<close>, day 1 is
  0001-01-01), so that adding a \<open>timedelta(days=n)\<close> is integer addition. The library
  raises \<open>OverflowError\<close> when a result leaves \<open>date.min .. date.max\<close>.
\<close>

type_synonym date = int

datatype error = OverflowError | IntegrityError | IndexError | SystemExit string

definition MINORD :: int where "MINORD = 1"

definition MAXORD :: int where "MAXORD = 3652059"

definition date_ok :: "date \<Rightarrow> bool" where
  "date_ok d = (MINORD \<le> d \<and> d \<le> MAXORD)"

text \<open>Year, month and day of an ordinal (the civil calendar from a day count).\<close>

definition ymd :: "date \<Rightarrow> int \<times> int \<times> int" where
  "ymd n =
     (let z = n + 305;
          era = z div 146097;
          doe = z mod 146097;
          yoe = (doe - doe div 1460 + doe div 36524 - doe div 146096) div 365;
          y = yoe + era * 400;
          doy = doe - (365 * yoe + yoe div 4 - yoe div 100);
          mp = (5 * doy + 2) div 153;
          d = doy - (153 * mp + 2) div 5 + 1;
          m = (if mp < 10 then mp + 3 else mp - 9)
      in (if m \<le> 2 then y + 1 else y, m, d))"

definition digit :: "nat \<Rightarrow> char" where
  "digit n = char_of (48 + n)"

fun str_nat :: "nat \<Rightarrow> string" where
  "str_nat n = (if n < 10 then [digit n] else str_nat (n div 10) @ [digit (n mod 10)])"

declare str_nat.simps [simp del]

definition pad :: "nat \<Rightarrow> int \<Rightarrow> string" where
  "pad w n = (let s = str_nat (nat n) in replicate (w - length s) (CHR ''0'') @ s)"

text \<open>\<open>date.isoformat()\<close>: \<open>YYYY-MM-DD\<close>.\<close>

definition isoformat :: "date \<Rightarrow> string" where
  "isoformat d = (case ymd d of (y, m, dd) \<Rightarrow> pad 4 y @ ''-'' @ pad 2 m @ ''-'' @ pad 2 dd)"

text \<open>
  A time of day \<open>(hour, minute, second)\<close> and \<open>strftime("%Y-%m-%d %H:%M:%S")\<close>. The year
  is written with four digits, as \<open>isoformat\<close> writes it; for the years before 1000 this
  is what \<open>strftime\<close> gives where the C library pads \<open>%Y\<close>, and glibc does not.
\<close>

type_synonym time_of_day = "int \<times> int \<times> int"

definition strftime_dt :: "date \<Rightarrow> time_of_day \<Rightarrow> string" where
  "strftime_dt d t = (case t of (h, mi, s) \<Rightarrow>
     isoformat d @ '' '' @ pad 2 h @ '':'' @ pad 2 mi @ '':'' @ pad 2 s)"

text \<open>\<open>date.weekday()\<close> (Monday is 0) and \<open>strftime("%a %m/%d")\<close>.\<close>

definition weekday :: "date \<Rightarrow> int" where
  "weekday d = (d + 6) mod 7"

definition strftime_a_md :: "date \<Rightarrow> string" where
  "strftime_a_md d = (case ymd d of (y, m, dd) \<Rightarrow>
     [''Mon'', ''Tue'', ''Wed'', ''Thu'', ''Fri'', ''Sat'', ''Sun''] ! nat (weekday d)
       @ '' '' @ pad 2 m @ ''/'' @ pad 2 dd)"

section \<open>Tables\<close>

text \<open>
  A table is the list of its rows in rowid order, which is the order in which SQLite returns
  the rows of a query without \<open>ORDER BY\<close>. Nullable columns are options.
  \<open>seat_record_id\<close> is declared \<open>TEXT PRIMARY KEY\<close>; SQLite admits NULL there,
  and unique non-NULL values only.
\<close>

record week_row =
  week_id :: string
  start_date :: string
  end_date :: string
  lock_dt :: string
  first_out_default_unit_id :: string
  week_status :: string

record shift_row =
  shift_id :: string
  shift_week_id :: string
  shift_start :: string
  shift_end :: string
  shift_label :: string
  day_index :: int
  slot :: string

record cfg_row =
  cfg_shift_id :: string
  first_out_override_unit_id :: "string option"
  staffed_unit_id :: "string option"
  is_salary_only :: int
  cfg_active :: int

record seat_row =
  seat_record_id :: "string option"
  seat_shift_id :: string
  unit_id :: string
  seat_id :: string
  layer :: string
  assigned_entity_type :: "string option"
  assigned_person_id :: "string option"
  assigned_placeholder_id :: "string option"
  health_status :: "string option"
  seat_note :: "string option"

record db =
  sc_weeks :: "week_row list"
  sc_shifts :: "shift_row list"
  sc_shift_config :: "cfg_row list"
  sc_seat_records :: "seat_row list"

definition empty_db :: db where
  "empty_db = \<lparr>sc_weeks = [], sc_shifts = [], sc_shift_config = [], sc_seat_records = []\<rparr>"

section \<open>Week generation (ensure\_dec2025\_weeks\_and\_tow\_v1.py)\<close>

definition UNITS :: "string list" where
  "UNITS = [''AMB120'', ''AMB121'', ''AMB131'']"

definition SEATS :: "string list" where
  "SEATS = [''ATTENDANT'', ''DRIVER'']"

definition LAYERS :: "(string \<times> bool) list" where
  "LAYERS = [(''PRIMARY'', True), (''SHADOW'', False)]"

definition week_id_for :: "date \<Rightarrow> string" where
  "week_id_for start = ''WEEK_'' @ isoformat start @ ''_to_'' @ isoformat (start + 6)"

definition shift_id_for :: "string \<Rightarrow> nat \<Rightarrow> string \<Rightarrow> string" where
  "shift_id_for wid di slt = wid @ ''__D'' @ str_nat di @ ''__'' @ slt"

definition gen_seat_record_id :: "string \<Rightarrow> string \<Rightarrow> string \<Rightarrow> string \<Rightarrow> string" where
  "gen_seat_record_id sid unit seat lay = sid @ ''__'' @ lay @ ''__'' @ unit @ ''__'' @ seat"

definition new_week :: "date \<Rightarrow> int \<Rightarrow> string \<Rightarrow> week_row" where
  "new_week start lead first_out =
     \<lparr>week_id = week_id_for start, start_date = isoformat start, end_date = isoformat (start + 6),
      lock_dt = strftime_dt (start - lead) (0, 0, 0),
      first_out_default_unit_id = first_out, week_status = ''DRAFT''\<rparr>"

definition ensure_week_row :: "week_row \<Rightarrow> week_row list \<Rightarrow> week_row list" where
  "ensure_week_row w ws = (if \<exists>x\<in>set ws. week_id x = week_id w then ws else ws @ [w])"

definition day_shift :: "string \<Rightarrow> date \<Rightarrow> nat \<Rightarrow> shift_row" where
  "day_shift wid start di =
     (let d = start + int di in
      \<lparr>shift_id = shift_id_for wid di ''DAY'', shift_week_id = wid,
       shift_start = strftime_dt d (6, 0, 0), shift_end = strftime_dt d (18, 0, 0),
       shift_label = strftime_a_md d @ '' DAY (06-18)'', day_index = int di, slot = ''DAY''\<rparr>)"

definition night_shift :: "string \<Rightarrow> date \<Rightarrow> nat \<Rightarrow> shift_row" where
  "night_shift wid start di =
     (let d = start + int di in
      \<lparr>shift_id = shift_id_for wid di ''NIGHT'', shift_week_id = wid,
       shift_start = strftime_dt d (18, 0, 0), shift_end = strftime_dt (d + 1) (6, 0, 0),
       shift_label = strftime_a_md d @ '' NIGHT (18-06)'', day_index = int di, slot = ''NIGHT''\<rparr>)"

definition ensure_shift :: "shift_row \<Rightarrow> shift_row list \<Rightarrow> shift_row list" where
  "ensure_shift r ss = (if \<exists>x\<in>set ss. shift_id x = shift_id r then ss else ss @ [r])"

text \<open>The body of \<open>for di in range(7)\<close>.\<close>

definition ensure_day :: "string \<Rightarrow> date \<Rightarrow> nat \<Rightarrow> shift_row list \<Rightarrow> shift_row list" where
  "ensure_day wid start di ss =
     ensure_shift (night_shift wid start di) (ensure_shift (day_shift wid start di) ss)"

definition new_cfg :: "string \<Rightarrow> string \<Rightarrow> cfg_row" where
  "new_cfg sid first_out =
     \<lparr>cfg_shift_id = sid, first_out_override_unit_id = None, staffed_unit_id = Some first_out,
      is_salary_only = 0, cfg_active = 1\<rparr>"

definition ensure_cfg :: "string \<Rightarrow> string \<Rightarrow> cfg_row list \<Rightarrow> cfg_row list" where
  "ensure_cfg sid first_out cs =
     (if \<exists>c\<in>set cs. cfg_shift_id c = sid then cs else cs @ [new_cfg sid first_out])"

text \<open>\<open>staffed[0] if staffed and staffed[0] else first_out\<close>, on the first row the query returns.\<close>

definition staffed_unit_of :: "string \<Rightarrow> string \<Rightarrow> cfg_row list \<Rightarrow> string" where
  "staffed_unit_of sid first_out cs =
     (case find (\<lambda>c. cfg_shift_id c = sid) cs of
        None \<Rightarrow> first_out
      | Some c \<Rightarrow> (if truthy (staffed_unit_id c) then or_empty (staffed_unit_id c) else first_out))"

definition new_seat :: "string \<Rightarrow> string \<Rightarrow> string \<Rightarrow> string \<Rightarrow> seat_row" where
  "new_seat sid unit seat lay =
     \<lparr>seat_record_id = Some (gen_seat_record_id sid unit seat lay), seat_shift_id = sid,
      unit_id = unit, seat_id = seat, layer = lay,
      assigned_entity_type = Some ''NONE'', assigned_person_id = None,
      assigned_placeholder_id = None, health_status = Some ''UNFILLED'', seat_note = None\<rparr>"

definition ensure_seat :: "seat_row \<Rightarrow> seat_row list \<Rightarrow> seat_row list" where
  "ensure_seat r ss = (if \<exists>x\<in>set ss. seat_record_id x = seat_record_id r then ss else ss @ [r])"

definition units_for_layer :: "string list \<Rightarrow> string \<Rightarrow> bool \<Rightarrow> string list" where
  "units_for_layer units staffed_unit is_primary =
     (if is_primary then [staffed_unit] else filter (\<lambda>u. u \<noteq> staffed_unit) units)"

text \<open>
  The rows the three nested loops (layer, unit, seat) visit for one shift, in loop order.
\<close>

definition seat_targets :: "string list \<Rightarrow> string \<Rightarrow> string \<Rightarrow> seat_row list" where
  "seat_targets units sid staffed_unit =
     concat (map (\<lambda>(lay, is_primary).
        concat (map (\<lambda>unit. map (\<lambda>seat. new_seat sid unit seat lay) SEATS)
                    (units_for_layer units staffed_unit is_primary)))
        LAYERS)"

text \<open>The body of \<open>for sid in shift_ids\<close>, on the config and seat tables.\<close>

definition ensure_shift_rows ::
  "string list \<Rightarrow> string \<Rightarrow> string \<Rightarrow> cfg_row list \<times> seat_row list \<Rightarrow> cfg_row list \<times> seat_row list" where
  "ensure_shift_rows units first_out sid st =
     (let cs = ensure_cfg sid first_out (fst st);
          staffed_unit = staffed_unit_of sid first_out cs
      in (cs, fold ensure_seat (seat_targets units sid staffed_unit) (snd st)))"

definition ensure_week_rows :: "string list \<Rightarrow> date \<Rightarrow> string \<Rightarrow> db \<Rightarrow> db" where
  "ensure_week_rows units start first_out d =
     (let wid = week_id_for start;
          ws = ensure_week_row (new_week start 28 first_out) (sc_weeks d);
          ss = fold (ensure_day wid start) [0..<7] (sc_shifts d);
          shift_ids = map shift_id (filter (\<lambda>s. shift_week_id s = wid) ss);
          st = fold (ensure_shift_rows units first_out) shift_ids (sc_shift_config d, sc_seat_records d)
      in \<lparr>sc_weeks = ws, sc_shifts = ss, sc_shift_config = fst st, sc_seat_records = snd st\<rparr>)"

text \<open>
  The date arithmetic of \<open>ensure_week\<close> raises when \<open>start + 6\<close>, \<open>start - 28\<close> or the
  end of the last night shift, \<open>start + 7\<close>, is out of range. The list of units is the
  module constant \<open>UNITS\<close>, passed explicitly.
\<close>

definition valid_start :: "date \<Rightarrow> bool" where
  "valid_start start = (date_ok start \<and> date_ok (start + 6) \<and> date_ok (start - 28) \<and> date_ok (start + 7))"

definition ensure_week_units :: "string list \<Rightarrow> date \<Rightarrow> string \<Rightarrow> db \<Rightarrow> error + db" where
  "ensure_week_units units start first_out d =
     (if valid_start start then Inr (ensure_week_rows units start first_out d) else Inl OverflowError)"

definition ensure_week :: "date \<Rightarrow> string \<Rightarrow> db \<Rightarrow> error + db" where
  "ensure_week = ensure_week_units UNITS"

section \<open>Rotation (ensure\_dec2025\_weeks\_and\_tow\_v1.py, apply\_tow)\<close>

definition set_staffed :: "string \<Rightarrow> string \<Rightarrow> cfg_row list \<Rightarrow> cfg_row list" where
  "set_staffed tow_unit sid cs =
     map (\<lambda>c. if cfg_shift_id c = sid then c\<lparr>staffed_unit_id := Some tow_unit\<rparr> else c) cs"

definition apply_tow :: "date \<Rightarrow> string \<Rightarrow> db \<Rightarrow> error + db" where
  "apply_tow start tow_unit d =
     (if \<not> date_ok (start + 6) then Inl OverflowError
      else
        (let wid = week_id_for start;
             ws = map (\<lambda>w. if week_id w = wid then w\<lparr>first_out_default_unit_id := tow_unit\<rparr> else w)
                      (sc_weeks d);
             shift_ids = map shift_id (filter (\<lambda>s. shift_week_id s = wid) (sc_shifts d));
             cs = fold (set_staffed tow_unit) shift_ids (sc_shift_config d)
         in Inr (d\<lparr>sc_weeks := ws, sc_shift_config := cs\<rparr>)))"

text \<open>
  \<open>main\<close>: ensure every week of the rotation, then apply the rotation, week \<open>i\<close> taking
  \<open>rotation[i % len(rotation)]\<close>.
\<close>

fun ensure_weeks :: "date \<Rightarrow> string list \<Rightarrow> nat list \<Rightarrow> db \<Rightarrow> error + db" where
  "ensure_weeks start1 rotation [] d = Inr d"
| "ensure_weeks start1 rotation (i # is) d =
     (case ensure_week (start1 + 7 * int i) (rotation ! (i mod length rotation)) d of
        Inl e \<Rightarrow> Inl e
      | Inr d' \<Rightarrow> ensure_weeks start1 rotation is d')"

fun apply_tows :: "date \<Rightarrow> string list \<Rightarrow> nat list \<Rightarrow> db \<Rightarrow> error + db" where
  "apply_tows start1 rotation [] d = Inr d"
| "apply_tows start1 rotation (i # is) d =
     (case apply_tow (start1 + 7 * int i) (rotation ! (i mod length rotation)) d of
        Inl e \<Rightarrow> Inl e
      | Inr d' \<Rightarrow> apply_tows start1 rotation is d')"

definition rotation_main :: "date \<Rightarrow> nat \<Rightarrow> string list \<Rightarrow> db \<Rightarrow> error + db" where
  "rotation_main start1 weeks rotation d =
     (if rotation = [] then Inl (SystemExit ''Rotation list empty'')
      else case ensure_weeks start1 rotation [0..<weeks] d of
             Inl e \<Rightarrow> Inl e
           | Inr d' \<Rightarrow> apply_tows start1 rotation [0..<weeks] d')"

section \<open>Week creation with random ids (create\_week.py)\<close>

text \<open>
  \<open>create_week\<close> writes the tables \<open>schedule_weeks\<close>, \<open>shifts\<close>, \<open>shift_config\<close> and
  \<open>seat_records\<close>, which have the columns of the \<open>sc_\<close> tables and are held in the same
  record. Every \<open>INSERT\<close> is unguarded, so a primary key that exists already raises
  \<open>IntegrityError\<close>. The values \<open>uuid.uuid4()\<close> returns are the sequence \<open>uuid4 0\<close>,
  \<open>uuid4 1\<close>, ...; \<open>units\<close> is what \<open>units_list(conn)\<close> returns. Columns an
  \<open>INSERT\<close> omits take the defaults of \<open>ensure_tables\<close>.
\<close>

definition insert_week :: "week_row \<Rightarrow> week_row list \<Rightarrow> error + week_row list" where
  "insert_week w ws = (if \<exists>x\<in>set ws. week_id x = week_id w then Inl IntegrityError else Inr (ws @ [w]))"

definition insert_shift :: "shift_row \<Rightarrow> shift_row list \<Rightarrow> error + shift_row list" where
  "insert_shift r ss = (if \<exists>x\<in>set ss. shift_id x = shift_id r then Inl IntegrityError else Inr (ss @ [r]))"

definition insert_cfg :: "cfg_row \<Rightarrow> cfg_row list \<Rightarrow> error + cfg_row list" where
  "insert_cfg c cs = (if \<exists>x\<in>set cs. cfg_shift_id x = cfg_shift_id c then Inl IntegrityError else Inr (cs @ [c]))"

definition insert_seat :: "seat_row \<Rightarrow> seat_row list \<Rightarrow> error + seat_row list" where
  "insert_seat r ss =
     (if \<exists>x\<in>set ss. seat_record_id x = seat_record_id r then Inl IntegrityError else Inr (ss @ [r]))"

definition v1_seat :: "string \<Rightarrow> string \<Rightarrow> string \<Rightarrow> string \<Rightarrow> string \<Rightarrow> seat_row" where
  "v1_seat srid sid unit seat lay =
     \<lparr>seat_record_id = Some srid, seat_shift_id = sid, unit_id = unit, seat_id = seat, layer = lay,
      assigned_entity_type = Some ''UNASSIGNED'', assigned_person_id = None,
      assigned_placeholder_id = None, health_status = Some ''UNFILLED'', seat_note = None\<rparr>"

definition v1_cfg :: "string \<Rightarrow> string \<Rightarrow> cfg_row" where
  "v1_cfg sid first_out =
     \<lparr>cfg_shift_id = sid, first_out_override_unit_id = None, staffed_unit_id = Some first_out,
      is_salary_only = 0, cfg_active = 1\<rparr>"

text \<open>The loops \<open>for unit_id in units: for seat_id in ("ATTENDANT","DRIVER")\<close>, flattened.\<close>

fun create_seats ::
  "(nat \<Rightarrow> string) \<Rightarrow> string \<Rightarrow> string \<Rightarrow> (string \<times> string) list \<Rightarrow> nat \<Rightarrow> seat_row list
     \<Rightarrow> error + (nat \<times> seat_row list)" where
  "create_seats uuid4 sid first_out [] k ss = Inr (k, ss)"
| "create_seats uuid4 sid first_out ((unit, seat) # us) k ss =
     (case insert_seat (v1_seat (uuid4 k) sid unit seat (if unit = first_out then ''PRIMARY'' else ''SHADOW'')) ss of
        Inl e \<Rightarrow> Inl e
      | Inr ss' \<Rightarrow> create_seats uuid4 sid first_out us (Suc k) ss')"

definition v1_shift :: "string \<Rightarrow> string \<Rightarrow> string \<times> date \<times> date \<times> nat \<Rightarrow> shift_row" where
  "v1_shift sid wid t = (case t of (slt, d_start, d_end, di) \<Rightarrow>
     \<lparr>shift_id = sid, shift_week_id = wid,
      shift_start = strftime_dt d_start (if slt = ''DAY'' then (6, 0, 0) else (18, 0, 0)),
      shift_end = strftime_dt d_end (if slt = ''DAY'' then (18, 0, 0) else (6, 0, 0)),
      shift_label = strftime_a_md d_start @ '' '' @ slt
         @ (if slt = ''DAY'' then '' (06-18)'' else '' (18-06)''),
      day_index = int di, slot = slt\<rparr>)"

definition unit_seat_pairs :: "string list \<Rightarrow> (string \<times> string) list" where
  "unit_seat_pairs units = concat (map (\<lambda>u. map (\<lambda>s. (u, s)) SEATS) units)"

text \<open>The loop over the 14 tuples \<open>(slot, s_start, s_end, day_index)\<close>.\<close>

fun create_shifts ::
  "(nat \<Rightarrow> string) \<Rightarrow> string list \<Rightarrow> string \<Rightarrow> string \<Rightarrow> (string \<times> date \<times> date \<times> nat) list
     \<Rightarrow> nat \<Rightarrow> db \<Rightarrow> error + (nat \<times> db)" where
  "create_shifts uuid4 units wid first_out [] k d = Inr (k, d)"
| "create_shifts uuid4 units wid first_out (t # rest) k d =
     (let sid = uuid4 k in
      case insert_shift (v1_shift sid wid t) (sc_shifts d) of
        Inl e \<Rightarrow> Inl e
      | Inr ss \<Rightarrow>
         (case insert_cfg (v1_cfg sid first_out) (sc_shift_config d) of
            Inl e \<Rightarrow> Inl e
          | Inr cs \<Rightarrow>
             (case create_seats uuid4 sid first_out (unit_seat_pairs units) (Suc k) (sc_seat_records d) of
                Inl e \<Rightarrow> Inl e
              | Inr (k', seats) \<Rightarrow>
                  create_shifts uuid4 units wid first_out rest k'
                    (d\<lparr>sc_shifts := ss, sc_shift_config := cs, sc_seat_records := seats\<rparr>))))"

definition week_shift_tuples :: "date \<Rightarrow> (string \<times> date \<times> date \<times> nat) list" where
  "week_shift_tuples start =
     concat (map (\<lambda>di. [(''DAY'', start + int di, start + int di, di),
                         (''NIGHT'', start + int di, start + int di + 1, di)]) [0..<7])"

definition create_week ::
  "(nat \<Rightarrow> string) \<Rightarrow> string list \<Rightarrow> date \<Rightarrow> string \<Rightarrow> int \<Rightarrow> db \<Rightarrow> error + (string \<times> db)" where
  "create_week uuid4 units start first_out_default lock_rule_days d =
     (if \<not> (date_ok (start + 6) \<and> date_ok (start - lock_rule_days) \<and> date_ok (start + 7))
        then Inl OverflowError
      else case insert_week (new_week start lock_rule_days first_out_default) (sc_weeks d) of
             Inl e \<Rightarrow> Inl e
           | Inr ws \<Rightarrow>
              (case create_shifts uuid4 units (week_id_for start) first_out_default
                      (week_shift_tuples start) 0 (d\<lparr>sc_weeks := ws\<rparr>) of
                 Inl e \<Rightarrow> Inl e
               | Inr (k, d') \<Rightarrow> Inr (week_id_for start, d')))"

text \<open>The default of the parameter \<open>lock_rule_days\<close>.\<close>

definition lock_rule_days_default :: int where
  "lock_rule_days_default = 29"

text \<open>
  \<open>ensure_week_not_exists\<close>, which exits when the query for a week with the start date
  returns a row, naming the first one; and \<open>main\<close>, which calls it and then \<open>create_week\<close>
  with the default lead time.
\<close>

definition ensure_week_not_exists :: "week_row list \<Rightarrow> string \<Rightarrow> error + unit" where
  "ensure_week_not_exists ws sd =
     (case find (\<lambda>w. start_date w = sd) ws of
        Some row \<Rightarrow>
          Inl (SystemExit (''ERROR: A week already exists with start_date='' @ sd
                 @ '' (week_id='' @ week_id row @ '').''))
      | None \<Rightarrow> Inr ())"

definition create_week_main ::
  "(nat \<Rightarrow> string) \<Rightarrow> string list \<Rightarrow> date \<Rightarrow> string \<Rightarrow> db \<Rightarrow> error + (string \<times> db)" where
  "create_week_main uuid4 units start first_out d =
     (case ensure_week_not_exists (sc_weeks d) (isoformat start) of
        Inl e \<Rightarrow> Inl e
      | Inr _ \<Rightarrow> create_week uuid4 units start first_out lock_rule_days_default d)"

section \<open>Week rows of the history import (import\_history\_month\_2025\_12\_v3.py)\<close>

definition DEFAULT_UNIT :: string where
  "DEFAULT_UNIT = ''AMB120''"

definition week_start_thu :: "date \<Rightarrow> date" where
  "week_start_thu d = d - (weekday d - 3) mod 7"

text \<open>\<open>ensure_week(conn, d)\<close>: \<open>INSERT OR IGNORE\<close> of the week that holds the day \<open>d\<close>.\<close>

definition import_ensure_week :: "date \<Rightarrow> db \<Rightarrow> error + db" where
  "import_ensure_week d dbs =
     (let start = week_start_thu d in
      if \<not> (date_ok start \<and> date_ok (start + 6) \<and> date_ok (start - 28)) then Inl OverflowError
      else Inr (dbs\<lparr>sc_weeks := ensure_week_row (new_week start 28 DEFAULT_UNIT) (sc_weeks dbs)\<rparr>))"

section \<open>Seat reconciliation (dedupe\_sc\_seat\_records\_hard.py)\<close>

definition TAG :: string where
  "TAG = ''HISTORY_DEC2025''"

fun starts_with :: "string \<Rightarrow> string \<Rightarrow> bool" where
  "starts_with [] s = True"
| "starts_with (p # ps) [] = False"
| "starts_with (p # ps) (c # cs) = (p = c \<and> starts_with ps cs)"

text \<open>\<open>sub in s\<close> on strings.\<close>

fun contains :: "string \<Rightarrow> string \<Rightarrow> bool" where
  "contains sub [] = (sub = [])"
| "contains sub (c # cs) = (starts_with sub (c # cs) \<or> contains sub cs)"

definition score :: "seat_row \<Rightarrow> int" where
  "score r =
     (let s0 = 0;
          note = or_empty (seat_note r);
          hs = or_empty (health_status r);
          aet = or_empty (assigned_entity_type r);
          s1 = (if contains TAG note then s0 + 1000 else s0);
          s2 = (if upper hs = ''FILLED'' then s1 + 100 else s1);
          s3 = (if upper aet \<in> set [''PERSON'', ''PLACEHOLDER''] then s2 + 10 else s2);
          s4 = (if truthy (assigned_person_id r) then s3 + 3 else s3);
          s5 = (if truthy (assigned_placeholder_id r) then s4 + 2 else s4)
      in s5)"

type_synonym seat_key = "string \<times> string \<times> string \<times> string"

definition seat_key_of :: "seat_row \<Rightarrow> seat_key" where
  "seat_key_of r = (seat_shift_id r, unit_id r, seat_id r, layer r)"

text \<open>
  The groups of \<open>GROUP BY shift_id, unit_id, seat_id, layer HAVING COUNT(*) > 1\<close>. SQL leaves
  the order of the groups open; here each key stands where its last row stands.
\<close>

definition dup_keys :: "seat_row list \<Rightarrow> seat_key list" where
  "dup_keys tbl =
     remdups (map seat_key_of
        (filter (\<lambda>r. 1 < length (filter (\<lambda>x. seat_key_of x = seat_key_of r) tbl)) tbl))"

text \<open>
  \<open>UPDATE ... SET note = ? WHERE seat_record_id = ?\<close> and
  \<open>DELETE ... WHERE seat_record_id = ?\<close>: a NULL parameter compares equal to no row.
\<close>

definition update_note_by_id :: "string \<Rightarrow> string option \<Rightarrow> seat_row list \<Rightarrow> seat_row list" where
  "update_note_by_id n srid tbl =
     (case srid of
        None \<Rightarrow> tbl
      | Some v \<Rightarrow> map (\<lambda>r. if seat_record_id r = Some v then r\<lparr>seat_note := Some n\<rparr> else r) tbl)"

definition delete_by_id :: "string option \<Rightarrow> seat_row list \<Rightarrow> seat_row list" where
  "delete_by_id srid tbl =
     (case srid of
        None \<Rightarrow> tbl
      | Some v \<Rightarrow> filter (\<lambda>r. seat_record_id r \<noteq> Some v) tbl)"

text \<open>
  \<open>sorted(rows, key=score, reverse=True)\<close>: a stable sort, rows of equal score keep their
  order.
\<close>

definition sorted_by_score :: "seat_row list \<Rightarrow> seat_row list" where
  "sorted_by_score rows = sort_key (\<lambda>r. - score r) rows"

definition tagged :: "seat_row \<Rightarrow> bool" where
  "tagged r = contains TAG (or_empty (seat_note r))"

text \<open>The body of \<open>for g in dups\<close>; \<open>rows_sorted[0]\<close> raises on an empty list.\<close>

definition dedupe_group :: "seat_key \<Rightarrow> seat_row list \<Rightarrow> error + seat_row list" where
  "dedupe_group g tbl =
     (let rows = filter (\<lambda>r. seat_key_of r = g) tbl;
          rows_sorted = sorted_by_score rows
      in case rows_sorted of
           [] \<Rightarrow> Inl IndexError
         | winner # losers \<Rightarrow>
            (let tbl1 = (if \<not> tagged winner \<and> (\<exists>r\<in>set losers. tagged r)
                         then update_note_by_id TAG (seat_record_id winner) tbl
                         else tbl)
             in Inr (fold (\<lambda>r t. delete_by_id (seat_record_id r) t) losers tbl1)))"

fun dedupe_groups :: "seat_key list \<Rightarrow> seat_row list \<Rightarrow> error + seat_row list" where
  "dedupe_groups [] tbl = Inr tbl"
| "dedupe_groups (g # gs) tbl =
     (case dedupe_group g tbl of Inl e \<Rightarrow> Inl e | Inr tbl' \<Rightarrow> dedupe_groups gs tbl')"

definition dedupe_main :: "seat_row list \<Rightarrow> error + seat_row list" where
  "dedupe_main tbl =
     (let dups = dup_keys tbl in
      if dups = [] then Inr tbl else dedupe_groups dups tbl)"

section \<open>Pruning blank defaults (prune\_blank\_defaults\_when\_history\_exists\_v3.py)\<close>

text \<open>
  SQLite's \<open>LIKE\<close>: \<open>%\<close> in the pattern stands for any run of characters, \<open>_\<close> for any one
  character, and every other character for itself, the case of the letters a to z aside.
  The prune asks for \<open>h.note LIKE '%' || ? || '%'\<close> with the tag as parameter, whose \<open>_\<close>
  is such a wildcard; a NULL note matches nothing. \<open>TRIM\<close> removes spaces.
\<close>

definition like_fold :: "char \<Rightarrow> char" where
  "like_fold c = (let n = (of_char c :: nat) in if 97 \<le> n \<and> n \<le> 122 then char_of (n - 32) else c)"

fun sql_like :: "string \<Rightarrow> string \<Rightarrow> bool" where
  "sql_like [] [] = True"
| "sql_like [] (c # cs) = False"
| "sql_like (p # ps) [] = (p = CHR ''%'' \<and> sql_like ps [])"
| "sql_like (p # ps) (c # cs) =
     (if p = CHR ''%'' then sql_like ps (c # cs) \<or> sql_like (p # ps) cs
      else (p = CHR ''_'' \<or> like_fold p = like_fold c) \<and> sql_like ps cs)"

definition like_contains :: "string \<Rightarrow> string option \<Rightarrow> bool" where
  "like_contains sub v = (case v of None \<Rightarrow> False | Some s \<Rightarrow> sql_like (''%'' @ sub @ ''%'') s)"

definition sql_trim :: "string \<Rightarrow> string" where
  "sql_trim s = rev (dropWhile (\<lambda>c. c = CHR '' '') (rev (dropWhile (\<lambda>c. c = CHR '' '') s)))"

definition blank_default :: "seat_row \<Rightarrow> bool" where
  "blank_default b =
     (seat_record_id b = None \<and>
      assigned_entity_type b = Some ''NONE'' \<and>
      assigned_person_id b = None \<and>
      assigned_placeholder_id b = None \<and>
      (case seat_note b of None \<Rightarrow> True | Some n \<Rightarrow> sql_trim n = []) \<and>
      (case health_status b of None \<Rightarrow> True | Some h \<Rightarrow> sql_trim h = [] \<or> h = ''UNFILLED''))"

definition prune_v3 :: "seat_row list \<Rightarrow> seat_row list" where
  "prune_v3 tbl =
     filter (\<lambda>b. \<not> (blank_default b \<and>
                     (\<exists>h\<in>set tbl. seat_key_of h = seat_key_of b \<and> like_contains TAG (seat_note h))))
            tbl"

section \<open>Sample states\<close>

text \<open>The first day shift of the week of 2025-12-04, staffed, with an override.\<close>

definition ex_db :: db where
  "ex_db =
     \<lparr>sc_weeks =
        [\<lparr>week_id = ''WEEK_2025-12-04_to_2025-12-10'', start_date = ''2025-12-04'',
          end_date = ''2025-12-10'', lock_dt = ''2025-11-06 00:00:00'',
          first_out_default_unit_id = ''AMB121'', week_status = ''DRAFT''\<rparr>],
      sc_shifts =
        [\<lparr>shift_id = ''WEEK_2025-12-04_to_2025-12-10__D0__DAY'',
          shift_week_id = ''WEEK_2025-12-04_to_2025-12-10'',
          shift_start = ''2025-12-04 06:00:00'', shift_end = ''2025-12-04 18:00:00'',
          shift_label = ''Thu 12/04 DAY (06-18)'', day_index = 0, slot = ''DAY''\<rparr>],
      sc_shift_config =
        [\<lparr>cfg_shift_id = ''WEEK_2025-12-04_to_2025-12-10__D0__DAY'',
          first_out_override_unit_id = Some ''AMB131'', staffed_unit_id = Some ''AMB121'',
          is_salary_only = 0, cfg_active = 1\<rparr>],
      sc_seat_records =
        [\<lparr>seat_record_id = Some ''WEEK_2025-12-04_to_2025-12-10__D0__DAY__PRIMARY__AMB121__DRIVER'',
          seat_shift_id = ''WEEK_2025-12-04_to_2025-12-10__D0__DAY'', unit_id = ''AMB121'',
          seat_id = ''DRIVER'', layer = ''PRIMARY'', assigned_entity_type = Some ''PERSON'',
          assigned_person_id = Some ''P1'', assigned_placeholder_id = None,
          health_status = Some ''FILLED'', seat_note = Some ''swap approved''\<rparr>]\<rparr>"

text \<open>
  Two rows for one seat: the history row of an import, and the blank default row that a
  generator wrote without a \<open>seat_record_id\<close>.
\<close>

definition ex_history_row :: seat_row where
  "ex_history_row =
     \<lparr>seat_record_id = Some ''WEEK_2025-12-04_to_2025-12-10__D0__DAY__PRIMARY__AMB120__DRIVER'',
      seat_shift_id = ''WEEK_2025-12-04_to_2025-12-10__D0__DAY'', unit_id = ''AMB120'',
      seat_id = ''DRIVER'', layer = ''PRIMARY'', assigned_entity_type = Some ''PLACEHOLDER'',
      assigned_person_id = None, assigned_placeholder_id = Some ''PH_FIRE_DIVISION'',
      health_status = Some ''FILLED'', seat_note = Some ''HISTORY_DEC2025''\<rparr>"

definition ex_blank_row :: seat_row where
  "ex_blank_row =
     \<lparr>seat_record_id = None,
      seat_shift_id = ''WEEK_2025-12-04_to_2025-12-10__D0__DAY'', unit_id = ''AMB120'',
      seat_id = ''DRIVER'', layer = ''PRIMARY'', assigned_entity_type = Some ''NONE'',
      assigned_person_id = None, assigned_placeholder_id = None,
      health_status = Some ''UNFILLED'', seat_note = None\<rparr>"

text \<open>
  Two rows for one seat, both with ids: a tagged row without assignment, and a later row
  that names a person.
\<close>

definition ex_tagged_blank_row :: seat_row where
  "ex_tagged_blank_row =
     \<lparr>seat_record_id = Some ''S1__PRIMARY__AMB120__ATTENDANT'',
      seat_shift_id = ''S1'', unit_id = ''AMB120'',
      seat_id = ''ATTENDANT'', layer = ''PRIMARY'', assigned_entity_type = Some ''NONE'',
      assigned_person_id = None, assigned_placeholder_id = None,
      health_status = Some ''UNFILLED'', seat_note = Some ''HISTORY_DEC2025''\<rparr>"

definition ex_person_row :: seat_row where
  "ex_person_row =
     \<lparr>seat_record_id = Some ''manual-17'',
      seat_shift_id = ''S1'', unit_id = ''AMB120'',
      seat_id = ''ATTENDANT'', layer = ''PRIMARY'', assigned_entity_type = Some ''PERSON'',
      assigned_person_id = Some ''P2'', assigned_placeholder_id = None,
      health_status = Some ''FILLED'', seat_note = None\<rparr>"

text \<open>A blank default row of the same seat that has an id of its own.\<close>

definition ex_blank_with_id :: seat_row where
  "ex_blank_with_id =
     \<lparr>seat_record_id = Some ''b1946ac9-2d4e-4c1f-9a57-0c1d5e3f7a10'',
      seat_shift_id = ''WEEK_2025-12-04_to_2025-12-10__D0__DAY'', unit_id = ''AMB120'',
      seat_id = ''DRIVER'', layer = ''PRIMARY'', assigned_entity_type = Some ''NONE'',
      assigned_person_id = None, assigned_placeholder_id = None,
      health_status = Some ''UNFILLED'', seat_note = None\<rparr>"


text \<open>
  The same state with the first day shift of the following week, which another unit leads.
\<close>

definition ex_db_two_weeks :: db where
  "ex_db_two_weeks =
     ex_db
       \<lparr>sc_weeks := sc_weeks ex_db @
          [\<lparr>week_id = ''WEEK_2025-12-11_to_2025-12-17'', start_date = ''2025-12-11'',
            end_date = ''2025-12-17'', lock_dt = ''2025-11-13 00:00:00'',
            first_out_default_unit_id = ''AMB131'', week_status = ''DRAFT''\<rparr>],
        sc_shifts := sc_shifts ex_db @
          [\<lparr>shift_id = ''WEEK_2025-12-11_to_2025-12-17__D0__DAY'',
            shift_week_id = ''WEEK_2025-12-11_to_2025-12-17'',
            shift_start = ''2025-12-11 06:00:00'', shift_end = ''2025-12-11 18:00:00'',
            shift_label = ''Thu 12/11 DAY (06-18)'', day_index = 0, slot = ''DAY''\<rparr>],
        sc_shift_config := sc_shift_config ex_db @
          [\<lparr>cfg_shift_id = ''WEEK_2025-12-11_to_2025-12-17__D0__DAY'',
            first_out_override_unit_id = None, staffed_unit_id = Some ''AMB131'',
            is_salary_only = 0, cfg_active = 1\<rparr>]\<rparr>"

text \<open>
  Two rows for one driver seat with ids of their own and the same score: both name a person
  and are FILLED.
\<close>

definition ex_tie_first :: seat_row where
  "ex_tie_first =
     \<lparr>seat_record_id = Some ''manual-21'',
      seat_shift_id = ''S1'', unit_id = ''AMB120'',
      seat_id = ''DRIVER'', layer = ''PRIMARY'', assigned_entity_type = Some ''PERSON'',
      assigned_person_id = Some ''P1'', assigned_placeholder_id = None,
      health_status = Some ''FILLED'', seat_note = None\<rparr>"

definition ex_tie_second :: seat_row where
  "ex_tie_second =
     \<lparr>seat_record_id = Some ''manual-04'',
      seat_shift_id = ''S1'', unit_id = ''AMB120'',
      seat_id = ''DRIVER'', layer = ''PRIMARY'', assigned_entity_type = Some ''PERSON'',
      assigned_person_id = Some ''P3'', assigned_placeholder_id = None,
      health_status = Some ''FILLED'', seat_note = None\<rparr>"
section \<open>Predicates used in the statements\<close>

text \<open>
  The values \<open>uuid4 k\<close>, ..., \<open>uuid4 (k + n - 1)\<close> are pairwise different and none of them is
  a key of the shift, config or seat table.
\<close>

definition fresh_uuids :: "(nat \<Rightarrow> string) \<Rightarrow> nat \<Rightarrow> nat \<Rightarrow> db \<Rightarrow> bool" where
  "fresh_uuids uuid4 k n d =
     (inj_on uuid4 {k..<k + n} \<and>
      (\<forall>j\<in>{k..<k + n}.
         uuid4 j \<notin> shift_id ` set (sc_shifts d) \<and>
         uuid4 j \<notin> cfg_shift_id ` set (sc_shift_config d) \<and>
         Some (uuid4 j) \<notin> seat_record_id ` set (sc_seat_records d)))"

text \<open>Every row has a \<open>seat_record_id\<close>, and no two rows share one.\<close>

definition pk_ok :: "seat_row list \<Rightarrow> bool" where
  "pk_ok tbl = ((\<forall>r\<in>set tbl. seat_record_id r \<noteq> None) \<and> distinct (map seat_record_id tbl))"

text \<open>The row that \<open>rows_sorted[0]\<close> selects among the rows of a key.\<close>

definition winner_of :: "seat_row list \<Rightarrow> seat_key \<Rightarrow> seat_row" where
  "winner_of tbl g = hd (sorted_by_score (filter (\<lambda>r. seat_key_of r = g) tbl))"

text \<open>The common shape of the guarded inserts: add the row unless its key is there.\<close>

definition ensure_by :: "('a \<Rightarrow> 'k) \<Rightarrow> 'a \<Rightarrow> 'a list \<Rightarrow> 'a list" where
  "ensure_by key r xs = (if \<exists>x\<in>set xs. key x = key r then xs else xs @ [r])"

text \<open>
  The config row of a shift is there, and so is the id of every seat row that
  \<open>ensure_week\<close> would write for the shift.
\<close>

definition shift_rows_present ::
  "string list \<Rightarrow> string \<Rightarrow> string \<Rightarrow> cfg_row list \<Rightarrow> string option set \<Rightarrow> bool" where
  "shift_rows_present units first_out sid cs ids =
     ((\<exists>c\<in>set cs. cfg_shift_id c = sid) \<and>
      (\<forall>r\<in>set (seat_targets units sid (staffed_unit_of sid first_out cs)). seat_record_id r \<in> ids))"

text \<open>The 14 shift rows of a week, in the order of the loop.\<close>

definition week_shift_rows :: "string \<Rightarrow> date \<Rightarrow> shift_row list" where
  "week_shift_rows wid start =
     concat (map (\<lambda>di. [day_shift wid start di, night_shift wid start di]) [0..<7])"

text \<open>No key of any table starts with the id of the week.\<close>

definition week_absent :: "date \<Rightarrow> db \<Rightarrow> bool" where
  "week_absent start d =
     ((\<forall>w\<in>set (sc_weeks d). week_id w \<noteq> week_id_for start) \<and>
      (\<forall>s\<in>set (sc_shifts d). shift_week_id s \<noteq> week_id_for start \<and>
                              \<not> starts_with (week_id_for start) (shift_id s)) \<and>
      (\<forall>c\<in>set (sc_shift_config d). \<not> starts_with (week_id_for start) (cfg_shift_id c)) \<and>
      (\<forall>r\<in>set (sc_seat_records d).
          case seat_record_id r of None \<Rightarrow> True | Some i \<Rightarrow> \<not> starts_with (week_id_for start) i))"

text \<open>
  The rows \<open>create_week\<close> writes when no insert fails: the seat rows of one shift, and for
  each tuple the shift row, its config row and its seat rows, with the ids drawn in order.
\<close>

fun v1_seat_rows ::
  "(nat \<Rightarrow> string) \<Rightarrow> string \<Rightarrow> string \<Rightarrow> (string \<times> string) list \<Rightarrow> nat \<Rightarrow> seat_row list" where
  "v1_seat_rows uuid4 sid fo [] k = []"
| "v1_seat_rows uuid4 sid fo ((unit, seat) # us) k =
     v1_seat (uuid4 k) sid unit seat (if unit = fo then ''PRIMARY'' else ''SHADOW'')
       # v1_seat_rows uuid4 sid fo us (Suc k)"

fun v1_rows ::
  "(nat \<Rightarrow> string) \<Rightarrow> string list \<Rightarrow> string \<Rightarrow> string \<Rightarrow> (string \<times> date \<times> date \<times> nat) list \<Rightarrow> nat
     \<Rightarrow> (shift_row \<times> cfg_row \<times> seat_row list) list" where
  "v1_rows uuid4 units wid fo [] k = []"
| "v1_rows uuid4 units wid fo (t # rest) k =
     (v1_shift (uuid4 k) wid t, v1_cfg (uuid4 k) fo,
      v1_seat_rows uuid4 (uuid4 k) fo (unit_seat_pairs units) (Suc k))
       # v1_rows uuid4 units wid fo rest (Suc k + length (unit_seat_pairs units))"

section \<open>Properties of the eligibility evaluator\<close>

lemma eligible_attendant_pool_filter:
  "eligible_attendant_pool ps =
     filter (\<lambda>p. active p = 1 \<and> willing_attend p = 1 \<and> is_emt_or_higher (medical_cert p)) ps"
  by (induction ps) auto

lemma eligible_driver_pool_filter:
  "eligible_driver_pool allow unit_ops ps =
     filter (\<lambda>p. active p = 1 \<and> person_id p \<in> unit_ops \<and> (allow \<or> is_emt_or_higher (medical_cert p))) ps"
  by (induction ps) auto

lemma fold_ops_member:
  "(x \<in> fold (\<lambda>r m. m(po_unit_id r := insert (po_person_id r) (m (po_unit_id r)))) rows m0 u) =
     (x \<in> m0 u \<or> (\<exists>r\<in>set rows. po_unit_id r = u \<and> po_person_id r = x))"
  by (induction rows arbitrary: m0) auto

lemma ops_by_unit_member:
  "(x \<in> ops_by_unit ops_rows u) =
     (\<exists>r\<in>set ops_rows. can_operate r = 1 \<and> po_unit_id r = u \<and> po_person_id r = x)"
  unfolding ops_by_unit_def fold_ops_member by auto

lemma driver_pool_empty_without_ops:
  assumes "\<forall>r\<in>set ops_rows. \<not> (can_operate r = 1 \<and> po_unit_id r = u)"
  shows "eligible_driver_pool allow (ops_by_unit ops_rows u) people = []"
  using assms by (auto simp: eligible_driver_pool_filter ops_by_unit_member filter_empty_conv)

lemma als_pool_empty_iff:
  "(filter (\<lambda>p. is_als (medical_cert p)) att = []) = (\<not> (\<exists>p\<in>set att. is_als (medical_cert p)))"
  by (auto simp: filter_empty_conv)

lemma effective_unit_cases:
  "effective_unit wd s =
     (case sv_first_out_override_unit_id s of
            Some (c # cs) \<Rightarrow> c # cs
          | _ \<Rightarrow> (case sv_staffed_unit_id s of Some (c # cs) \<Rightarrow> c # cs | _ \<Rightarrow> wd))"
  by (simp add: effective_unit_def truthy_def or_empty_def split: option.splits list.splits)

lemma unit_v1_cases:
  "unit_v1 s =
     (case sv_first_out_override_unit_id s of
            Some (c # cs) \<Rightarrow> Some (c # cs)
          | _ \<Rightarrow> sv_staffed_unit_id s)"
  by (simp add: unit_v1_def truthy_def split: option.splits list.splits)

lemma ops_by_unit_v1_member:
  "(x \<in> ops_by_unit_v1 ops_rows u) = (\<exists>r\<in>set ops_rows. po_unit_id r = u \<and> po_person_id r = x)"
  unfolding ops_by_unit_v1_def fold_ops_member by auto

text \<open>
  C7. The status is derived by ordered rules with RED dominating: RED if the attendant pool
  or the driver pool is empty; otherwise YELLOW if no attendant is ALS-capable; otherwise
  YELLOW if a pool has exactly one candidate; otherwise GREEN. The shift's effective unit is
  its override unit if one is set, else its staffed unit if one is set, else the week's
  default unit. If no roster member has ops-capability (a row with \<open>can_operate = 1\<close>) for
  that unit, the result is RED with the no-driver-candidates reason for that unit; an
  ALS-capable attendant together with two or more members in both pools gives GREEN.
\<close>

theorem C7_status:
  "ev_status (evaluate allow wd ops_rows people s) =
     (if ev_att_pool (evaluate allow wd ops_rows people s) = []
         \<or> ev_drv_pool (evaluate allow wd ops_rows people s) = [] then RED
      else if \<not> (\<exists>p\<in>set (ev_att_pool (evaluate allow wd ops_rows people s)). is_als (medical_cert p))
        then YELLOW
      else if length (ev_att_pool (evaluate allow wd ops_rows people s)) = 1
         \<or> length (ev_drv_pool (evaluate allow wd ops_rows people s)) = 1 then YELLOW
      else GREEN)
   \<and> ev_unit (evaluate allow wd ops_rows people s) =
        (case sv_first_out_override_unit_id s of
            Some (c # cs) \<Rightarrow> c # cs
          | _ \<Rightarrow> (case sv_staffed_unit_id s of Some (c # cs) \<Rightarrow> c # cs | _ \<Rightarrow> wd))
   \<and> ((\<forall>r\<in>set ops_rows. \<not> (can_operate r = 1 \<and> po_unit_id r =
        (case sv_first_out_override_unit_id s of
            Some (c # cs) \<Rightarrow> c # cs
          | _ \<Rightarrow> (case sv_staffed_unit_id s of Some (c # cs) \<Rightarrow> c # cs | _ \<Rightarrow> wd)))) \<longrightarrow>
        ev_status (evaluate allow wd ops_rows people s) = RED \<and>
        ''No driver candidates with '' @
        (case sv_first_out_override_unit_id s of
            Some (c # cs) \<Rightarrow> c # cs
          | _ \<Rightarrow> (case sv_staffed_unit_id s of Some (c # cs) \<Rightarrow> c # cs | _ \<Rightarrow> wd)) @ ''_ops''
           \<in> set (ev_reasons (evaluate allow wd ops_rows people s)))
   \<and> ((\<exists>p\<in>set (ev_att_pool (evaluate allow wd ops_rows people s)). is_als (medical_cert p)) \<and>
       2 \<le> length (ev_att_pool (evaluate allow wd ops_rows people s)) \<and>
       2 \<le> length (ev_drv_pool (evaluate allow wd ops_rows people s)) \<longrightarrow>
        ev_status (evaluate allow wd ops_rows people s) = GREEN \<and>
        ev_reasons (evaluate allow wd ops_rows people s) = [])"
proof -
  have two: "\<And>xs :: person list. 2 \<le> length xs \<Longrightarrow> xs \<noteq> [] \<and> \<not> length xs \<le> 1 \<and> length xs \<noteq> 1"
    by auto
  note nodrv = driver_pool_empty_without_ops [of ops_rows "effective_unit wd s" allow people]
  show ?thesis
    unfolding effective_unit_cases [symmetric]
    apply (intro conjI impI)
    subgoal by (auto simp: evaluate_def Let_def als_pool_empty_iff le_Suc_eq)
    subgoal by (simp add: evaluate_def Let_def)
    subgoal using nodrv by (simp add: evaluate_def Let_def)
    subgoal using nodrv by (simp add: evaluate_def Let_def)
    subgoal using two by (auto simp: evaluate_def Let_def als_pool_empty_iff)
    subgoal using two by (auto simp: evaluate_def Let_def als_pool_empty_iff)
    done
qed

theorem C7_status_witness:
  "ev_status (evaluate False ''AMB120'' [] ex_people ex_shift) = RED
   \<and> ''No driver candidates with AMB121_ops'' \<in> set (ev_reasons (evaluate False ''AMB120'' [] ex_people ex_shift))
   \<and> (\<exists>p\<in>set (ev_att_pool (evaluate True ''AMB120'' ex_ops ex_people ex_shift)). is_als (medical_cert p))
   \<and> 2 \<le> length (ev_att_pool (evaluate True ''AMB120'' ex_ops ex_people ex_shift))
   \<and> 2 \<le> length (ev_drv_pool (evaluate True ''AMB120'' ex_ops ex_people ex_shift))
   \<and> ev_unit (evaluate True ''AMB120'' ex_ops ex_people ex_shift) = ''AMB121''
   \<and> ev_status (evaluate True ''AMB120'' ex_ops ex_people ex_shift) = GREEN
   \<and> ev_reasons (evaluate True ''AMB120'' ex_ops ex_people ex_shift) = []
   \<and> ev_unit (evaluate True ''AMB120'' ex_ops ex_people ex_shift_override) = ''AMB131''
   \<and> ev_status (evaluate True ''AMB120'' ex_ops ex_people ex_shift_override) = RED
   \<and> ev_reasons (evaluate True ''AMB120'' ex_ops ex_people ex_shift_override)
        = [''No driver candidates with AMB131_ops'']
   \<and> ev_unit (evaluate True ''AMB120'' ex_ops ex_people ex_shift_default) = ''AMB120''
   \<and> ev_status (evaluate True ''AMB120'' ex_ops ex_people ex_shift_default) = RED
   \<and> ev_reasons (evaluate True ''AMB120'' ex_ops ex_people ex_shift_default)
        = [''No driver candidates with AMB120_ops'']"
proof -
  let ?U = "\<lambda>wd s. (case sv_first_out_override_unit_id s of
            Some (c # cs) \<Rightarrow> c # cs
          | _ \<Rightarrow> (case sv_staffed_unit_id s of Some (c # cs) \<Rightarrow> c # cs | _ \<Rightarrow> wd))"
  have u1: "?U ''AMB120'' ex_shift = ''AMB121''"
    by (simp add: ex_shift_def)
  have u2: "?U ''AMB120'' ex_shift_override = ''AMB131''"
    by (simp add: ex_shift_override_def ex_shift_def)
  have u3: "?U ''AMB120'' ex_shift_default = ''AMB120''"
    by (simp add: ex_shift_default_def ex_shift_def)
  have n1: "\<forall>r\<in>set ([] :: person_ops list). \<not> (can_operate r = 1 \<and> po_unit_id r = ''AMB121'')"
    by simp
  have n2: "\<forall>r\<in>set ex_ops. \<not> (can_operate r = 1 \<and> po_unit_id r = ''AMB131'')"
    by (simp add: ex_ops_def)
  have n3: "\<forall>r\<in>set ex_ops. \<not> (can_operate r = 1 \<and> po_unit_id r = ''AMB120'')"
    by (simp add: ex_ops_def)
  note t1 = C7_status [of False "''AMB120''" "[]" ex_people ex_shift, unfolded u1]
  note t2 = C7_status [of True "''AMB120''" ex_ops ex_people ex_shift, unfolded u1]
  note t3 = C7_status [of True "''AMB120''" ex_ops ex_people ex_shift_override, unfolded u2]
  note t4 = C7_status [of True "''AMB120''" ex_ops ex_people ex_shift_default, unfolded u3]
  have r1: "ev_status (evaluate False ''AMB120'' [] ex_people ex_shift) = RED \<and>
     ''No driver candidates with '' @ ''AMB121'' @ ''_ops''
        \<in> set (ev_reasons (evaluate False ''AMB120'' [] ex_people ex_shift))"
    using t1 n1 by blast
  have h2: "(\<exists>p\<in>set (ev_att_pool (evaluate True ''AMB120'' ex_ops ex_people ex_shift)). is_als (medical_cert p))
     \<and> 2 \<le> length (ev_att_pool (evaluate True ''AMB120'' ex_ops ex_people ex_shift))
     \<and> 2 \<le> length (ev_drv_pool (evaluate True ''AMB120'' ex_ops ex_people ex_shift))"
    by code_simp
  have r2: "ev_unit (evaluate True ''AMB120'' ex_ops ex_people ex_shift) = ''AMB121''
     \<and> ev_status (evaluate True ''AMB120'' ex_ops ex_people ex_shift) = GREEN
     \<and> ev_reasons (evaluate True ''AMB120'' ex_ops ex_people ex_shift) = []"
    using t2 h2 by blast
  have r3: "ev_unit (evaluate True ''AMB120'' ex_ops ex_people ex_shift_override) = ''AMB131''
     \<and> ev_status (evaluate True ''AMB120'' ex_ops ex_people ex_shift_override) = RED"
    using t3 n2 by blast
  have e3: "ev_reasons (evaluate True ''AMB120'' ex_ops ex_people ex_shift_override)
        = [''No driver candidates with AMB131_ops'']"
    by code_simp
  have r4: "ev_unit (evaluate True ''AMB120'' ex_ops ex_people ex_shift_default) = ''AMB120''
     \<and> ev_status (evaluate True ''AMB120'' ex_ops ex_people ex_shift_default) = RED"
    using t4 n3 by blast
  have e4: "ev_reasons (evaluate True ''AMB120'' ex_ops ex_people ex_shift_default)
        = [''No driver candidates with AMB120_ops'']"
    by code_simp
  from r1 have r1': "ev_status (evaluate False ''AMB120'' [] ex_people ex_shift) = RED \<and>
     ''No driver candidates with AMB121_ops''
        \<in> set (ev_reasons (evaluate False ''AMB120'' [] ex_people ex_shift))"
    by simp
  show ?thesis
    apply (intro conjI)
    subgoal using r1' by (rule conjunct1)
    subgoal using r1' by (rule conjunct2)
    subgoal using h2 by (rule conjunct1)
    subgoal using h2 [THEN conjunct2] by (rule conjunct1)
    subgoal using h2 [THEN conjunct2] by (rule conjunct2)
    subgoal using r2 by (rule conjunct1)
    subgoal using r2 [THEN conjunct2] by (rule conjunct1)
    subgoal using r2 [THEN conjunct2] by (rule conjunct2)
    subgoal using r3 by (rule conjunct1)
    subgoal using r3 by (rule conjunct2)
    subgoal by (rule e3)
    subgoal using r4 by (rule conjunct1)
    subgoal using r4 by (rule conjunct2)
    subgoal by (rule e4)
    done
qed

text \<open>
  C8, as stated, fails on the first version of the evaluator, which does not know the
  certification MEDIC: of the sample roster it takes Avery (EMT) and the paramedic without an
  \<open>active\<close> value as attendants and only the latter as ALS-capable, where the second version
  takes Avery and Blake (Medic) and counts Blake as ALS-capable. It also reads every ops row
  as a qualification: for a shift staffed with AMB120 it takes Blake as driver on a row with
  \<open>can_operate = 0\<close>, where the second version finds no driver.
\<close>

theorem C8_medic_counterexample:
  "map rp_pid (attendant_pool_v1 ex_cols ex_roster) = [''P1'', ''P5'']
   \<and> map rp_pid (attendant_als_pool_v1 ex_cols ex_roster) = [''P5'']
   \<and> map rp_cert (filter (\<lambda>p. rp_pid p = ''P2'') ex_roster) = [Some ''Medic'']
   \<and> map person_id (ev_att_pool (evaluate False ''AMB120'' ex_ops ex_people ex_shift)) = [''P1'', ''P2'']
   \<and> map person_id (ev_att_als_pool (evaluate False ''AMB120'' ex_ops ex_people ex_shift)) = [''P2'']
   \<and> map rp_pid (driver_pool_v1 True ex_cols ex_ops ex_roster
                     (ex_shift\<lparr>sv_staffed_unit_id := Some ''AMB120''\<rparr>)) = [''P2'']
   \<and> map person_id (ev_drv_pool (evaluate True ''AMB121'' ex_ops ex_people
                     (ex_shift\<lparr>sv_staffed_unit_id := Some ''AMB120''\<rparr>))) = []"
  by code_simp

text \<open>
  C8, amended. In the second version the attendant pool is exactly the persons who are
  active, willing to attend and certified EMT, AEMT, ALS, PARAMEDIC or MEDIC; of these, ALS,
  PARAMEDIC and MEDIC are ALS-capable. The driver pool is exactly the persons who are active
  and have an ops row with \<open>can_operate = 1\<close> for the shift's effective unit (its override
  unit if one is set, else its staffed unit if one is set, else the week's default unit), and
  who are certified EMT or higher unless the non-medical-driver flag is set.

  In the first version MEDIC is not a certification: the attendant pool is the persons who
  are active, willing to attend and certified EMT, AEMT, ALS or PARAMEDIC, of whom ALS and
  PARAMEDIC are ALS-capable; the driver pool is the persons who are active and have any ops
  row for the shift's unit (its override unit if one is set, else its staffed unit), and who
  are certified EMT, AEMT, ALS or PARAMEDIC unless the flag is set. There a person counts as
  active, or as willing, also when the column is missing or NULL.
\<close>

theorem C8_pools:
  "ev_att_pool (evaluate allow wd ops_rows people s) =
     filter (\<lambda>p. active p = 1 \<and> willing_attend p = 1 \<and>
                 norm_cert (medical_cert p) \<in> {''EMT'', ''AEMT'', ''ALS'', ''PARAMEDIC'', ''MEDIC''}) people
   \<and> ev_att_als_pool (evaluate allow wd ops_rows people s) =
     filter (\<lambda>p. norm_cert (medical_cert p) \<in> {''ALS'', ''PARAMEDIC'', ''MEDIC''})
       (ev_att_pool (evaluate allow wd ops_rows people s))
   \<and> ev_drv_pool (evaluate allow wd ops_rows people s) =
     filter (\<lambda>p. active p = 1 \<and>
                 (\<exists>r\<in>set ops_rows. can_operate r = 1 \<and>
                     po_unit_id r =
                       (case sv_first_out_override_unit_id s of
                        Some (c # cs) \<Rightarrow> c # cs
                      | _ \<Rightarrow> (case sv_staffed_unit_id s of Some (c # cs) \<Rightarrow> c # cs | _ \<Rightarrow> wd))
                     \<and> po_person_id r = person_id p) \<and>
                 (allow \<or> norm_cert (medical_cert p) \<in> {''EMT'', ''AEMT'', ''ALS'', ''PARAMEDIC'', ''MEDIC''}))
       people
   \<and> attendant_pool_v1 cols roster =
     filter (\<lambda>p. (active_col cols \<longrightarrow> rp_active p = None \<or> rp_active p = Some 1) \<and>
                 (wta_col cols \<longrightarrow> rp_wta p = None \<or> rp_wta p = Some 1) \<and>
                 cert_col cols \<and>
                 upper (strip (or_empty (rp_cert p))) \<in> {''EMT'', ''AEMT'', ''ALS'', ''PARAMEDIC''}) roster
   \<and> attendant_als_pool_v1 cols roster =
     filter (\<lambda>p. upper (strip (or_empty (rp_cert p))) \<in> {''ALS'', ''PARAMEDIC''})
       (attendant_pool_v1 cols roster)
   \<and> driver_pool_v1 allow cols ops_rows roster s =
     filter (\<lambda>p. (active_col cols \<longrightarrow> rp_active p = None \<or> rp_active p = Some 1) \<and>
                 (\<exists>r\<in>set ops_rows.
                     Some (po_unit_id r) =
                       (case sv_first_out_override_unit_id s of
                        Some (c # cs) \<Rightarrow> Some (c # cs)
                      | _ \<Rightarrow> sv_staffed_unit_id s)
                     \<and> po_person_id r = rp_pid p) \<and>
                 (allow \<or> cert_col cols \<and>
                    upper (strip (or_empty (rp_cert p))) \<in> {''EMT'', ''AEMT'', ''ALS'', ''PARAMEDIC''}))
       roster"
proof -
  have act: "\<And>p. is_active_v1 cols p = (active_col cols \<longrightarrow> rp_active p = None \<or> rp_active p = Some 1)"
    by (simp add: is_active_v1_def split: option.splits)
  have wil: "\<And>p. willing_v1 cols p = (wta_col cols \<longrightarrow> rp_wta p = None \<or> rp_wta p = Some 1)"
    by (simp add: willing_v1_def split: option.splits)
  have emt: "\<And>p. is_emt_or_higher_v1 cols p =
      (cert_col cols \<and> upper (strip (or_empty (rp_cert p))) \<in> {''EMT'', ''AEMT'', ''ALS'', ''PARAMEDIC''})"
    by (simp add: is_emt_or_higher_v1_def cert_v1_def)
  have als: "\<And>p. is_emt_or_higher_v1 cols p \<Longrightarrow>
      is_als_v1 cols p = (upper (strip (or_empty (rp_cert p))) \<in> {''ALS'', ''PARAMEDIC''})"
    by (simp add: is_emt_or_higher_v1_def is_als_v1_def cert_v1_def split: if_splits)
  have ops: "\<And>x. (x \<in> (case unit_v1 s of None \<Rightarrow> {} | Some u \<Rightarrow> ops_by_unit_v1 ops_rows u)) =
      (\<exists>r\<in>set ops_rows. Some (po_unit_id r) = unit_v1 s \<and> po_person_id r = x)"
    by (cases "unit_v1 s") (auto simp: ops_by_unit_v1_member)
  have 1: "ev_att_pool (evaluate allow wd ops_rows people s) =
     filter (\<lambda>p. active p = 1 \<and> willing_attend p = 1 \<and>
                 norm_cert (medical_cert p) \<in> {''EMT'', ''AEMT'', ''ALS'', ''PARAMEDIC'', ''MEDIC''}) people"
    by (simp add: evaluate_def Let_def eligible_attendant_pool_filter is_emt_or_higher_def)
  have 2: "ev_att_als_pool (evaluate allow wd ops_rows people s) =
     filter (\<lambda>p. norm_cert (medical_cert p) \<in> {''ALS'', ''PARAMEDIC'', ''MEDIC''})
       (ev_att_pool (evaluate allow wd ops_rows people s))"
    by (simp add: evaluate_def Let_def is_als_def)
  have 3: "ev_drv_pool (evaluate allow wd ops_rows people s) =
     filter (\<lambda>p. active p = 1 \<and>
                 (\<exists>r\<in>set ops_rows. can_operate r = 1 \<and> po_unit_id r = effective_unit wd s
                     \<and> po_person_id r = person_id p) \<and>
                 (allow \<or> norm_cert (medical_cert p) \<in> {''EMT'', ''AEMT'', ''ALS'', ''PARAMEDIC'', ''MEDIC''}))
       people"
    by (simp add: evaluate_def Let_def eligible_driver_pool_filter ops_by_unit_member is_emt_or_higher_def)
  have 4: "attendant_pool_v1 cols roster =
     filter (\<lambda>p. (active_col cols \<longrightarrow> rp_active p = None \<or> rp_active p = Some 1) \<and>
                 (wta_col cols \<longrightarrow> rp_wta p = None \<or> rp_wta p = Some 1) \<and>
                 cert_col cols \<and>
                 upper (strip (or_empty (rp_cert p))) \<in> {''EMT'', ''AEMT'', ''ALS'', ''PARAMEDIC''}) roster"
    unfolding attendant_pool_v1_def act wil emt by (rule refl)
  have 5: "attendant_als_pool_v1 cols roster =
     filter (\<lambda>p. upper (strip (or_empty (rp_cert p))) \<in> {''ALS'', ''PARAMEDIC''})
       (attendant_pool_v1 cols roster)"
    unfolding attendant_als_pool_v1_def
    by (rule filter_cong [OF refl]) (simp add: attendant_pool_v1_def als)
  have 6: "driver_pool_v1 allow cols ops_rows roster s =
     filter (\<lambda>p. (active_col cols \<longrightarrow> rp_active p = None \<or> rp_active p = Some 1) \<and>
                 (\<exists>r\<in>set ops_rows. Some (po_unit_id r) = unit_v1 s \<and> po_person_id r = rp_pid p) \<and>
                 (allow \<or> cert_col cols \<and>
                    upper (strip (or_empty (rp_cert p))) \<in> {''EMT'', ''AEMT'', ''ALS'', ''PARAMEDIC''}))
       roster"
    unfolding driver_pool_v1_def Let_def ops act emt by (cases allow) simp_all
  show ?thesis
    unfolding effective_unit_cases [symmetric] unit_v1_cases [symmetric]
    by (intro conjI 1 2 3 4 5 6)
qed

theorem C8_pools_witness:
  "map person_id (ev_att_pool (evaluate False ''AMB120'' ex_ops_wide ex_people ex_shift)) = [''P1'', ''P2'']
   \<and> map person_id (ev_att_als_pool (evaluate False ''AMB120'' ex_ops_wide ex_people ex_shift)) = [''P2'']
   \<and> map person_id (ev_drv_pool (evaluate False ''AMB120'' ex_ops_wide ex_people ex_shift)) = [''P1'', ''P2'']
   \<and> map person_id (ev_drv_pool (evaluate True ''AMB120'' ex_ops_wide ex_people ex_shift)) = [''P1'', ''P2'', ''P4'']
   \<and> map person_id (ev_drv_pool (evaluate True ''AMB120'' ex_ops_wide ex_people ex_shift_override)) = [''P1'']
   \<and> map person_id (ev_drv_pool (evaluate True ''AMB121'' ex_ops_wide ex_people ex_shift_default)) = [''P1'', ''P2'', ''P4'']
   \<and> map person_id (ev_drv_pool (evaluate True ''AMB120'' ex_ops_wide ex_people ex_shift_default)) = [''P1'']
   \<and> map rp_pid (attendant_pool_v1 ex_cols ex_roster) = [''P1'', ''P5'']
   \<and> map rp_pid (attendant_als_pool_v1 ex_cols ex_roster) = [''P5'']
   \<and> map rp_pid (driver_pool_v1 True ex_cols ex_ops_wide ex_roster ex_shift) = [''P1'', ''P2'', ''P4'']
   \<and> map rp_pid (driver_pool_v1 False ex_cols ex_ops_wide ex_roster ex_shift) = [''P1'']
   \<and> map rp_pid (driver_pool_v1 True ex_cols ex_ops_wide ex_roster ex_shift_override) = [''P1'']
   \<and> map rp_pid (driver_pool_v1 True ex_cols ex_ops_wide ex_roster ex_shift_default) = []"
proof -
  let ?U = "\<lambda>wd s. (case sv_first_out_override_unit_id s of
                        Some (c # cs) \<Rightarrow> c # cs
                      | _ \<Rightarrow> (case sv_staffed_unit_id s of Some (c # cs) \<Rightarrow> c # cs | _ \<Rightarrow> wd))"
  let ?V = "\<lambda>s. (case sv_first_out_override_unit_id s of
                        Some (c # cs) \<Rightarrow> Some (c # cs)
                      | _ \<Rightarrow> sv_staffed_unit_id s)"
  let ?att = "\<lambda>p. active p = 1 \<and> willing_attend p = 1 \<and>
                 norm_cert (medical_cert p) \<in> {''EMT'', ''AEMT'', ''ALS'', ''PARAMEDIC'', ''MEDIC''}"
  let ?drv = "\<lambda>allow u p. active p = 1 \<and>
                 (\<exists>r\<in>set ex_ops_wide. can_operate r = 1 \<and> po_unit_id r = u
                     \<and> po_person_id r = person_id p) \<and>
                 (allow \<or> norm_cert (medical_cert p) \<in> {''EMT'', ''AEMT'', ''ALS'', ''PARAMEDIC'', ''MEDIC''})"
  let ?act1 = "\<lambda>p. active_col ex_cols \<longrightarrow> rp_active p = None \<or> rp_active p = Some 1"
  let ?drv1 = "\<lambda>allow u p. ?act1 p \<and>
                 (\<exists>r\<in>set ex_ops_wide. Some (po_unit_id r) = u \<and> po_person_id r = rp_pid p) \<and>
                 (allow \<or> cert_col ex_cols \<and>
                    upper (strip (or_empty (rp_cert p))) \<in> {''EMT'', ''AEMT'', ''ALS'', ''PARAMEDIC''})"
  have u1: "?U ''AMB120'' ex_shift = ''AMB121''"
    by (simp add: ex_shift_def)
  have u2: "?U ''AMB120'' ex_shift_override = ''AMB131''"
    by (simp add: ex_shift_override_def ex_shift_def)
  have u3: "?U ''AMB121'' ex_shift_default = ''AMB121''"
    by (simp add: ex_shift_default_def ex_shift_def)
  have u4: "?U ''AMB120'' ex_shift_default = ''AMB120''"
    by (simp add: ex_shift_default_def ex_shift_def)
  have v1: "?V ex_shift = Some ''AMB121''"
    by (simp add: ex_shift_def)
  have v2: "?V ex_shift_override = Some ''AMB131''"
    by (simp add: ex_shift_override_def ex_shift_def)
  have v3: "?V ex_shift_default = None"
    by (simp add: ex_shift_default_def ex_shift_def)
  note F1 = C8_pools [of False "''AMB120''" ex_ops_wide ex_people ex_shift ex_cols ex_roster, unfolded u1 v1]
  note T1 = C8_pools [of True "''AMB120''" ex_ops_wide ex_people ex_shift ex_cols ex_roster, unfolded u1 v1]
  note T2 = C8_pools [of True "''AMB120''" ex_ops_wide ex_people ex_shift_override ex_cols ex_roster, unfolded u2 v2]
  note T3 = C8_pools [of True "''AMB121''" ex_ops_wide ex_people ex_shift_default ex_cols ex_roster, unfolded u3 v3]
  note T4 = C8_pools [of True "''AMB120''" ex_ops_wide ex_people ex_shift_default ex_cols ex_roster, unfolded u4 v3]
  have a: "map person_id (filter ?att ex_people) = [''P1'', ''P2'']"
    by code_simp
  have b: "map person_id (filter (\<lambda>p. norm_cert (medical_cert p) \<in> {''ALS'', ''PARAMEDIC'', ''MEDIC''})
             (ev_att_pool (evaluate False ''AMB120'' ex_ops_wide ex_people ex_shift))) = [''P2'']"
    by code_simp
  have c: "map person_id (filter (?drv False ''AMB121'') ex_people) = [''P1'', ''P2'']"
    by code_simp
  have d: "map person_id (filter (?drv True ''AMB121'') ex_people) = [''P1'', ''P2'', ''P4'']"
    by code_simp
  have e: "map person_id (filter (?drv True ''AMB131'') ex_people) = [''P1'']"
    by code_simp
  have f: "map person_id (filter (?drv True ''AMB120'') ex_people) = [''P1'']"
    by code_simp
  have g: "map rp_pid (filter (\<lambda>p. ?act1 p \<and>
                 (wta_col ex_cols \<longrightarrow> rp_wta p = None \<or> rp_wta p = Some 1) \<and>
                 cert_col ex_cols \<and>
                 upper (strip (or_empty (rp_cert p))) \<in> {''EMT'', ''AEMT'', ''ALS'', ''PARAMEDIC''}) ex_roster)
           = [''P1'', ''P5'']"
    by code_simp
  have h: "map rp_pid (filter (\<lambda>p. upper (strip (or_empty (rp_cert p))) \<in> {''ALS'', ''PARAMEDIC''})
             (attendant_pool_v1 ex_cols ex_roster)) = [''P5'']"
    by code_simp
  have i: "map rp_pid (filter (?drv1 True (Some ''AMB121'')) ex_roster) = [''P1'', ''P2'', ''P4'']"
    by code_simp
  have j: "map rp_pid (filter (?drv1 False (Some ''AMB121'')) ex_roster) = [''P1'']"
    by code_simp
  have k: "map rp_pid (filter (?drv1 True (Some ''AMB131'')) ex_roster) = [''P1'']"
    by code_simp
  have l: "map rp_pid (filter (?drv1 True None) ex_roster) = []"
    by code_simp
  show ?thesis
    apply (intro conjI)
    subgoal unfolding F1 [THEN conjunct1] by (rule a)
    subgoal unfolding F1 [THEN conjunct2, THEN conjunct1] by (rule b)
    subgoal unfolding F1 [THEN conjunct2, THEN conjunct2, THEN conjunct1] by (rule c)
    subgoal unfolding T1 [THEN conjunct2, THEN conjunct2, THEN conjunct1] by (rule d)
    subgoal unfolding T2 [THEN conjunct2, THEN conjunct2, THEN conjunct1] by (rule e)
    subgoal unfolding T3 [THEN conjunct2, THEN conjunct2, THEN conjunct1] by (rule d)
    subgoal unfolding T4 [THEN conjunct2, THEN conjunct2, THEN conjunct1] by (rule f)
    subgoal unfolding T1 [THEN conjunct2, THEN conjunct2, THEN conjunct2, THEN conjunct1] by (rule g)
    subgoal unfolding T1 [THEN conjunct2, THEN conjunct2, THEN conjunct2, THEN conjunct2, THEN conjunct1] by (rule h)
    subgoal unfolding T1 [THEN conjunct2, THEN conjunct2, THEN conjunct2, THEN conjunct2, THEN conjunct2] by (rule i)
    subgoal unfolding F1 [THEN conjunct2, THEN conjunct2, THEN conjunct2, THEN conjunct2, THEN conjunct2] by (rule j)
    subgoal unfolding T2 [THEN conjunct2, THEN conjunct2, THEN conjunct2, THEN conjunct2, THEN conjunct2] by (rule k)
    subgoal unfolding T3 [THEN conjunct2, THEN conjunct2, THEN conjunct2, THEN conjunct2, THEN conjunct2] by (rule l)
    done
qed

text \<open>
  C9, as stated, fails: with one EMT attendant and no driver candidate the shift is RED, no
  attendant is ALS-capable and the attendant pool has exactly one candidate, yet the only reason
  reported is the missing driver.
\<close>

theorem C9_reasons_counterexample:
  "ev_status (evaluate False ''AMB120'' [] ex_people_emt ex_shift) = RED
   \<and> length (ev_att_pool (evaluate False ''AMB120'' [] ex_people_emt ex_shift)) = 1
   \<and> ev_att_als_pool (evaluate False ''AMB120'' [] ex_people_emt ex_shift) = []
   \<and> ev_drv_pool (evaluate False ''AMB120'' [] ex_people_emt ex_shift) = []
   \<and> ev_reasons (evaluate False ''AMB120'' [] ex_people_emt ex_shift)
       = [''No driver candidates with AMB121_ops'']"
  by code_simp

text \<open>
  C9, amended. The reasons list holds the no-attendant entry exactly when the attendant pool
  is empty and the no-driver entry exactly when the driver pool is empty, both when both
  hold. When both pools are non-empty it holds the no-ALS entry exactly when no attendant is
  ALS-capable. The fragile entry is reported exactly when the status would otherwise be GREEN
  (both pools non-empty, an ALS-capable attendant) and a pool has exactly one candidate.
\<close>

theorem C9_reasons:
  "(''No attendant candidates'' \<in> set (ev_reasons (evaluate allow wd ops_rows people s))
      \<longleftrightarrow> ev_att_pool (evaluate allow wd ops_rows people s) = [])
   \<and> (''No driver candidates with '' @ effective_unit wd s @ ''_ops''
         \<in> set (ev_reasons (evaluate allow wd ops_rows people s))
      \<longleftrightarrow> ev_drv_pool (evaluate allow wd ops_rows people s) = [])
   \<and> (ev_att_pool (evaluate allow wd ops_rows people s) \<noteq> [] \<and>
       ev_drv_pool (evaluate allow wd ops_rows people s) \<noteq> [] \<longrightarrow>
        (''No ALS available for attendant'' \<in> set (ev_reasons (evaluate allow wd ops_rows people s))
         \<longleftrightarrow> ev_att_als_pool (evaluate allow wd ops_rows people s) = []))
   \<and> (''Fragile: only 1 candidate in a pool'' \<in> set (ev_reasons (evaluate allow wd ops_rows people s))
      \<longleftrightarrow> ev_att_pool (evaluate allow wd ops_rows people s) \<noteq> [] \<and>
          ev_drv_pool (evaluate allow wd ops_rows people s) \<noteq> [] \<and>
          ev_att_als_pool (evaluate allow wd ops_rows people s) \<noteq> [] \<and>
          (length (ev_att_pool (evaluate allow wd ops_rows people s)) = 1 \<or>
           length (ev_drv_pool (evaluate allow wd ops_rows people s)) = 1))"
  apply (intro conjI impI)
  subgoal by (simp add: evaluate_def Let_def)
  subgoal by (simp add: evaluate_def Let_def)
  subgoal by (simp add: evaluate_def Let_def)
  subgoal by (auto simp: evaluate_def Let_def le_Suc_eq)
  done


theorem C9_reasons_witness:
  "ev_att_pool (evaluate False ''AMB120'' ex_ops ex_people_emt ex_shift) \<noteq> []
   \<and> ev_drv_pool (evaluate False ''AMB120'' ex_ops ex_people_emt ex_shift) \<noteq> []
   \<and> ev_att_als_pool (evaluate False ''AMB120'' ex_ops ex_people_emt ex_shift) = []
   \<and> ''No ALS available for attendant'' \<in> set (ev_reasons (evaluate False ''AMB120'' ex_ops ex_people_emt ex_shift))
   \<and> ''Fragile: only 1 candidate in a pool'' \<notin> set (ev_reasons (evaluate False ''AMB120'' ex_ops ex_people_emt ex_shift))"
proof -
  have h: "ev_att_pool (evaluate False ''AMB120'' ex_ops ex_people_emt ex_shift) \<noteq> []
     \<and> ev_drv_pool (evaluate False ''AMB120'' ex_ops ex_people_emt ex_shift) \<noteq> []
     \<and> ev_att_als_pool (evaluate False ''AMB120'' ex_ops ex_people_emt ex_shift) = []"
    by code_simp
  show ?thesis
    using C9_reasons [of False "''AMB120''" ex_ops ex_people_emt ex_shift] h
    by blast
qed
section \<open>Decimal numerals are injective\<close>

lemma digit_inj: "a < 10 \<Longrightarrow> b < 10 \<Longrightarrow> digit a = digit b \<Longrightarrow> a = b"
  by (simp add: digit_def char_of_eq_iff take_bit_eq_mod)

lemma str_nat_nonempty: "str_nat n \<noteq> []"
  by (subst str_nat.simps) simp

lemma str_nat_single: "n < 10 \<Longrightarrow> str_nat n = [digit n]"
  by (subst str_nat.simps) simp

lemma str_nat_step: "\<not> n < 10 \<Longrightarrow> str_nat n = str_nat (n div 10) @ [digit (n mod 10)]"
  by (subst str_nat.simps) simp

lemma str_nat_inj: "str_nat n = str_nat m \<Longrightarrow> n = m"
proof (induction n arbitrary: m rule: less_induct)
  case (less n)
  show ?case
  proof (cases "n < 10")
    case True
    show ?thesis
    proof (cases "m < 10")
      case m: True
      with True less.prems show ?thesis by (simp add: str_nat_single digit_inj)
    next
      case m: False
      with True less.prems show ?thesis
        using str_nat_nonempty [of "m div 10"] by (simp add: str_nat_single str_nat_step)
    qed
  next
    case False
    show ?thesis
    proof (cases "m < 10")
      case m: True
      with False less.prems show ?thesis
        using str_nat_nonempty [of "n div 10"] by (simp add: str_nat_single str_nat_step)
    next
      case m: False
      from False m less.prems have e: "str_nat (n div 10) = str_nat (m div 10)"
        and d: "digit (n mod 10) = digit (m mod 10)"
        by (simp_all add: str_nat_step)
      from False have "n div 10 < n" by simp
      from less.IH [OF this e] have "n div 10 = m div 10" .
      moreover from d have "n mod 10 = m mod 10" by (intro digit_inj) simp_all
      ultimately show ?thesis by (metis div_mult_mod_eq)
    qed
  qed
qed


section \<open>Properties of the rotation\<close>

lemma fold_set_staffed:
  "fold (set_staffed t) sids cs =
     map (\<lambda>c. if cfg_shift_id c \<in> set sids then c\<lparr>staffed_unit_id := Some t\<rparr> else c) cs"
proof (induction sids arbitrary: cs)
  case Nil
  show ?case by simp
next
  case (Cons sid sids)
  have "fold (set_staffed t) (sid # sids) cs = fold (set_staffed t) sids (set_staffed t sid cs)"
    by simp
  also have "\<dots> = map (\<lambda>c. if cfg_shift_id c \<in> set sids then c\<lparr>staffed_unit_id := Some t\<rparr> else c)
                      (set_staffed t sid cs)"
    by (rule Cons.IH)
  also have "\<dots> = map (\<lambda>c. if cfg_shift_id c \<in> set (sid # sids) then c\<lparr>staffed_unit_id := Some t\<rparr> else c) cs"
    by (auto simp: set_staffed_def)
  finally show ?case .
qed

lemma isoformat_2025_12_04: "isoformat 739589 = ''2025-12-04''"
  by code_simp

lemma isoformat_2025_12_10: "isoformat 739595 = ''2025-12-10''"
  by code_simp

text \<open>
  C3. For a week whose dates are representable, \<open>apply_tow\<close> returns. The week is the one
  whose id is \<open>WEEK_<start>_to_<start + 6 days>\<close>. In the new state the week rows are those
  of before, the rows of that week with the unit as default first-out unit; the config rows
  are those of before, the rows of the shifts of that week with the unit as staffed unit.
  So no row is added or removed, the override column of every config row is as before, and
  the shifts and every seat record are as before.
\<close>

theorem C3_apply_tow:
  assumes "date_ok (start + 6)"
  shows "\<exists>d'. apply_tow start tow d = Inr d' \<and>
     sc_weeks d' =
       map (\<lambda>w. if week_id w = ''WEEK_'' @ isoformat start @ ''_to_'' @ isoformat (start + 6)
                 then w\<lparr>first_out_default_unit_id := tow\<rparr> else w) (sc_weeks d) \<and>
     sc_shift_config d' =
       map (\<lambda>c. if \<exists>s\<in>set (sc_shifts d).
                      shift_week_id s = ''WEEK_'' @ isoformat start @ ''_to_'' @ isoformat (start + 6) \<and>
                      shift_id s = cfg_shift_id c
                 then c\<lparr>staffed_unit_id := Some tow\<rparr> else c) (sc_shift_config d) \<and>
     map week_id (sc_weeks d') = map week_id (sc_weeks d) \<and>
     (\<forall>w\<in>set (sc_weeks d').
        week_id w = ''WEEK_'' @ isoformat start @ ''_to_'' @ isoformat (start + 6) \<longrightarrow>
        first_out_default_unit_id w = tow) \<and>
     map cfg_shift_id (sc_shift_config d') = map cfg_shift_id (sc_shift_config d) \<and>
     (\<forall>c\<in>set (sc_shift_config d').
        (\<exists>s\<in>set (sc_shifts d).
            shift_week_id s = ''WEEK_'' @ isoformat start @ ''_to_'' @ isoformat (start + 6) \<and>
            shift_id s = cfg_shift_id c) \<longrightarrow>
        staffed_unit_id c = Some tow) \<and>
     map first_out_override_unit_id (sc_shift_config d') = map first_out_override_unit_id (sc_shift_config d) \<and>
     sc_shifts d' = sc_shifts d \<and>
     sc_seat_records d' = sc_seat_records d"
  using assms
  by (force simp: apply_tow_def week_id_for_def Let_def fold_set_staffed comp_def image_iff
        intro!: map_cong)

theorem C3_apply_tow_witness:
  "apply_tow 739589 ''AMB120'' ex_db =
     Inr (ex_db
       \<lparr>sc_weeks :=
          [\<lparr>week_id = ''WEEK_2025-12-04_to_2025-12-10'', start_date = ''2025-12-04'',
            end_date = ''2025-12-10'', lock_dt = ''2025-11-06 00:00:00'',
            first_out_default_unit_id = ''AMB120'', week_status = ''DRAFT''\<rparr>],
        sc_shift_config :=
          [\<lparr>cfg_shift_id = ''WEEK_2025-12-04_to_2025-12-10__D0__DAY'',
            first_out_override_unit_id = Some ''AMB131'', staffed_unit_id = Some ''AMB120'',
            is_salary_only = 0, cfg_active = 1\<rparr>]\<rparr>)
   \<and> map first_out_default_unit_id (sc_weeks ex_db) = [''AMB121'']
   \<and> map staffed_unit_id (sc_shift_config ex_db) = [Some ''AMB121'']
   \<and> (\<exists>d'. apply_tow 739589 ''AMB120'' ex_db_two_weeks = Inr d' \<and>
         map (\<lambda>w. (week_id w, first_out_default_unit_id w)) (sc_weeks d') =
           [(''WEEK_2025-12-04_to_2025-12-10'', ''AMB120''),
            (''WEEK_2025-12-11_to_2025-12-17'', ''AMB131'')] \<and>
         map (\<lambda>c. (cfg_shift_id c, first_out_override_unit_id c, staffed_unit_id c)) (sc_shift_config d') =
           [(''WEEK_2025-12-04_to_2025-12-10__D0__DAY'', Some ''AMB131'', Some ''AMB120''),
            (''WEEK_2025-12-11_to_2025-12-17__D0__DAY'', None, Some ''AMB131'')] \<and>
         sc_shifts d' = sc_shifts ex_db_two_weeks \<and>
         sc_seat_records d' = sc_seat_records ex_db_two_weeks)"
proof -
  have h: "date_ok (739589 + 6)"
    by (simp add: date_ok_def MINORD_def MAXORD_def)
  have wid: "''WEEK_'' @ isoformat 739589 @ ''_to_'' @ isoformat (739589 + 6) = ''WEEK_2025-12-04_to_2025-12-10''"
    by (simp add: isoformat_2025_12_04 isoformat_2025_12_10)
  from C3_apply_tow [OF h, of "''AMB120''" ex_db] obtain d1 where
    r1: "apply_tow 739589 ''AMB120'' ex_db = Inr d1"
    and w1: "sc_weeks d1 =
       map (\<lambda>w. if week_id w = ''WEEK_'' @ isoformat 739589 @ ''_to_'' @ isoformat (739589 + 6)
                 then w\<lparr>first_out_default_unit_id := ''AMB120''\<rparr> else w) (sc_weeks ex_db)"
    and c1: "sc_shift_config d1 =
       map (\<lambda>c. if \<exists>s\<in>set (sc_shifts ex_db).
                      shift_week_id s = ''WEEK_'' @ isoformat 739589 @ ''_to_'' @ isoformat (739589 + 6) \<and>
                      shift_id s = cfg_shift_id c
                 then c\<lparr>staffed_unit_id := Some ''AMB120''\<rparr> else c) (sc_shift_config ex_db)"
    and s1: "sc_shifts d1 = sc_shifts ex_db"
    and t1: "sc_seat_records d1 = sc_seat_records ex_db"
    by blast
  have d1: "d1 = ex_db
       \<lparr>sc_weeks :=
          [\<lparr>week_id = ''WEEK_2025-12-04_to_2025-12-10'', start_date = ''2025-12-04'',
            end_date = ''2025-12-10'', lock_dt = ''2025-11-06 00:00:00'',
            first_out_default_unit_id = ''AMB120'', week_status = ''DRAFT''\<rparr>],
        sc_shift_config :=
          [\<lparr>cfg_shift_id = ''WEEK_2025-12-04_to_2025-12-10__D0__DAY'',
            first_out_override_unit_id = Some ''AMB131'', staffed_unit_id = Some ''AMB120'',
            is_salary_only = 0, cfg_active = 1\<rparr>]\<rparr>"
    using w1 c1 s1 t1 unfolding wid by (cases d1) (simp add: ex_db_def)
  have A: "apply_tow 739589 ''AMB120'' ex_db =
     Inr (ex_db
       \<lparr>sc_weeks :=
          [\<lparr>week_id = ''WEEK_2025-12-04_to_2025-12-10'', start_date = ''2025-12-04'',
            end_date = ''2025-12-10'', lock_dt = ''2025-11-06 00:00:00'',
            first_out_default_unit_id = ''AMB120'', week_status = ''DRAFT''\<rparr>],
        sc_shift_config :=
          [\<lparr>cfg_shift_id = ''WEEK_2025-12-04_to_2025-12-10__D0__DAY'',
            first_out_override_unit_id = Some ''AMB131'', staffed_unit_id = Some ''AMB120'',
            is_salary_only = 0, cfg_active = 1\<rparr>]\<rparr>)"
    unfolding r1 d1 by (rule refl)
  have B: "map first_out_default_unit_id (sc_weeks ex_db) = [''AMB121'']"
    by (simp add: ex_db_def)
  have C: "map staffed_unit_id (sc_shift_config ex_db) = [Some ''AMB121'']"
    by (simp add: ex_db_def)
  from C3_apply_tow [OF h, of "''AMB120''" ex_db_two_weeks] obtain d2 where
    r2: "apply_tow 739589 ''AMB120'' ex_db_two_weeks = Inr d2"
    and w2: "sc_weeks d2 =
       map (\<lambda>w. if week_id w = ''WEEK_'' @ isoformat 739589 @ ''_to_'' @ isoformat (739589 + 6)
                 then w\<lparr>first_out_default_unit_id := ''AMB120''\<rparr> else w) (sc_weeks ex_db_two_weeks)"
    and c2: "sc_shift_config d2 =
       map (\<lambda>c. if \<exists>s\<in>set (sc_shifts ex_db_two_weeks).
                      shift_week_id s = ''WEEK_'' @ isoformat 739589 @ ''_to_'' @ isoformat (739589 + 6) \<and>
                      shift_id s = cfg_shift_id c
                 then c\<lparr>staffed_unit_id := Some ''AMB120''\<rparr> else c) (sc_shift_config ex_db_two_weeks)"
    and s2: "sc_shifts d2 = sc_shifts ex_db_two_weeks"
    and t2: "sc_seat_records d2 = sc_seat_records ex_db_two_weeks"
    by blast
  have w2': "map (\<lambda>w. (week_id w, first_out_default_unit_id w)) (sc_weeks d2) =
           [(''WEEK_2025-12-04_to_2025-12-10'', ''AMB120''),
            (''WEEK_2025-12-11_to_2025-12-17'', ''AMB131'')]"
    unfolding w2 wid by (simp add: ex_db_two_weeks_def ex_db_def)
  have c2': "map (\<lambda>c. (cfg_shift_id c, first_out_override_unit_id c, staffed_unit_id c)) (sc_shift_config d2) =
           [(''WEEK_2025-12-04_to_2025-12-10__D0__DAY'', Some ''AMB131'', Some ''AMB120''),
            (''WEEK_2025-12-11_to_2025-12-17__D0__DAY'', None, Some ''AMB131'')]"
    unfolding c2 wid by (simp add: ex_db_two_weeks_def ex_db_def)
  have D: "\<exists>d'. apply_tow 739589 ''AMB120'' ex_db_two_weeks = Inr d' \<and>
         map (\<lambda>w. (week_id w, first_out_default_unit_id w)) (sc_weeks d') =
           [(''WEEK_2025-12-04_to_2025-12-10'', ''AMB120''),
            (''WEEK_2025-12-11_to_2025-12-17'', ''AMB131'')] \<and>
         map (\<lambda>c. (cfg_shift_id c, first_out_override_unit_id c, staffed_unit_id c)) (sc_shift_config d') =
           [(''WEEK_2025-12-04_to_2025-12-10__D0__DAY'', Some ''AMB131'', Some ''AMB120''),
            (''WEEK_2025-12-11_to_2025-12-17__D0__DAY'', None, Some ''AMB131'')] \<and>
         sc_shifts d' = sc_shifts ex_db_two_weeks \<and>
         sc_seat_records d' = sc_seat_records ex_db_two_weeks"
    by (rule exI [of _ d2]) (intro conjI r2 w2' c2' s2 t2)
  from A B C D show ?thesis by (intro conjI)
qed

section \<open>Properties of the week generators: the lock timestamp\<close>

lemma create_seats_rows:
  assumes "inj_on uuid4 {k..<k + length us}"
    and "\<forall>j\<in>{k..<k + length us}. Some (uuid4 j) \<notin> seat_record_id ` set ss"
  shows "create_seats uuid4 sid fo us k ss = Inr (k + length us, ss @ v1_seat_rows uuid4 sid fo us k)"
  using assms
proof (induction us arbitrary: k ss)
  case Nil
  show ?case by simp
next
  case (Cons p us)
  obtain unit seat where p: "p = (unit, seat)" by (cases p)
  let ?r = "v1_seat (uuid4 k) sid unit seat (if unit = fo then ''PRIMARY'' else ''SHADOW'')"
  have rid: "seat_record_id ?r = Some (uuid4 k)" by (simp add: v1_seat_def)
  from Cons.prems(2) have "Some (uuid4 k) \<notin> seat_record_id ` set ss" by simp
  then have ins: "insert_seat ?r ss = Inr (ss @ [?r])"
    by (auto simp: insert_seat_def rid image_iff)
  have inj': "inj_on uuid4 {Suc k..<Suc k + length us}"
    using Cons.prems(1) by (rule inj_on_subset) auto
  have fresh': "\<forall>j\<in>{Suc k..<Suc k + length us}. Some (uuid4 j) \<notin> seat_record_id ` set (ss @ [?r])"
  proof
    fix j assume j: "j \<in> {Suc k..<Suc k + length us}"
    then have "Some (uuid4 j) \<notin> seat_record_id ` set ss" using Cons.prems(2) by simp
    moreover have "uuid4 j \<noteq> uuid4 k"
      using inj_onD [OF Cons.prems(1), of j k] j by auto
    ultimately show "Some (uuid4 j) \<notin> seat_record_id ` set (ss @ [?r])"
      by (simp add: rid)
  qed
  from Cons.IH [OF inj' fresh']
  have "create_seats uuid4 sid fo us (Suc k) (ss @ [?r]) =
      Inr (Suc k + length us, (ss @ [?r]) @ v1_seat_rows uuid4 sid fo us (Suc k))" .
  then show ?case by (simp add: p ins)
qed

lemma v1_seat_rows_ids:
  "seat_record_id ` set (v1_seat_rows uuid4 sid fo us k) = (\<lambda>j. Some (uuid4 j)) ` {k..<k + length us}"
proof (induction us arbitrary: k)
  case Nil
  show ?case by simp
next
  case (Cons p us)
  obtain unit seat where p: "p = (unit, seat)" by (cases p)
  have "{k..<k + length (p # us)} = insert k {Suc k..<Suc k + length us}" by auto
  then show ?case by (simp add: p Cons.IH v1_seat_def)
qed

lemma length_unit_seat_pairs: "length (unit_seat_pairs units) = 2 * length units"
  by (induction units) (simp_all add: unit_seat_pairs_def SEATS_def)

lemma create_shifts_rows:
  assumes "fresh_uuids uuid4 k (length tuples * (1 + 2 * length units)) d"
  shows "create_shifts uuid4 units wid fo tuples k d =
           Inr (k + length tuples * (1 + 2 * length units),
                d\<lparr>sc_shifts := sc_shifts d @ map fst (v1_rows uuid4 units wid fo tuples k),
                  sc_shift_config := sc_shift_config d @ map (fst \<circ> snd) (v1_rows uuid4 units wid fo tuples k),
                  sc_seat_records := sc_seat_records d @
                     concat (map (snd \<circ> snd) (v1_rows uuid4 units wid fo tuples k))\<rparr>)"
  using assms
proof (induction tuples arbitrary: k d)
  case Nil
  show ?case by simp
next
  case (Cons t tuples)
  let ?n = "2 * length units"
  let ?N = "length tuples * (1 + ?n)"
  let ?pairs = "unit_seat_pairs units"
  have lp: "length ?pairs = ?n" by (rule length_unit_seat_pairs)
  let ?sid = "uuid4 k"
  let ?row = "v1_shift ?sid wid t"
  have rowid: "shift_id ?row = ?sid" by (cases t) (simp add: v1_shift_def)
  have eq: "k + length (t # tuples) * (1 + ?n) = k + (1 + ?n) + ?N" by simp
  from Cons.prems [unfolded fresh_uuids_def eq] have inj: "inj_on uuid4 {k..<k + (1 + ?n) + ?N}"
    and fr: "\<forall>j\<in>{k..<k + (1 + ?n) + ?N}.
         uuid4 j \<notin> shift_id ` set (sc_shifts d) \<and>
         uuid4 j \<notin> cfg_shift_id ` set (sc_shift_config d) \<and>
         Some (uuid4 j) \<notin> seat_record_id ` set (sc_seat_records d)"
    by blast+
  have kin: "k \<in> {k..<k + (1 + ?n) + ?N}" by simp
  from fr kin have frk: "uuid4 k \<notin> shift_id ` set (sc_shifts d)"
      "uuid4 k \<notin> cfg_shift_id ` set (sc_shift_config d)"
    by blast+
  from frk have is1: "insert_shift ?row (sc_shifts d) = Inr (sc_shifts d @ [?row])"
    by (auto simp: insert_shift_def image_iff rowid)
  from frk have ic1: "insert_cfg (v1_cfg ?sid fo) (sc_shift_config d) = Inr (sc_shift_config d @ [v1_cfg ?sid fo])"
    by (auto simp: insert_cfg_def image_iff v1_cfg_def)
  have inj_s: "inj_on uuid4 {Suc k..<Suc k + length ?pairs}"
    using inj by (rule inj_on_subset) (auto simp: lp)
  have fr_s: "\<forall>j\<in>{Suc k..<Suc k + length ?pairs}. Some (uuid4 j) \<notin> seat_record_id ` set (sc_seat_records d)"
    using fr by (auto simp: lp)
  let ?new = "v1_seat_rows uuid4 ?sid fo ?pairs (Suc k)"
  have cs: "create_seats uuid4 ?sid fo ?pairs (Suc k) (sc_seat_records d) =
      Inr (Suc k + ?n, sc_seat_records d @ ?new)"
    using create_seats_rows [OF inj_s fr_s, of ?sid fo] by (simp add: lp)
  let ?d1 = "d\<lparr>sc_shifts := sc_shifts d @ [?row], sc_shift_config := sc_shift_config d @ [v1_cfg ?sid fo],
               sc_seat_records := sc_seat_records d @ ?new\<rparr>"
  have fresh1: "fresh_uuids uuid4 (Suc k + ?n) ?N ?d1"
    unfolding fresh_uuids_def
  proof (intro conjI ballI)
    show "inj_on uuid4 {Suc k + ?n..<Suc k + ?n + ?N}"
      using inj by (rule inj_on_subset) auto
  next
    fix j assume j: "j \<in> {Suc k + ?n..<Suc k + ?n + ?N}"
    then have jin: "j \<in> {k..<k + (1 + ?n) + ?N}" by auto
    have ne: "uuid4 j \<noteq> uuid4 k"
      using inj_onD [OF inj, of j k] jin kin j by auto
    show "uuid4 j \<notin> shift_id ` set (sc_shifts ?d1)"
      using fr jin ne by (auto simp: rowid)
    show "uuid4 j \<notin> cfg_shift_id ` set (sc_shift_config ?d1)"
      using fr jin ne by (auto simp: v1_cfg_def)
    show "Some (uuid4 j) \<notin> seat_record_id ` set (sc_seat_records ?d1)"
    proof
      assume "Some (uuid4 j) \<in> seat_record_id ` set (sc_seat_records ?d1)"
      then have "Some (uuid4 j) \<in> seat_record_id ` set (sc_seat_records d)
               \<union> (\<lambda>j. Some (uuid4 j)) ` {Suc k..<Suc k + ?n}"
        by (auto simp: v1_seat_rows_ids lp image_Un)
      then show False
      proof
        assume "Some (uuid4 j) \<in> seat_record_id ` set (sc_seat_records d)"
        with fr jin show False by blast
      next
        assume "Some (uuid4 j) \<in> (\<lambda>j. Some (uuid4 j)) ` {Suc k..<Suc k + ?n}"
        then obtain i where i: "i \<in> {Suc k..<Suc k + ?n}" and e: "uuid4 j = uuid4 i" by auto
        from i have "i \<in> {k..<k + (1 + ?n) + ?N}" by auto
        from inj_onD [OF inj e jin this] i j show False by auto
      qed
    qed
  qed
  note ih = Cons.IH [OF fresh1]
  have "create_shifts uuid4 units wid fo (t # tuples) k d =
        create_shifts uuid4 units wid fo tuples (Suc k + ?n) ?d1"
    unfolding create_shifts.simps Let_def is1 ic1 sum.case cs prod.case by (rule refl)
  also note ih
  finally show ?case by (simp add: lp)
qed

lemma upt7: "[0..<7] = [0, 1, 2, 3, 4, 5, 6]"
  by code_simp

lemma length_week_shift_tuples: "length (week_shift_tuples start) = 14"
  by (simp add: week_shift_tuples_def upt7)

lemma create_week_rows:
  assumes "date_ok (start + 6)" "date_ok (start - lead)" "date_ok (start + 7)"
    and "\<forall>w\<in>set (sc_weeks d). week_id w \<noteq> week_id_for start"
    and "fresh_uuids uuid4 0 (14 * (1 + 2 * length units)) d"
  shows "create_week uuid4 units start fo lead d =
     Inr (week_id_for start,
          \<lparr>sc_weeks = sc_weeks d @ [new_week start lead fo],
           sc_shifts = sc_shifts d @
              map fst (v1_rows uuid4 units (week_id_for start) fo (week_shift_tuples start) 0),
           sc_shift_config = sc_shift_config d @
              map (fst \<circ> snd) (v1_rows uuid4 units (week_id_for start) fo (week_shift_tuples start) 0),
           sc_seat_records = sc_seat_records d @
              concat (map (snd \<circ> snd) (v1_rows uuid4 units (week_id_for start) fo (week_shift_tuples start) 0))\<rparr>)"
proof -
  let ?w = "new_week start lead fo"
  have wid: "week_id ?w = week_id_for start" by (simp add: new_week_def)
  from assms(4) have iw: "insert_week ?w (sc_weeks d) = Inr (sc_weeks d @ [?w])"
    by (auto simp: insert_week_def wid)
  let ?d1 = "d\<lparr>sc_weeks := sc_weeks d @ [?w]\<rparr>"
  have "fresh_uuids uuid4 0 (length (week_shift_tuples start) * (1 + 2 * length units)) ?d1"
    using assms(5) by (simp add: fresh_uuids_def length_week_shift_tuples)
  from create_shifts_rows [OF this, of "week_id_for start" fo]
  show ?thesis
    using assms(1-3) by (simp add: create_week_def iw)
qed

lemma create_week_ok:
  assumes "date_ok (start + 6)" "date_ok (start - lead)" "date_ok (start + 7)"
    and "\<forall>w\<in>set (sc_weeks d). week_id w \<noteq> week_id_for start"
    and "fresh_uuids uuid4 0 (14 * (1 + 2 * length units)) d"
  shows "\<exists>d'. create_week uuid4 units start fo lead d = Inr (week_id_for start, d') \<and>
           sc_weeks d' = sc_weeks d @ [new_week start lead fo]"
  using create_week_rows [OF assms, of fo] by simp

text \<open>
  The seat rows of \<open>create_week\<close> take the entity type from the column default of its own
  schema, \<open>UNASSIGNED\<close>, where \<open>ensure_week\<close> writes \<open>NONE\<close>.
\<close>

lemma v1_seat_rows_defaults:
  "\<forall>r\<in>set (v1_seat_rows uuid4 sid fo us k).
      assigned_entity_type r = Some ''UNASSIGNED'' \<and> health_status r = Some ''UNFILLED'' \<and>
      assigned_person_id r = None \<and> assigned_placeholder_id r = None \<and> seat_note r = None"
  by (induction uuid4 sid fo us k rule: v1_seat_rows.induct) (simp_all add: v1_seat_def)

lemma fresh_uuids_str_nat_empty: "fresh_uuids str_nat k n empty_db"
  by (auto simp: fresh_uuids_def empty_db_def inj_on_def dest: str_nat_inj)

lemma ensure_week_not_exists_ok:
  "\<not> (\<exists>w\<in>set ws. start_date w = sd) \<Longrightarrow> ensure_week_not_exists ws sd = Inr ()"
  by (simp add: ensure_week_not_exists_def find_None_iff split: option.splits)

lemma ensure_week_not_exists_empty: "ensure_week_not_exists (sc_weeks empty_db) sd = Inr ()"
  by (simp add: ensure_week_not_exists_def empty_db_def)

lemma import_ensure_week_ok:
  assumes "date_ok (week_start_thu dd)" "date_ok (week_start_thu dd + 6)" "date_ok (week_start_thu dd - 28)"
    and "\<forall>w\<in>set (sc_weeks d). week_id w \<noteq> week_id_for (week_start_thu dd)"
  shows "\<exists>d'. import_ensure_week dd d = Inr d' \<and>
           sc_weeks d' = sc_weeks d @ [new_week (week_start_thu dd) 28 DEFAULT_UNIT]"
  using assms by (auto simp: import_ensure_week_def Let_def ensure_week_row_def new_week_def)

lemma ensure_week_units_weeks:
  assumes "valid_start start" "\<forall>w\<in>set (sc_weeks d). week_id w \<noteq> week_id_for start"
  shows "\<exists>d'. ensure_week_units units start fo d = Inr d' \<and>
           sc_weeks d' = sc_weeks d @ [new_week start 28 fo]"
  using assms by (auto simp: ensure_week_units_def ensure_week_rows_def Let_def ensure_week_row_def new_week_def)


text \<open>
  C10, as stated, fails on \<open>create_week\<close>: its lead time defaults to 29 days, so the week of
  2025-12-04 created by \<open>create_week.py\<close> locks at 2025-11-05 00:00:00, while the start date
  minus 28 days is 2025-11-06.
\<close>

theorem C10_lock_dt_counterexample:
  "map_sum id (\<lambda>p. map lock_dt (sc_weeks (snd p)))
       (create_week_main str_nat UNITS 739589 ''AMB121'' empty_db) = Inr [''2025-11-05 00:00:00'']
   \<and> strftime_dt (739589 - 28) (0, 0, 0) = ''2025-11-06 00:00:00''"
proof -
  have a: "date_ok (739589 + 6)" "date_ok (739589 - lock_rule_days_default)" "date_ok (739589 + 7)"
    by (simp_all add: date_ok_def MINORD_def MAXORD_def lock_rule_days_default_def)
  have b: "\<forall>w\<in>set (sc_weeks empty_db). week_id w \<noteq> week_id_for 739589"
    by (simp add: empty_db_def)
  from create_week_ok [OF a b fresh_uuids_str_nat_empty, of UNITS "''AMB121''"] obtain d' where
    r: "create_week str_nat UNITS 739589 ''AMB121'' lock_rule_days_default empty_db = Inr (week_id_for 739589, d')"
    and w: "sc_weeks d' = sc_weeks empty_db @ [new_week 739589 lock_rule_days_default ''AMB121'']"
    by blast
  have "strftime_dt 739560 (0, 0, 0) = ''2025-11-05 00:00:00''"
    by code_simp
  then have l: "lock_dt (new_week 739589 lock_rule_days_default ''AMB121'') = ''2025-11-05 00:00:00''"
    by (simp add: new_week_def lock_rule_days_default_def)
  have m: "create_week_main str_nat UNITS 739589 ''AMB121'' empty_db = Inr (week_id_for 739589, d')"
    by (simp add: create_week_main_def ensure_week_not_exists_empty r)
  have n: "strftime_dt 739561 (0, 0, 0) = ''2025-11-06 00:00:00''"
    by code_simp
  show ?thesis
    unfolding m by (simp add: w l n empty_db_def)
qed

text \<open>
  C10, amended. The lock timestamp of a generated week is the start date minus the
  generator's lead time, at 00:00:00: the lead time is fixed at 28 days in \<open>ensure_week\<close>
  (both the generator and the history import, whose start date is the Thursday on or before
  the imported day), and it is the parameter \<open>lock_rule_days\<close>, whose default is 29 days,
  in \<open>create_week\<close>.
\<close>

theorem C10_lock_dt:
  "(valid_start start \<and> (\<forall>w\<in>set (sc_weeks d). week_id w \<noteq> week_id_for start) \<longrightarrow>
      (\<exists>d'. ensure_week_units units start fo d = Inr d' \<and>
            length (sc_weeks d') = Suc (length (sc_weeks d)) \<and>
            week_id (last (sc_weeks d')) = week_id_for start \<and>
            lock_dt (last (sc_weeks d')) = strftime_dt (start - 28) (0, 0, 0)))
   \<and> (date_ok (start + 6) \<and> date_ok (start - lead) \<and> date_ok (start + 7) \<and>
       (\<forall>w\<in>set (sc_weeks d). week_id w \<noteq> week_id_for start) \<and>
       fresh_uuids uuid4 0 (14 * (1 + 2 * length units)) d \<longrightarrow>
      (\<exists>d'. create_week uuid4 units start fo lead d = Inr (week_id_for start, d') \<and>
            length (sc_weeks d') = Suc (length (sc_weeks d)) \<and>
            week_id (last (sc_weeks d')) = week_id_for start \<and>
            lock_dt (last (sc_weeks d')) = strftime_dt (start - lead) (0, 0, 0)))
   \<and> (date_ok (start + 6) \<and> date_ok (start - 29) \<and> date_ok (start + 7) \<and>
       (\<forall>w\<in>set (sc_weeks d). week_id w \<noteq> week_id_for start \<and> start_date w \<noteq> isoformat start) \<and>
       fresh_uuids uuid4 0 (14 * (1 + 2 * length units)) d \<longrightarrow>
      (\<exists>d'. create_week_main uuid4 units start fo d = Inr (week_id_for start, d') \<and>
            length (sc_weeks d') = Suc (length (sc_weeks d)) \<and>
            week_id (last (sc_weeks d')) = week_id_for start \<and>
            lock_dt (last (sc_weeks d')) = strftime_dt (start - 29) (0, 0, 0)))
   \<and> (date_ok (week_start_thu day) \<and> date_ok (week_start_thu day + 6) \<and>
       date_ok (week_start_thu day - 28) \<and>
       (\<forall>w\<in>set (sc_weeks d). week_id w \<noteq> week_id_for (week_start_thu day)) \<longrightarrow>
      (\<exists>d'. import_ensure_week day d = Inr d' \<and>
            length (sc_weeks d') = Suc (length (sc_weeks d)) \<and>
            week_id (last (sc_weeks d')) = week_id_for (week_start_thu day) \<and>
            lock_dt (last (sc_weeks d')) = strftime_dt (week_start_thu day - 28) (0, 0, 0)))"
proof (intro conjI impI)
  assume "valid_start start \<and> (\<forall>w\<in>set (sc_weeks d). week_id w \<noteq> week_id_for start)"
  then obtain d' where "ensure_week_units units start fo d = Inr d'"
    "sc_weeks d' = sc_weeks d @ [new_week start 28 fo]"
    using ensure_week_units_weeks [of start d units fo] by blast
  then show "\<exists>d'. ensure_week_units units start fo d = Inr d' \<and>
            length (sc_weeks d') = Suc (length (sc_weeks d)) \<and>
            week_id (last (sc_weeks d')) = week_id_for start \<and>
            lock_dt (last (sc_weeks d')) = strftime_dt (start - 28) (0, 0, 0)"
    by (simp add: new_week_def)
next
  assume "date_ok (start + 6) \<and> date_ok (start - lead) \<and> date_ok (start + 7) \<and>
       (\<forall>w\<in>set (sc_weeks d). week_id w \<noteq> week_id_for start) \<and>
       fresh_uuids uuid4 0 (14 * (1 + 2 * length units)) d"
  then obtain d' where "create_week uuid4 units start fo lead d = Inr (week_id_for start, d')"
    "sc_weeks d' = sc_weeks d @ [new_week start lead fo]"
    using create_week_ok [of start lead d uuid4 units fo] by blast
  then show "\<exists>d'. create_week uuid4 units start fo lead d = Inr (week_id_for start, d') \<and>
            length (sc_weeks d') = Suc (length (sc_weeks d)) \<and>
            week_id (last (sc_weeks d')) = week_id_for start \<and>
            lock_dt (last (sc_weeks d')) = strftime_dt (start - lead) (0, 0, 0)"
    by (simp add: new_week_def)
next
  assume a: "date_ok (start + 6) \<and> date_ok (start - 29) \<and> date_ok (start + 7) \<and>
       (\<forall>w\<in>set (sc_weeks d). week_id w \<noteq> week_id_for start \<and> start_date w \<noteq> isoformat start) \<and>
       fresh_uuids uuid4 0 (14 * (1 + 2 * length units)) d"
  then obtain d' where r: "create_week uuid4 units start fo 29 d = Inr (week_id_for start, d')"
    and w: "sc_weeks d' = sc_weeks d @ [new_week start 29 fo]"
    using create_week_ok [of start 29 d uuid4 units fo] by blast
  from a have "\<not> (\<exists>w\<in>set (sc_weeks d). start_date w = isoformat start)" by blast
  then have "ensure_week_not_exists (sc_weeks d) (isoformat start) = Inr ()"
    by (rule ensure_week_not_exists_ok)
  then have "create_week_main uuid4 units start fo d = Inr (week_id_for start, d')"
    by (simp add: create_week_main_def lock_rule_days_default_def r)
  with w show "\<exists>d'. create_week_main uuid4 units start fo d = Inr (week_id_for start, d') \<and>
            length (sc_weeks d') = Suc (length (sc_weeks d)) \<and>
            week_id (last (sc_weeks d')) = week_id_for start \<and>
            lock_dt (last (sc_weeks d')) = strftime_dt (start - 29) (0, 0, 0)"
    by (simp add: new_week_def)
next
  assume "date_ok (week_start_thu day) \<and> date_ok (week_start_thu day + 6) \<and>
       date_ok (week_start_thu day - 28) \<and>
       (\<forall>w\<in>set (sc_weeks d). week_id w \<noteq> week_id_for (week_start_thu day))"
  then obtain d' where "import_ensure_week day d = Inr d'"
    "sc_weeks d' = sc_weeks d @ [new_week (week_start_thu day) 28 DEFAULT_UNIT]"
    using import_ensure_week_ok [of day d] by blast
  then show "\<exists>d'. import_ensure_week day d = Inr d' \<and>
            length (sc_weeks d') = Suc (length (sc_weeks d)) \<and>
            week_id (last (sc_weeks d')) = week_id_for (week_start_thu day) \<and>
            lock_dt (last (sc_weeks d')) = strftime_dt (week_start_thu day - 28) (0, 0, 0)"
    by (simp add: new_week_def)
qed

theorem C10_lock_dt_witness:
  "(\<exists>d'. ensure_week_units UNITS 739589 ''AMB121'' empty_db = Inr d' \<and>
         lock_dt (last (sc_weeks d')) = ''2025-11-06 00:00:00'')
   \<and> (\<exists>d'. create_week_main str_nat UNITS 739589 ''AMB121'' empty_db = Inr (week_id_for 739589, d') \<and>
         lock_dt (last (sc_weeks d')) = ''2025-11-05 00:00:00'')
   \<and> (\<exists>d'. import_ensure_week 739591 empty_db = Inr d' \<and>
         lock_dt (last (sc_weeks d')) = ''2025-11-06 00:00:00'')"
proof -
  note T = C10_lock_dt [of 739589 empty_db UNITS "''AMB121''" 29 str_nat 739591]
  have v: "valid_start 739589"
    by (simp add: valid_start_def date_ok_def MINORD_def MAXORD_def)
  have e: "\<forall>w\<in>set (sc_weeks empty_db). week_id w \<noteq> week_id_for 739589"
    "\<forall>w\<in>set (sc_weeks empty_db). week_id w \<noteq> week_id_for 739589 \<and> start_date w \<noteq> isoformat 739589"
    by (simp_all add: empty_db_def)
  have dk: "date_ok (739589 + 6)" "date_ok (739589 - 29)" "date_ok (739589 + 7)" "date_ok (739589 - 28)"
    "date_ok 739589"
    by (simp_all add: date_ok_def MINORD_def MAXORD_def)
  have thu: "week_start_thu 739591 = 739589"
    by (simp add: week_start_thu_def weekday_def)
  have l28: "strftime_dt (739589 - 28) (0, 0, 0) = ''2025-11-06 00:00:00''"
  proof -
    have "strftime_dt 739561 (0, 0, 0) = ''2025-11-06 00:00:00''" by code_simp
    then show ?thesis by simp
  qed
  have l29: "strftime_dt (739589 - 29) (0, 0, 0) = ''2025-11-05 00:00:00''"
  proof -
    have "strftime_dt 739560 (0, 0, 0) = ''2025-11-05 00:00:00''" by code_simp
    then show ?thesis by simp
  qed
  have 1: "\<exists>d'. ensure_week_units UNITS 739589 ''AMB121'' empty_db = Inr d' \<and>
         lock_dt (last (sc_weeks d')) = ''2025-11-06 00:00:00''"
    using T [THEN conjunct1] v e(1) unfolding l28 by blast
  have 2: "\<exists>d'. create_week_main str_nat UNITS 739589 ''AMB121'' empty_db = Inr (week_id_for 739589, d') \<and>
         lock_dt (last (sc_weeks d')) = ''2025-11-05 00:00:00''"
    using T [THEN conjunct2, THEN conjunct2, THEN conjunct1] dk e(2)
      fresh_uuids_str_nat_empty [of 0 "14 * (1 + 2 * length UNITS)"]
    unfolding l29 by blast
  have 3: "\<exists>d'. import_ensure_week 739591 empty_db = Inr d' \<and>
         lock_dt (last (sc_weeks d')) = ''2025-11-06 00:00:00''"
    using T [THEN conjunct2, THEN conjunct2, THEN conjunct2] dk e(1)
    unfolding thu l28 by blast
  show ?thesis using 1 2 3 by blast
qed

section \<open>Properties of the seat reconciliation\<close>

lemma hd_insort_key:
  "hd (insort_key f x ys) = (if ys = [] \<or> f x \<le> f (hd ys) then x else hd ys)"
  by (cases ys) auto

lemma sort_key_nonempty: "xs \<noteq> [] \<Longrightarrow> sort_key f xs \<noteq> []"
  by (metis length_0_conv length_sort)

lemma hd_sort_key_first_min:
  fixes f :: "'a \<Rightarrow> int"
  assumes "xs \<noteq> []"
  shows "\<exists>pre post. xs = pre @ hd (sort_key f xs) # post \<and>
           (\<forall>r\<in>set pre. f (hd (sort_key f xs)) < f r) \<and>
           (\<forall>r\<in>set post. f (hd (sort_key f xs)) \<le> f r)"
  using assms
proof (induction xs)
  case Nil
  then show ?case by simp
next
  case (Cons x xs)
  show ?case
  proof (cases "xs = []")
    case True
    then show ?thesis by (intro exI [of _ "[]"]) simp
  next
    case False
    from Cons.IH [OF False] obtain pre post where
      e: "xs = pre @ hd (sort_key f xs) # post"
      and p: "\<forall>r\<in>set pre. f (hd (sort_key f xs)) < f r"
      and q: "\<forall>r\<in>set post. f (hd (sort_key f xs)) \<le> f r"
      by blast
    let ?w = "hd (sort_key f xs)"
    have ne: "sort_key f xs \<noteq> []" using False by (rule sort_key_nonempty)
    have h: "hd (sort_key f (x # xs)) = (if f x \<le> f ?w then x else ?w)"
      using ne by (simp add: hd_insort_key)
    show ?thesis
    proof (cases "f x \<le> f ?w")
      case True
      have "\<forall>r\<in>set xs. f x \<le> f r"
      proof
        fix r assume "r \<in> set xs"
        then have "r \<in> set pre \<or> r = ?w \<or> r \<in> set post" by (subst (asm) e) auto
        then show "f x \<le> f r" using p q True by fastforce
      qed
      then show ?thesis using True h by (intro exI [of _ "[]"] exI [of _ xs]) simp
    next
      case False
      have "x # xs = (x # pre) @ ?w # post" using e by simp
      moreover have "\<forall>r\<in>set (x # pre). f ?w < f r" using p False by auto
      ultimately show ?thesis using q h False by (metis (full_types))
    qed
  qed
qed

lemma score_nonneg: "0 \<le> score r"
  by (simp add: score_def Let_def)

lemma score_tagged: "tagged r \<Longrightarrow> 1000 \<le> score r"
  by (simp add: score_def Let_def tagged_def)

lemma score_untagged: "\<not> tagged r \<Longrightarrow> score r \<le> 115"
  by (simp add: score_def Let_def tagged_def)


lemma fold_delete_by_id:
  "fold (\<lambda>r t. delete_by_id (seat_record_id r) t) ls tbl =
     filter (\<lambda>x. seat_record_id x = None \<or> seat_record_id x \<notin> seat_record_id ` set ls) tbl"
proof (induction ls arbitrary: tbl)
  case Nil
  show ?case by simp
next
  case (Cons l ls)
  have "fold (\<lambda>r t. delete_by_id (seat_record_id r) t) (l # ls) tbl =
        fold (\<lambda>r t. delete_by_id (seat_record_id r) t) ls (delete_by_id (seat_record_id l) tbl)"
    by simp
  also have "\<dots> = filter (\<lambda>x. seat_record_id x = None \<or> seat_record_id x \<notin> seat_record_id ` set ls)
                      (delete_by_id (seat_record_id l) tbl)"
    by (rule Cons.IH)
  also have "\<dots> = filter (\<lambda>x. seat_record_id x = None \<or> seat_record_id x \<notin> seat_record_id ` set (l # ls)) tbl"
    by (cases "seat_record_id l") (auto simp: delete_by_id_def intro!: filter_cong)
  finally show ?case .
qed

lemma pk_ok_distinct: "pk_ok tbl \<Longrightarrow> distinct tbl"
  by (auto simp: pk_ok_def distinct_map)

lemma pk_ok_filter: "pk_ok tbl \<Longrightarrow> pk_ok (filter P tbl)"
  by (auto simp: pk_ok_def distinct_map_filter)

lemma pk_ok_id_inj:
  "pk_ok tbl \<Longrightarrow> x \<in> set tbl \<Longrightarrow> y \<in> set tbl \<Longrightarrow> seat_record_id x = seat_record_id y \<Longrightarrow> x = y"
  by (auto simp: pk_ok_def distinct_map inj_on_def)

lemma winner_of_props:
  assumes "filter (\<lambda>r. seat_key_of r = g) tbl \<noteq> []"
  shows "\<exists>pre post. filter (\<lambda>r. seat_key_of r = g) tbl = pre @ winner_of tbl g # post \<and>
           (\<forall>r\<in>set pre. score r < score (winner_of tbl g)) \<and>
           (\<forall>r\<in>set post. score r \<le> score (winner_of tbl g))"
  using hd_sort_key_first_min [OF assms, of "\<lambda>r. - score r"]
  unfolding winner_of_def sorted_by_score_def by simp

lemma winner_of_in:
  assumes "filter (\<lambda>r. seat_key_of r = g) tbl \<noteq> []"
  shows "winner_of tbl g \<in> set tbl" "seat_key_of (winner_of tbl g) = g"
proof -
  from winner_of_props [OF assms] obtain pre post where
    e: "filter (\<lambda>r. seat_key_of r = g) tbl = pre @ winner_of tbl g # post" by blast
  then have "winner_of tbl g \<in> set (filter (\<lambda>r. seat_key_of r = g) tbl)" by simp
  then show "winner_of tbl g \<in> set tbl" "seat_key_of (winner_of tbl g) = g" by simp_all
qed

lemma winner_of_max:
  assumes "r \<in> set tbl" "seat_key_of r = g"
  shows "score r \<le> score (winner_of tbl g)"
proof -
  from assms have ne: "filter (\<lambda>r. seat_key_of r = g) tbl \<noteq> []"
    by (auto simp: filter_empty_conv)
  from winner_of_props [OF ne] obtain pre post where
    e: "filter (\<lambda>r. seat_key_of r = g) tbl = pre @ winner_of tbl g # post"
    and p: "\<forall>r\<in>set pre. score r < score (winner_of tbl g)"
    and q: "\<forall>r\<in>set post. score r \<le> score (winner_of tbl g)" by blast
  from assms have "r \<in> set (filter (\<lambda>r. seat_key_of r = g) tbl)" by simp
  then have "r \<in> set pre \<or> r = winner_of tbl g \<or> r \<in> set post" unfolding e by auto
  with p q show ?thesis by fastforce
qed

lemma dedupe_group_pk:
  assumes pk: "pk_ok tbl" and ne: "filter (\<lambda>r. seat_key_of r = g) tbl \<noteq> []"
  shows "dedupe_group g tbl = Inr (filter (\<lambda>r. seat_key_of r = g \<longrightarrow> r = winner_of tbl g) tbl)"
proof -
  let ?rows = "filter (\<lambda>r. seat_key_of r = g) tbl"
  let ?w = "winner_of tbl g"
  have sne: "sorted_by_score ?rows \<noteq> []"
    unfolding sorted_by_score_def using ne by (rule sort_key_nonempty)
  then obtain losers where s: "sorted_by_score ?rows = ?w # losers"
    unfolding winner_of_def by (cases "sorted_by_score ?rows") auto
  have drows: "distinct ?rows" using pk by (simp add: pk_ok_distinct)
  have dl: "distinct (?w # losers)"
    unfolding s [symmetric] sorted_by_score_def using drows by simp
  have setl: "set losers = set ?rows - {?w}"
  proof -
    have "set (?w # losers) = set ?rows"
      unfolding s [symmetric] sorted_by_score_def by simp
    with dl show ?thesis by auto
  qed
  have notag: "\<not> (\<not> tagged ?w \<and> (\<exists>r\<in>set losers. tagged r))"
  proof
    assume a: "\<not> tagged ?w \<and> (\<exists>r\<in>set losers. tagged r)"
    then obtain r where r: "r \<in> set losers" "tagged r" by blast
    with setl have "r \<in> set tbl" "seat_key_of r = g" by auto
    from winner_of_max [OF this] have "score r \<le> score ?w" .
    moreover from r have "1000 \<le> score r" by (simp add: score_tagged)
    moreover from a have "score ?w \<le> 115" by (simp add: score_untagged)
    ultimately show False by simp
  qed
  have "dedupe_group g tbl = Inr (fold (\<lambda>r t. delete_by_id (seat_record_id r) t) losers tbl)"
  proof -
    from notag have n1: "(\<not> tagged ?w \<and> (\<exists>r\<in>set losers. tagged r)) = False" by simp
    show ?thesis
      by (simp only: dedupe_group_def Let_def s list.case n1 if_False)
  qed
  also have "fold (\<lambda>r t. delete_by_id (seat_record_id r) t) losers tbl =
      filter (\<lambda>x. seat_record_id x = None \<or> seat_record_id x \<notin> seat_record_id ` set losers) tbl"
    by (rule fold_delete_by_id)
  also have "\<dots> = filter (\<lambda>r. seat_key_of r = g \<longrightarrow> r = ?w) tbl"
  proof (rule filter_cong [OF refl])
    fix x assume x: "x \<in> set tbl"
    have lsub: "set losers \<subseteq> set tbl" using setl by auto
    have "seat_record_id x \<in> seat_record_id ` set losers \<longleftrightarrow> x \<in> set losers"
    proof
      assume "seat_record_id x \<in> seat_record_id ` set losers"
      then obtain y where y: "y \<in> set losers" "seat_record_id x = seat_record_id y" by auto
      with lsub have "y \<in> set tbl" by auto
      from pk_ok_id_inj [OF pk x this y(2)] y(1) show "x \<in> set losers" by simp
    qed simp
    then have b: "seat_record_id x \<in> seat_record_id ` set losers \<longleftrightarrow> x \<in> set losers" .
    have c: "seat_record_id x \<noteq> None" using pk x by (simp add: pk_ok_def)
    have "x \<in> set (filter (\<lambda>r. seat_key_of r = g) tbl) \<longleftrightarrow> seat_key_of x = g"
      using x by simp
    then have a: "x \<in> set losers \<longleftrightarrow> seat_key_of x = g \<and> x \<noteq> ?w"
      unfolding setl by blast
    show "(seat_record_id x = None \<or> seat_record_id x \<notin> seat_record_id ` set losers)
        = (seat_key_of x = g \<longrightarrow> x = ?w)"
      unfolding b a using c by blast
  qed
  finally show ?thesis .
qed


lemma filter_other_key:
  "g' \<noteq> g \<Longrightarrow>
   filter (\<lambda>r. seat_key_of r = g') (filter (\<lambda>r. seat_key_of r = g \<longrightarrow> r = w) tbl) =
   filter (\<lambda>r. seat_key_of r = g') tbl"
  by (induction tbl) auto

lemma winner_of_other_key:
  assumes "g' \<noteq> g"
  shows "winner_of (filter (\<lambda>r. seat_key_of r = g \<longrightarrow> r = w) tbl) g' = winner_of tbl g'"
  unfolding winner_of_def filter_other_key [OF assms] by (rule refl)

lemma dedupe_groups_pk:
  assumes "pk_ok tbl" "distinct gs" "\<forall>g\<in>set gs. filter (\<lambda>r. seat_key_of r = g) tbl \<noteq> []"
  shows "dedupe_groups gs tbl =
           Inr (filter (\<lambda>r. seat_key_of r \<in> set gs \<longrightarrow> r = winner_of tbl (seat_key_of r)) tbl)"
  using assms
proof (induction gs arbitrary: tbl)
  case Nil
  show ?case by simp
next
  case (Cons g gs)
  let ?t1 = "filter (\<lambda>r. seat_key_of r = g \<longrightarrow> r = winner_of tbl g) tbl"
  from Cons.prems have ne: "filter (\<lambda>r. seat_key_of r = g) tbl \<noteq> []" by simp
  have step: "dedupe_group g tbl = Inr ?t1"
    using Cons.prems(1) ne by (rule dedupe_group_pk)
  have pk1: "pk_ok ?t1" using Cons.prems(1) by (rule pk_ok_filter)
  have d: "distinct gs" and gn: "g \<notin> set gs" using Cons.prems(2) by simp_all
  have ne1: "\<forall>g'\<in>set gs. filter (\<lambda>r. seat_key_of r = g') ?t1 \<noteq> []"
  proof
    fix g' assume g': "g' \<in> set gs"
    with gn have "g' \<noteq> g" by auto
    then have "filter (\<lambda>r. seat_key_of r = g') ?t1 = filter (\<lambda>r. seat_key_of r = g') tbl"
      by (rule filter_other_key)
    moreover have "filter (\<lambda>r. seat_key_of r = g') tbl \<noteq> []"
      using Cons.prems(3) g' by auto
    ultimately show "filter (\<lambda>r. seat_key_of r = g') ?t1 \<noteq> []"
      by metis
  qed
  have "dedupe_groups (g # gs) tbl = dedupe_groups gs ?t1"
    by (simp add: step)
  also have "\<dots> = Inr (filter (\<lambda>r. seat_key_of r \<in> set gs \<longrightarrow> r = winner_of ?t1 (seat_key_of r)) ?t1)"
    using pk1 d ne1 by (rule Cons.IH)
  also have "filter (\<lambda>r. seat_key_of r \<in> set gs \<longrightarrow> r = winner_of ?t1 (seat_key_of r)) ?t1 =
      filter (\<lambda>r. seat_key_of r \<in> set (g # gs) \<longrightarrow> r = winner_of tbl (seat_key_of r)) tbl"
    unfolding filter_filter
  proof (rule filter_cong [OF refl])
    fix x assume "x \<in> set tbl"
    show "((seat_key_of x = g \<longrightarrow> x = winner_of tbl g) \<and>
           (seat_key_of x \<in> set gs \<longrightarrow> x = winner_of ?t1 (seat_key_of x)))
        = (seat_key_of x \<in> set (g # gs) \<longrightarrow> x = winner_of tbl (seat_key_of x))"
    proof (cases "seat_key_of x \<in> set gs")
      case True
      with gn have "seat_key_of x \<noteq> g" by auto
      then show ?thesis using True by (simp add: winner_of_other_key)
    next
      case False
      then show ?thesis by auto
    qed
  qed
  finally show ?case .
qed

lemma dup_keys_member:
  "g \<in> set (dup_keys tbl) \<longleftrightarrow> 1 < length (filter (\<lambda>x. seat_key_of x = g) tbl)"
proof
  assume "g \<in> set (dup_keys tbl)"
  then show "1 < length (filter (\<lambda>x. seat_key_of x = g) tbl)"
    by (auto simp: dup_keys_def)
next
  assume a: "1 < length (filter (\<lambda>x. seat_key_of x = g) tbl)"
  then have "filter (\<lambda>x. seat_key_of x = g) tbl \<noteq> []" by auto
  then obtain r where "r \<in> set tbl" "seat_key_of r = g"
    by (auto simp: filter_empty_conv)
  with a show "g \<in> set (dup_keys tbl)"
    by (auto simp: dup_keys_def image_iff)
qed

lemma single_group_winner:
  assumes "r \<in> set tbl" "seat_key_of r \<notin> set (dup_keys tbl)"
  shows "winner_of tbl (seat_key_of r) = r"
proof -
  let ?rows = "filter (\<lambda>x. seat_key_of x = seat_key_of r) tbl"
  from assms(2) have "length ?rows \<le> 1" by (simp add: dup_keys_member)
  moreover from assms(1) have "r \<in> set ?rows" by simp
  ultimately have "?rows = [r]"
    by (cases ?rows) auto
  then show ?thesis by (simp add: winner_of_def sorted_by_score_def)
qed

lemma dedupe_main_pk:
  assumes "pk_ok tbl"
  shows "dedupe_main tbl = Inr (filter (\<lambda>r. r = winner_of tbl (seat_key_of r)) tbl)"
proof -
  have ne: "\<forall>g\<in>set (dup_keys tbl). filter (\<lambda>r. seat_key_of r = g) tbl \<noteq> []"
    by (auto simp: dup_keys_member)
  have dd: "distinct (dup_keys tbl)" by (simp add: dup_keys_def)
  have eq: "filter (\<lambda>r. seat_key_of r \<in> set (dup_keys tbl) \<longrightarrow> r = winner_of tbl (seat_key_of r)) tbl
      = filter (\<lambda>r. r = winner_of tbl (seat_key_of r)) tbl"
    by (rule filter_cong [OF refl]) (use single_group_winner in fastforce)
  show ?thesis
  proof (cases "dup_keys tbl = []")
    case True
    then have "filter (\<lambda>r. seat_key_of r \<in> set (dup_keys tbl) \<longrightarrow> r = winner_of tbl (seat_key_of r)) tbl = tbl"
      by simp
    with eq True show ?thesis by (simp add: dedupe_main_def)
  next
    case False
    then show ?thesis
      using dedupe_groups_pk [OF assms dd ne] eq by (simp add: dedupe_main_def)
  qed
qed

lemma filter_eq_single: "distinct xs \<Longrightarrow> w \<in> set xs \<Longrightarrow> filter (\<lambda>r. r = w) xs = [w]"
  by (induction xs) (auto simp: filter_empty_conv)

lemma group_after_dedupe:
  assumes "pk_ok tbl" "r0 \<in> set tbl"
  shows "filter (\<lambda>r. seat_key_of r = seat_key_of r0) (filter (\<lambda>r. r = winner_of tbl (seat_key_of r)) tbl)
           = [winner_of tbl (seat_key_of r0)]"
proof -
  let ?g = "seat_key_of r0"
  from assms(2) have ne: "filter (\<lambda>r. seat_key_of r = ?g) tbl \<noteq> []"
    by (auto simp: filter_empty_conv)
  note w = winner_of_in [OF ne]
  have "filter (\<lambda>r. seat_key_of r = ?g) (filter (\<lambda>r. r = winner_of tbl (seat_key_of r)) tbl)
      = filter (\<lambda>r. r = winner_of tbl ?g) tbl"
    unfolding filter_filter using w(2) by (intro filter_cong [OF refl]) auto
  also have "\<dots> = [winner_of tbl ?g]"
    using pk_ok_distinct [OF assms(1)] w(1) by (rule filter_eq_single)
  finally show ?thesis .
qed

lemma group_absent_after_dedupe:
  assumes "filter (\<lambda>r. seat_key_of r = g) tbl = []"
  shows "filter (\<lambda>r. seat_key_of r = g) (filter P tbl) = []"
  using assms by (auto simp: filter_empty_conv)

lemma dedupe_main_fixed_point_pk:
  assumes "pk_ok tbl"
  shows "\<exists>tbl'. dedupe_main tbl = Inr tbl' \<and> dedupe_main tbl' = Inr tbl' \<and>
           (\<forall>r\<in>set tbl. length (filter (\<lambda>x. seat_key_of x = seat_key_of r) tbl') = 1)"
proof -
  let ?t = "filter (\<lambda>r. r = winner_of tbl (seat_key_of r)) tbl"
  have one: "\<forall>r\<in>set tbl. length (filter (\<lambda>x. seat_key_of x = seat_key_of r) ?t) = 1"
    using group_after_dedupe [OF assms] by simp
  have "dup_keys ?t = []"
  proof (rule ccontr)
    assume "dup_keys ?t \<noteq> []"
    then obtain g where "g \<in> set (dup_keys ?t)" by (cases "dup_keys ?t") auto
    then have l: "1 < length (filter (\<lambda>x. seat_key_of x = g) ?t)" by (simp add: dup_keys_member)
    then have "filter (\<lambda>x. seat_key_of x = g) ?t \<noteq> []" by auto
    then obtain r where "r \<in> set tbl" "seat_key_of r = g" by (auto simp: filter_empty_conv)
    with one l show False by auto
  qed
  then have "dedupe_main ?t = Inr ?t" by (simp add: dedupe_main_def)
  with dedupe_main_pk [OF assms] one show ?thesis by blast
qed

lemma winner_not_outscored:
  assumes "r \<in> set tbl" "score b < score r" "seat_key_of r = seat_key_of b"
  shows "b \<noteq> winner_of tbl (seat_key_of b)"
  using winner_of_max [OF assms(1) assms(3)] assms(2) by auto

text \<open>
  C4, as stated, fails on ties: of two rows for one seat with the same score (113) the one
  that stands first in the table survives, whatever its id. With the row \<open>manual-21\<close> before
  the row \<open>manual-04\<close> the pass keeps \<open>manual-21\<close>, not the lower id; with the two rows the
  other way round it keeps \<open>manual-04\<close>. The same set of records has two survivors.
\<close>

theorem C4_tie_order_counterexample:
  "dedupe_main [ex_tie_first, ex_tie_second] = Inr [ex_tie_first]
   \<and> dedupe_main [ex_tie_second, ex_tie_first] = Inr [ex_tie_second]
   \<and> seat_key_of ex_tie_first = seat_key_of ex_tie_second
   \<and> score ex_tie_first = 113
   \<and> score ex_tie_second = 113
   \<and> seat_record_id ex_tie_first = Some ''manual-21''
   \<and> seat_record_id ex_tie_second = Some ''manual-04''"
  by code_simp

text \<open>
  C4, amended. When every row has its own \<open>seat_record_id\<close>, one pass leaves for every seat
  key that has rows exactly one of them: the row of highest score, and among rows of equal
  highest score the first in table order (every row before it scores strictly less, every
  row after it scores at most as much). So the survivor is a function of the table, the
  records in the order the query returns them, and not of the set of records or of their
  ids. The score is 1000 for the history tag in the note, plus 100 for health status FILLED,
  plus 10 for entity type PERSON or PLACEHOLDER, plus 3 for a person id, plus 2 for a
  placeholder id.
\<close>

theorem C4_reconcile_winner:
  assumes "pk_ok tbl" and "r0 \<in> set tbl"
  shows "\<exists>tbl' pre w post.
      dedupe_main tbl = Inr tbl' \<and>
      filter (\<lambda>r. seat_key_of r = seat_key_of r0) tbl = pre @ w # post \<and>
      (\<forall>r\<in>set pre. score r < score w) \<and>
      (\<forall>r\<in>set post. score r \<le> score w) \<and>
      filter (\<lambda>r. seat_key_of r = seat_key_of r0) tbl' = [w] \<and>
      (\<forall>r. score r =
         (if contains TAG (or_empty (seat_note r)) then 1000 else 0) +
         (if upper (or_empty (health_status r)) = ''FILLED'' then 100 else 0) +
         (if upper (or_empty (assigned_entity_type r)) \<in> {''PERSON'', ''PLACEHOLDER''} then 10 else 0) +
         (if truthy (assigned_person_id r) then 3 else 0) +
         (if truthy (assigned_placeholder_id r) then 2 else 0))"
proof -
  let ?g = "seat_key_of r0"
  from assms(2) have ne: "filter (\<lambda>r. seat_key_of r = ?g) tbl \<noteq> []"
    by (auto simp: filter_empty_conv)
  from winner_of_props [OF ne] obtain pre post where
    e: "filter (\<lambda>r. seat_key_of r = ?g) tbl = pre @ winner_of tbl ?g # post"
    and p: "\<forall>r\<in>set pre. score r < score (winner_of tbl ?g)"
    and q: "\<forall>r\<in>set post. score r \<le> score (winner_of tbl ?g)"
    by blast
  have sc: "\<forall>r. score r =
         (if contains TAG (or_empty (seat_note r)) then 1000 else 0) +
         (if upper (or_empty (health_status r)) = ''FILLED'' then 100 else 0) +
         (if upper (or_empty (assigned_entity_type r)) \<in> {''PERSON'', ''PLACEHOLDER''} then 10 else 0) +
         (if truthy (assigned_person_id r) then 3 else 0) +
         (if truthy (assigned_placeholder_id r) then 2 else 0)"
    by (simp add: score_def Let_def)
  from dedupe_main_pk [OF assms(1)] group_after_dedupe [OF assms] e p q sc
  show ?thesis by blast
qed

theorem C4_reconcile_winner_witness:
  "pk_ok [ex_person_row, ex_tie_first, ex_tagged_blank_row, ex_tie_second]
   \<and> dedupe_main [ex_person_row, ex_tie_first, ex_tagged_blank_row, ex_tie_second]
        = Inr [ex_tie_first, ex_tagged_blank_row]
   \<and> filter (\<lambda>r. seat_key_of r = seat_key_of ex_tie_second)
        [ex_person_row, ex_tie_first, ex_tagged_blank_row, ex_tie_second] = [ex_tie_first, ex_tie_second]
   \<and> map score [ex_person_row, ex_tie_first, ex_tagged_blank_row, ex_tie_second] = [113, 113, 1000, 113]
   \<and> (\<exists>pre post.
        filter (\<lambda>r. seat_key_of r = seat_key_of ex_tie_second)
          [ex_person_row, ex_tie_first, ex_tagged_blank_row, ex_tie_second] = pre @ ex_tie_first # post \<and>
        (\<forall>r\<in>set pre. score r < score ex_tie_first) \<and>
        (\<forall>r\<in>set post. score r \<le> score ex_tie_first))
   \<and> (\<exists>pre post.
        filter (\<lambda>r. seat_key_of r = seat_key_of ex_person_row)
          [ex_person_row, ex_tie_first, ex_tagged_blank_row, ex_tie_second] = pre @ ex_tagged_blank_row # post \<and>
        (\<forall>r\<in>set pre. score r < score ex_tagged_blank_row) \<and>
        (\<forall>r\<in>set post. score r \<le> score ex_tagged_blank_row))"
proof -
  let ?T = "[ex_person_row, ex_tie_first, ex_tagged_blank_row, ex_tie_second]"
  have pk: "pk_ok ?T"
    by code_simp
  have run: "dedupe_main ?T = Inr [ex_tie_first, ex_tagged_blank_row]"
    by code_simp
  have grp: "filter (\<lambda>r. seat_key_of r = seat_key_of ex_tie_second) ?T = [ex_tie_first, ex_tie_second]"
    by code_simp
  have sc: "map score ?T = [113, 113, 1000, 113]"
    by code_simp
  have k1: "filter (\<lambda>r. seat_key_of r = seat_key_of ex_tie_second) [ex_tie_first, ex_tagged_blank_row]
      = [ex_tie_first]"
    by code_simp
  have k2: "filter (\<lambda>r. seat_key_of r = seat_key_of ex_person_row) [ex_tie_first, ex_tagged_blank_row]
      = [ex_tagged_blank_row]"
    by code_simp
  have m1: "ex_tie_second \<in> set ?T" by simp
  have m2: "ex_person_row \<in> set ?T" by simp
  from C4_reconcile_winner [OF pk m1] obtain tbl1 pre1 w1 post1 where
    a1: "dedupe_main ?T = Inr tbl1"
    and b1: "filter (\<lambda>r. seat_key_of r = seat_key_of ex_tie_second) ?T = pre1 @ w1 # post1"
    and c1: "\<forall>r\<in>set pre1. score r < score w1"
    and d1: "\<forall>r\<in>set post1. score r \<le> score w1"
    and e1: "filter (\<lambda>r. seat_key_of r = seat_key_of ex_tie_second) tbl1 = [w1]"
    by blast
  from a1 run have t1: "tbl1 = [ex_tie_first, ex_tagged_blank_row]" by simp
  from e1 have w1: "w1 = ex_tie_first" unfolding t1 k1 by simp
  from C4_reconcile_winner [OF pk m2] obtain tbl2 pre2 w2 post2 where
    a2: "dedupe_main ?T = Inr tbl2"
    and b2: "filter (\<lambda>r. seat_key_of r = seat_key_of ex_person_row) ?T = pre2 @ w2 # post2"
    and c2: "\<forall>r\<in>set pre2. score r < score w2"
    and d2: "\<forall>r\<in>set post2. score r \<le> score w2"
    and e2: "filter (\<lambda>r. seat_key_of r = seat_key_of ex_person_row) tbl2 = [w2]"
    by blast
  from a2 run have t2: "tbl2 = [ex_tie_first, ex_tagged_blank_row]" by simp
  from e2 have w2: "w2 = ex_tagged_blank_row" unfolding t2 k2 by simp
  have A: "\<exists>pre post.
        filter (\<lambda>r. seat_key_of r = seat_key_of ex_tie_second) ?T = pre @ ex_tie_first # post \<and>
        (\<forall>r\<in>set pre. score r < score ex_tie_first) \<and>
        (\<forall>r\<in>set post. score r \<le> score ex_tie_first)"
    using b1 c1 d1 unfolding w1 by blast
  have B: "\<exists>pre post.
        filter (\<lambda>r. seat_key_of r = seat_key_of ex_person_row) ?T = pre @ ex_tagged_blank_row # post \<and>
        (\<forall>r\<in>set pre. score r < score ex_tagged_blank_row) \<and>
        (\<forall>r\<in>set post. score r \<le> score ex_tagged_blank_row)"
    using b2 c2 d2 unfolding w2 by blast
  from pk run grp sc A B show ?thesis by (intro conjI)
qed

text \<open>
  C5, as stated, fails: a row that names a person (entity type PERSON, FILLED, score 113)
  loses against a row for the same seat that has neither a person id nor a placeholder id
  but carries the history tag (score 1000). The pass deletes the former and keeps the latter.
\<close>

theorem C5_counterexample:
  "dedupe_main [ex_person_row, ex_tagged_blank_row] = Inr [ex_tagged_blank_row]
   \<and> seat_key_of ex_person_row = seat_key_of ex_tagged_blank_row
   \<and> assigned_person_id ex_person_row = Some ''P2''
   \<and> assigned_person_id ex_tagged_blank_row = None
   \<and> assigned_placeholder_id ex_tagged_blank_row = None"
  by code_simp

text \<open>
  C5, amended. Among rows that all have their own \<open>seat_record_id\<close>, a pass never keeps a
  blank row (no person id, no placeholder id) while a row for the same seat carries a
  non-empty person or placeholder id, provided the blank row does not win on a criterion of
  higher weight: it has the history tag only if the other row has it, is FILLED only if the
  other row is, and has entity type PERSON or PLACEHOLDER only if the other row has. The
  other row then scores strictly more, so no tie arises, and the blank row is deleted.
  Pruning blank defaults removes only rows whose person id and placeholder id are NULL.
\<close>

theorem C5_real_over_blank:
  assumes "pk_ok tbl" and "r \<in> set tbl" and "b \<in> set tbl"
    and "seat_key_of r = seat_key_of b"
    and "truthy (assigned_person_id r) \<or> truthy (assigned_placeholder_id r)"
    and "\<not> truthy (assigned_person_id b)" and "\<not> truthy (assigned_placeholder_id b)"
    and "tagged b \<longrightarrow> tagged r"
    and "upper (or_empty (health_status b)) = ''FILLED'' \<longrightarrow> upper (or_empty (health_status r)) = ''FILLED''"
    and "upper (or_empty (assigned_entity_type b)) \<in> {''PERSON'', ''PLACEHOLDER''} \<longrightarrow>
         upper (or_empty (assigned_entity_type r)) \<in> {''PERSON'', ''PLACEHOLDER''}"
  shows "score b < score r \<and>
         (\<exists>tbl'. dedupe_main tbl = Inr tbl' \<and> b \<notin> set tbl') \<and>
         (\<forall>x\<in>set tbl. x \<notin> set (prune_v3 tbl) \<longrightarrow>
            assigned_person_id x = None \<and> assigned_placeholder_id x = None)"
proof -
  have lt: "score b < score r"
    using assms(5-10) by (auto simp: score_def Let_def tagged_def)
  from winner_not_outscored [OF assms(2) lt assms(4)]
  have "b \<notin> set (filter (\<lambda>r. r = winner_of tbl (seat_key_of r)) tbl)" by simp
  with dedupe_main_pk [OF assms(1)]
  have "\<exists>tbl'. dedupe_main tbl = Inr tbl' \<and> b \<notin> set tbl'" by blast
  moreover have "\<forall>x\<in>set tbl. x \<notin> set (prune_v3 tbl) \<longrightarrow>
            assigned_person_id x = None \<and> assigned_placeholder_id x = None"
    by (auto simp: prune_v3_def blank_default_def)
  ultimately show ?thesis using lt by blast
qed

theorem C5_real_over_blank_witness:
  "score ex_blank_with_id < score ex_history_row
   \<and> (\<exists>tbl'. dedupe_main [ex_blank_with_id, ex_history_row] = Inr tbl' \<and> ex_blank_with_id \<notin> set tbl')"
proof -
  have h: "pk_ok [ex_blank_with_id, ex_history_row]"
    "ex_history_row \<in> set [ex_blank_with_id, ex_history_row]"
    "ex_blank_with_id \<in> set [ex_blank_with_id, ex_history_row]"
    "seat_key_of ex_history_row = seat_key_of ex_blank_with_id"
    "truthy (assigned_person_id ex_history_row) \<or> truthy (assigned_placeholder_id ex_history_row)"
    "\<not> truthy (assigned_person_id ex_blank_with_id)"
    "\<not> truthy (assigned_placeholder_id ex_blank_with_id)"
    "tagged ex_blank_with_id \<longrightarrow> tagged ex_history_row"
    "upper (or_empty (health_status ex_blank_with_id)) = ''FILLED'' \<longrightarrow>
       upper (or_empty (health_status ex_history_row)) = ''FILLED''"
    "upper (or_empty (assigned_entity_type ex_blank_with_id)) \<in> {''PERSON'', ''PLACEHOLDER''} \<longrightarrow>
       upper (or_empty (assigned_entity_type ex_history_row)) \<in> {''PERSON'', ''PLACEHOLDER''}"
    by code_simp+
  from C5_real_over_blank [OF h] show ?thesis by blast
qed

text \<open>
  C6 on a table the code can meet: the blank default row of a seat was written without a
  \<open>seat_record_id\<close> (NULL), and an import added the history row of the same seat. The pass
  picks the history row and issues \<open>DELETE ... WHERE seat_record_id = NULL\<close> for the other,
  which deletes nothing: the table is returned as it was, with two rows for the key.
\<close>

theorem C6_null_id_duplicate_survives:
  "dedupe_main [ex_blank_row, ex_history_row] = Inr [ex_blank_row, ex_history_row]
   \<and> seat_key_of ex_blank_row = seat_key_of ex_history_row
   \<and> seat_record_id ex_blank_row = None
   \<and> length (filter (\<lambda>r. seat_key_of r = seat_key_of ex_history_row) [ex_blank_row, ex_history_row]) = 2"
  by code_simp


section \<open>Properties of week generation\<close>

lemma ensure_week_row_by: "ensure_week_row = ensure_by week_id"
  by (intro ext) (simp add: ensure_week_row_def ensure_by_def)

lemma ensure_shift_by: "ensure_shift = ensure_by shift_id"
  by (intro ext) (simp add: ensure_shift_def ensure_by_def)

lemma ensure_seat_by: "ensure_seat = ensure_by seat_record_id"
  by (intro ext) (simp add: ensure_seat_def ensure_by_def)

lemma ensure_cfg_by: "ensure_cfg sid fo = ensure_by cfg_shift_id (new_cfg sid fo)"
  by (intro ext) (simp add: ensure_cfg_def ensure_by_def new_cfg_def)

lemma ensure_by_keys: "key ` set (ensure_by key r xs) = insert (key r) (key ` set xs)"
  by (auto simp: ensure_by_def) (metis imageI)

lemma ensure_by_noop: "key r \<in> key ` set xs \<Longrightarrow> ensure_by key r xs = xs"
  by (auto simp: ensure_by_def)

lemma ensure_by_fresh: "key r \<notin> key ` set xs \<Longrightarrow> ensure_by key r xs = xs @ [r]"
  by (auto simp: ensure_by_def) (metis imageI)

lemma ensure_by_extends: "\<exists>ext. ensure_by key r xs = xs @ ext"
  by (simp add: ensure_by_def)

lemma ensure_by_distinct: "distinct (map key xs) \<Longrightarrow> distinct (map key (ensure_by key r xs))"
  by (auto simp: ensure_by_def)

lemma fold_ensure_keys:
  "key ` set (fold (ensure_by key) rs xs) = key ` set xs \<union> key ` set rs"
  by (induction rs arbitrary: xs) (auto simp: ensure_by_keys)

lemma fold_ensure_noop:
  "\<forall>r\<in>set rs. key r \<in> key ` set xs \<Longrightarrow> fold (ensure_by key) rs xs = xs"
  by (induction rs arbitrary: xs) (simp_all add: ensure_by_noop)

lemma fold_ensure_extends: "\<exists>ext. fold (ensure_by key) rs xs = xs @ ext"
proof (induction rs arbitrary: xs)
  case Nil
  show ?case by simp
next
  case (Cons r rs)
  obtain m1 where "ensure_by key r xs = xs @ m1" using ensure_by_extends [of key r xs] by blast
  moreover obtain m2 where "fold (ensure_by key) rs (xs @ m1) = (xs @ m1) @ m2"
    using Cons.IH [of "xs @ m1"] by blast
  ultimately show ?case by simp
qed

lemma fold_ensure_fresh:
  "distinct (map key rs) \<Longrightarrow> key ` set rs \<inter> key ` set xs = {} \<Longrightarrow>
   fold (ensure_by key) rs xs = xs @ rs"
proof (induction rs arbitrary: xs)
  case Nil
  show ?case by simp
next
  case (Cons r rs)
  from Cons.prems have f: "key r \<notin> key ` set xs" by auto
  have "key ` set rs \<inter> key ` set (xs @ [r]) = {}"
    using Cons.prems by auto
  with Cons.IH [of "xs @ [r]"] Cons.prems(1) show ?case
    by (simp add: ensure_by_fresh [OF f])
qed

lemma fold_ensure_distinct:
  "distinct (map key xs) \<Longrightarrow> distinct (map key (fold (ensure_by key) rs xs))"
  by (induction rs arbitrary: xs) (simp_all add: ensure_by_distinct)

lemma fold_ensure_day:
  "fold (ensure_day wid start) dis ss =
     fold (ensure_by shift_id)
       (concat (map (\<lambda>di. [day_shift wid start di, night_shift wid start di]) dis)) ss"
  by (induction dis arbitrary: ss) (simp_all add: ensure_day_def ensure_shift_by)

lemma find_append_hit:
  "\<exists>x\<in>set xs. P x \<Longrightarrow> find P (xs @ ys) = find P xs"
  by (induction xs) auto

lemma staffed_unit_of_append:
  "\<exists>c\<in>set cs. cfg_shift_id c = sid \<Longrightarrow> staffed_unit_of sid fo (cs @ ext) = staffed_unit_of sid fo cs"
  by (simp add: staffed_unit_of_def find_append_hit)

lemma present_noop:
  assumes "shift_rows_present units fo sid cs (seat_record_id ` set ss)"
  shows "ensure_shift_rows units fo sid (cs, ss) = (cs, ss)"
proof -
  from assms have c: "ensure_cfg sid fo cs = cs"
    by (auto simp: shift_rows_present_def ensure_cfg_def)
  from assms have "\<forall>r\<in>set (seat_targets units sid (staffed_unit_of sid fo cs)).
      seat_record_id r \<in> seat_record_id ` set ss"
    by (simp add: shift_rows_present_def)
  then have "fold (ensure_by seat_record_id) (seat_targets units sid (staffed_unit_of sid fo cs)) ss = ss"
    by (rule fold_ensure_noop)
  then show ?thesis
    by (simp add: ensure_shift_rows_def Let_def c ensure_seat_by)
qed

lemma present_after:
  "shift_rows_present units fo sid (fst (ensure_shift_rows units fo sid st))
     (seat_record_id ` set (snd (ensure_shift_rows units fo sid st)))"
proof -
  let ?cs = "ensure_cfg sid fo (fst st)"
  have "cfg_shift_id (new_cfg sid fo) \<in> cfg_shift_id ` set ?cs"
    by (simp add: ensure_cfg_by ensure_by_keys)
  then have a: "\<exists>c\<in>set ?cs. cfg_shift_id c = sid"
    by (auto simp: new_cfg_def)
  have b: "\<forall>r\<in>set (seat_targets units sid (staffed_unit_of sid fo ?cs)).
      seat_record_id r \<in> seat_record_id ` set
         (fold (ensure_by seat_record_id) (seat_targets units sid (staffed_unit_of sid fo ?cs)) (snd st))"
    by (simp add: fold_ensure_keys)
  show ?thesis
    using a b by (simp add: shift_rows_present_def ensure_shift_rows_def Let_def ensure_seat_by)
qed

lemma step_extends:
  "\<exists>ext. fst (ensure_shift_rows units fo sid st) = fst st @ ext"
  by (simp add: ensure_shift_rows_def Let_def ensure_cfg_by ensure_by_extends)

lemma step_ids_mono:
  "seat_record_id ` set (snd st) \<subseteq> seat_record_id ` set (snd (ensure_shift_rows units fo sid st))"
  by (simp add: ensure_shift_rows_def Let_def ensure_seat_by fold_ensure_keys)

lemma present_mono:
  assumes "shift_rows_present units fo sid cs ids" "ids \<subseteq> ids'"
  shows "shift_rows_present units fo sid (cs @ ext) ids'"
proof -
  from assms(1) have e: "\<exists>c\<in>set cs. cfg_shift_id c = sid" by (simp add: shift_rows_present_def)
  from staffed_unit_of_append [OF e] assms show ?thesis
    by (auto simp: shift_rows_present_def)
qed

lemma present_step:
  assumes "shift_rows_present units fo sid (fst st) (seat_record_id ` set (snd st))"
  shows "shift_rows_present units fo sid (fst (ensure_shift_rows units fo sid' st))
     (seat_record_id ` set (snd (ensure_shift_rows units fo sid' st)))"
proof -
  obtain ext where m: "fst (ensure_shift_rows units fo sid' st) = fst st @ ext"
    using step_extends by blast
  show ?thesis unfolding m using assms step_ids_mono by (rule present_mono)
qed

lemma present_fold:
  assumes "\<forall>sid\<in>S. shift_rows_present units fo sid (fst st) (seat_record_id ` set (snd st))"
  shows "\<forall>sid\<in>S \<union> set sids.
           shift_rows_present units fo sid (fst (fold (ensure_shift_rows units fo) sids st))
             (seat_record_id ` set (snd (fold (ensure_shift_rows units fo) sids st)))"
  using assms
proof (induction sids arbitrary: S st)
  case Nil
  then show ?case by simp
next
  case (Cons x sids)
  let ?st = "ensure_shift_rows units fo x st"
  have "\<forall>sid\<in>insert x S. shift_rows_present units fo sid (fst ?st) (seat_record_id ` set (snd ?st))"
    using Cons.prems present_after [of units fo x st] present_step [of units fo _ st x] by blast
  from Cons.IH [OF this] show ?case by simp
qed

lemma fold_present_noop:
  assumes "\<forall>sid\<in>set sids. shift_rows_present units fo sid cs (seat_record_id ` set ss)"
  shows "fold (ensure_shift_rows units fo) sids (cs, ss) = (cs, ss)"
  using assms by (induction sids) (simp_all add: present_noop)


lemma ensure_week_rows_twice:
  assumes e1: "sc_weeks d2 = sc_weeks (ensure_week_rows units start fo d)"
    and e2: "sc_shifts d2 = sc_shifts (ensure_week_rows units start fo d)"
    and e3: "sc_shift_config d2 = sc_shift_config (ensure_week_rows units start fo d)"
    and e4: "map seat_record_id (sc_seat_records d2) =
             map seat_record_id (sc_seat_records (ensure_week_rows units start fo d))"
  shows "ensure_week_rows units start fo d2 = d2"
proof -
  let ?wid = "week_id_for start"
  let ?w = "new_week start 28 fo"
  let ?rows = "concat (map (\<lambda>di. [day_shift ?wid start di, night_shift ?wid start di]) [0..<7])"
  let ?ws1 = "ensure_by week_id ?w (sc_weeks d)"
  let ?ss1 = "fold (ensure_by shift_id) ?rows (sc_shifts d)"
  let ?sids = "map shift_id (filter (\<lambda>s. shift_week_id s = ?wid) ?ss1)"
  let ?st1 = "fold (ensure_shift_rows units fo) ?sids (sc_shift_config d, sc_seat_records d)"
  have d1: "ensure_week_rows units start fo d =
      \<lparr>sc_weeks = ?ws1, sc_shifts = ?ss1, sc_shift_config = fst ?st1, sc_seat_records = snd ?st1\<rparr>"
    by (simp add: ensure_week_rows_def Let_def ensure_week_row_by fold_ensure_day)
  have w2: "sc_weeks d2 = ?ws1" and s2: "sc_shifts d2 = ?ss1"
    and c2: "sc_shift_config d2 = fst ?st1"
    and i2: "map seat_record_id (sc_seat_records d2) = map seat_record_id (snd ?st1)"
    using e1 e2 e3 e4 unfolding d1 by simp_all
  have a: "ensure_by week_id ?w ?ws1 = ?ws1"
    by (rule ensure_by_noop) (simp add: ensure_by_keys)
  have b: "fold (ensure_by shift_id) ?rows ?ss1 = ?ss1"
    by (rule fold_ensure_noop) (simp add: fold_ensure_keys)
  have ids: "seat_record_id ` set (sc_seat_records d2) = seat_record_id ` set (snd ?st1)"
    using arg_cong [OF i2, of set] by simp
  have "\<forall>sid\<in>{} \<union> set ?sids. shift_rows_present units fo sid (fst ?st1) (seat_record_id ` set (snd ?st1))"
    by (rule present_fold) simp
  then have "\<forall>sid\<in>set ?sids. shift_rows_present units fo sid (sc_shift_config d2)
      (seat_record_id ` set (sc_seat_records d2))"
    unfolding c2 ids by simp
  then have c: "fold (ensure_shift_rows units fo) ?sids (sc_shift_config d2, sc_seat_records d2)
      = (sc_shift_config d2, sc_seat_records d2)"
    by (rule fold_present_noop)
  have "ensure_week_rows units start fo d2 =
      \<lparr>sc_weeks = sc_weeks d2, sc_shifts = sc_shifts d2, sc_shift_config = sc_shift_config d2,
       sc_seat_records = sc_seat_records d2\<rparr>"
    unfolding ensure_week_rows_def Let_def ensure_week_row_by fold_ensure_day w2 s2 a b
    using c unfolding s2 by simp
  then show ?thesis by simp
qed

lemma ensure_shift_rows_distinct:
  assumes "distinct (map cfg_shift_id (fst st))" "distinct (map seat_record_id (snd st))"
  shows "distinct (map cfg_shift_id (fst (ensure_shift_rows units fo sid st)))"
    "distinct (map seat_record_id (snd (ensure_shift_rows units fo sid st)))"
  using assms
  by (simp_all add: ensure_shift_rows_def Let_def ensure_cfg_by ensure_seat_by
        ensure_by_distinct fold_ensure_distinct)

lemma fold_ensure_shift_rows_distinct:
  assumes "distinct (map cfg_shift_id (fst st))" "distinct (map seat_record_id (snd st))"
  shows "distinct (map cfg_shift_id (fst (fold (ensure_shift_rows units fo) sids st))) \<and>
    distinct (map seat_record_id (snd (fold (ensure_shift_rows units fo) sids st)))"
  using assms
  by (induction sids arbitrary: st) (simp_all add: ensure_shift_rows_distinct)

lemma ensure_week_rows_distinct:
  "distinct (map week_id (sc_weeks d)) \<Longrightarrow>
     distinct (map week_id (sc_weeks (ensure_week_rows units start fo d)))"
  "distinct (map shift_id (sc_shifts d)) \<Longrightarrow>
     distinct (map shift_id (sc_shifts (ensure_week_rows units start fo d)))"
  "distinct (map cfg_shift_id (sc_shift_config d)) \<Longrightarrow> distinct (map seat_record_id (sc_seat_records d)) \<Longrightarrow>
     distinct (map cfg_shift_id (sc_shift_config (ensure_week_rows units start fo d))) \<and>
     distinct (map seat_record_id (sc_seat_records (ensure_week_rows units start fo d)))"
  using fold_ensure_shift_rows_distinct [of "(sc_shift_config d, sc_seat_records d)" units fo]
  by (simp_all add: ensure_week_rows_def Let_def ensure_week_row_by fold_ensure_day
        ensure_by_distinct fold_ensure_distinct)

text \<open>
  C2. For a valid start date the generator returns, and run again with the same inputs on
  the state it produced, or on any state that differs from it only in columns of the seat
  rows other than \<open>seat_record_id\<close> (entity type, person and placeholder id, health
  status, note), it returns that state unchanged: no row is added and no field is altered.
  Tables whose keys were unique before the first run have unique keys after it.
\<close>

theorem C2_ensure_week_idempotent:
  assumes "valid_start start"
  shows "\<exists>d1. ensure_week_units units start fo d = Inr d1 \<and>
     (\<forall>d2. sc_weeks d2 = sc_weeks d1 \<and> sc_shifts d2 = sc_shifts d1 \<and>
           sc_shift_config d2 = sc_shift_config d1 \<and>
           map seat_record_id (sc_seat_records d2) = map seat_record_id (sc_seat_records d1) \<longrightarrow>
           ensure_week_units units start fo d2 = Inr d2) \<and>
     (distinct (map week_id (sc_weeks d)) \<longrightarrow> distinct (map week_id (sc_weeks d1))) \<and>
     (distinct (map shift_id (sc_shifts d)) \<longrightarrow> distinct (map shift_id (sc_shifts d1))) \<and>
     (distinct (map cfg_shift_id (sc_shift_config d)) \<and> distinct (map seat_record_id (sc_seat_records d)) \<longrightarrow>
        distinct (map cfg_shift_id (sc_shift_config d1)) \<and> distinct (map seat_record_id (sc_seat_records d1)))"
  using assms ensure_week_rows_twice [of _ units start fo d] ensure_week_rows_distinct [of d units start fo]
  by (auto simp: ensure_week_units_def)

theorem C2_ensure_week_idempotent_witness:
  "\<exists>d1. ensure_week_units UNITS 739589 ''AMB121'' ex_db = Inr d1 \<and>
        ensure_week_units UNITS 739589 ''AMB121'' d1 = Inr d1 \<and>
        ensure_week_units UNITS 739589 ''AMB121''
          (d1\<lparr>sc_seat_records := map (\<lambda>r. r\<lparr>assigned_entity_type := Some ''PERSON'',
                 assigned_person_id := Some ''P1'', health_status := Some ''FILLED'',
                 seat_note := Some ''edited''\<rparr>) (sc_seat_records d1)\<rparr>)
        = Inr (d1\<lparr>sc_seat_records := map (\<lambda>r. r\<lparr>assigned_entity_type := Some ''PERSON'',
                 assigned_person_id := Some ''P1'', health_status := Some ''FILLED'',
                 seat_note := Some ''edited''\<rparr>) (sc_seat_records d1)\<rparr>)"
proof -
  have v: "valid_start 739589"
    by (simp add: valid_start_def date_ok_def MINORD_def MAXORD_def)
  from C2_ensure_week_idempotent [OF v, of UNITS "''AMB121''" ex_db] obtain d1 where
    r: "ensure_week_units UNITS 739589 ''AMB121'' ex_db = Inr d1"
    and i: "\<And>d2. sc_weeks d2 = sc_weeks d1 \<and> sc_shifts d2 = sc_shifts d1 \<and>
           sc_shift_config d2 = sc_shift_config d1 \<and>
           map seat_record_id (sc_seat_records d2) = map seat_record_id (sc_seat_records d1) \<Longrightarrow>
           ensure_week_units UNITS 739589 ''AMB121'' d2 = Inr d2"
    by blast
  have a: "ensure_week_units UNITS 739589 ''AMB121'' d1 = Inr d1"
    by (rule i) simp
  have b: "ensure_week_units UNITS 739589 ''AMB121''
          (d1\<lparr>sc_seat_records := map (\<lambda>r. r\<lparr>assigned_entity_type := Some ''PERSON'',
                 assigned_person_id := Some ''P1'', health_status := Some ''FILLED'',
                 seat_note := Some ''edited''\<rparr>) (sc_seat_records d1)\<rparr>)
        = Inr (d1\<lparr>sc_seat_records := map (\<lambda>r. r\<lparr>assigned_entity_type := Some ''PERSON'',
                 assigned_person_id := Some ''P1'', health_status := Some ''FILLED'',
                 seat_note := Some ''edited''\<rparr>) (sc_seat_records d1)\<rparr>)"
    by (rule i) (simp add: comp_def)
  from r a b show ?thesis by blast
qed


section \<open>Week generation on a state without the week\<close>

lemma starts_with_append: "starts_with p (p @ s)"
  by (induction p) simp_all

lemma starts_with_iff: "starts_with p s \<longleftrightarrow> (\<exists>t. s = p @ t)"
proof (induction p s rule: starts_with.induct)
  case (1 s)
  show ?case by simp
next
  case (2 p ps)
  show ?case by simp
next
  case (3 p ps c cs)
  then show ?case by auto
qed

lemma shift_id_for_eq:
  assumes "a < 10" "b < 10" "s \<in> {''DAY'', ''NIGHT''}" "t \<in> {''DAY'', ''NIGHT''}"
  shows "(shift_id_for wid a s @ x = shift_id_for wid b t @ y) \<longleftrightarrow> (a = b \<and> s = t \<and> x = y)"
  using assms digit_inj [of a b]
  by (auto simp: shift_id_for_def str_nat_single)

lemma shift_id_for_inj:
  assumes "a < 10" "b < 10" "s \<in> {''DAY'', ''NIGHT''}" "t \<in> {''DAY'', ''NIGHT''}"
  shows "(shift_id_for wid a s = shift_id_for wid b t) \<longleftrightarrow> (a = b \<and> s = t)"
  using shift_id_for_eq [OF assms, of wid "[]" "[]"] by simp

lemma unit_seat_eq:
  assumes "s \<in> set SEATS" "t \<in> set SEATS"
  shows "(u @ ''__'' @ s = v @ ''__'' @ t) \<longleftrightarrow> (u = v \<and> s = t)"
proof
  assume e: "u @ ''__'' @ s = v @ ''__'' @ t"
  have "s = t"
  proof (rule ccontr)
    assume "s \<noteq> t"
    with assms have "(s = ''ATTENDANT'' \<and> t = ''DRIVER'') \<or> (s = ''DRIVER'' \<and> t = ''ATTENDANT'')"
      by (auto simp: SEATS_def)
    then show False
      using arg_cong [OF e, of last] by auto
  qed
  with e show "u = v \<and> s = t" by simp
qed simp

lemma gen_seat_record_id_eq:
  assumes "a < 10" "b < 10" "sslot \<in> {''DAY'', ''NIGHT''}" "tslot \<in> {''DAY'', ''NIGHT''}"
    and "l \<in> {''PRIMARY'', ''SHADOW''}" "m \<in> {''PRIMARY'', ''SHADOW''}"
    and "s \<in> set SEATS" "t \<in> set SEATS"
  shows "(gen_seat_record_id (shift_id_for wid a sslot) u s l = gen_seat_record_id (shift_id_for wid b tslot) v t m)
     \<longleftrightarrow> (a = b \<and> sslot = tslot \<and> l = m \<and> u = v \<and> s = t)"
proof -
  have "(gen_seat_record_id (shift_id_for wid a sslot) u s l = gen_seat_record_id (shift_id_for wid b tslot) v t m)
     \<longleftrightarrow> (a = b \<and> sslot = tslot \<and> ''__'' @ l @ ''__'' @ u @ ''__'' @ s = ''__'' @ m @ ''__'' @ v @ ''__'' @ t)"
    unfolding gen_seat_record_id_def by (rule shift_id_for_eq [OF assms(1-4)])
  also have "(''__'' @ l @ ''__'' @ u @ ''__'' @ s = ''__'' @ m @ ''__'' @ v @ ''__'' @ t)
     \<longleftrightarrow> (l = m \<and> u @ ''__'' @ s = v @ ''__'' @ t)"
    using assms(5,6) by auto
  also have "(u @ ''__'' @ s = v @ ''__'' @ t) \<longleftrightarrow> (u = v \<and> s = t)"
    by (rule unit_seat_eq [OF assms(7,8)])
  finally show ?thesis by blast
qed

lemma gen_seat_record_id_starts: "starts_with sid (gen_seat_record_id sid u s l)"
  by (simp add: gen_seat_record_id_def starts_with_append)

lemma shift_id_for_starts: "starts_with wid (shift_id_for wid a s)"
  by (simp add: shift_id_for_def starts_with_append)

lemma starts_with_trans: "starts_with p q \<Longrightarrow> starts_with q s \<Longrightarrow> starts_with p s"
  by (auto simp: starts_with_iff)


lemma week_shift_rows_ids:
  "map shift_id (week_shift_rows wid start) =
     concat (map (\<lambda>di. [shift_id_for wid di ''DAY'', shift_id_for wid di ''NIGHT'']) [0..<7])"
  by (simp add: week_shift_rows_def day_shift_def night_shift_def Let_def upt7)

lemma week_shift_rows_distinct: "distinct (map shift_id (week_shift_rows wid start))"
  unfolding week_shift_rows_ids by (simp add: upt7 shift_id_for_inj)

lemma week_shift_rows_length: "length (week_shift_rows wid start) = 14"
  by (simp add: week_shift_rows_def upt7)

lemma week_shift_rows_week: "\<forall>s\<in>set (week_shift_rows wid start). shift_week_id s = wid"
  by (simp add: week_shift_rows_def day_shift_def night_shift_def Let_def upt7)

lemma week_shift_rows_shape:
  assumes "s \<in> set (week_shift_rows wid start)"
  shows "\<exists>a sl. a < 10 \<and> sl \<in> {''DAY'', ''NIGHT''} \<and> shift_id s = shift_id_for wid a sl"
proof -
  from assms obtain di where di: "di < 7"
    and s: "s = day_shift wid start di \<or> s = night_shift wid start di"
    by (auto simp: week_shift_rows_def)
  from di have "di < 10" by simp
  moreover from s have "shift_id s = shift_id_for wid di ''DAY'' \<or> shift_id s = shift_id_for wid di ''NIGHT''"
    by (auto simp: day_shift_def night_shift_def Let_def)
  ultimately show ?thesis by blast
qed


lemma seat_targets_unfold:
  "seat_targets units sid fo =
     [new_seat sid fo ''ATTENDANT'' ''PRIMARY'', new_seat sid fo ''DRIVER'' ''PRIMARY''] @
     concat (map (\<lambda>u. [new_seat sid u ''ATTENDANT'' ''SHADOW'', new_seat sid u ''DRIVER'' ''SHADOW''])
                 (filter (\<lambda>u. u \<noteq> fo) units))"
  by (simp add: seat_targets_def LAYERS_def SEATS_def units_for_layer_def)

lemma seat_targets_shape:
  assumes "r \<in> set (seat_targets units sid fo)"
  shows "\<exists>u s l. l \<in> {''PRIMARY'', ''SHADOW''} \<and> s \<in> set SEATS \<and> r = new_seat sid u s l"
  using assms unfolding seat_targets_unfold by (auto simp: SEATS_def)

lemma new_seat_id: "seat_record_id (new_seat sid u s l) = Some (gen_seat_record_id sid u s l)"
  by (simp add: new_seat_def)

lemma shadow_ids_distinct:
  assumes "a < 10" "sl \<in> {''DAY'', ''NIGHT''}" "distinct us"
  shows "distinct (map seat_record_id
           (concat (map (\<lambda>u. [new_seat (shift_id_for wid a sl) u ''ATTENDANT'' ''SHADOW'',
                               new_seat (shift_id_for wid a sl) u ''DRIVER'' ''SHADOW'']) us)))"
  using assms(3)
proof (induction us)
  case Nil
  show ?case by simp
next
  case (Cons u us)
  have e: "\<And>v s t. s \<in> set SEATS \<Longrightarrow> t \<in> set SEATS \<Longrightarrow>
      (gen_seat_record_id (shift_id_for wid a sl) u s ''SHADOW'' =
       gen_seat_record_id (shift_id_for wid a sl) v t ''SHADOW'') \<longleftrightarrow> (u = v \<and> s = t)"
    using gen_seat_record_id_eq [OF assms(1) assms(1) assms(2) assms(2), of "''SHADOW''" "''SHADOW''"]
    by simp
  have s: "''ATTENDANT'' \<in> set SEATS" "''DRIVER'' \<in> set SEATS" by (simp_all add: SEATS_def)
  from Cons show ?case
    by (auto simp: new_seat_id e [OF s(1) s(1)] e [OF s(1) s(2)] e [OF s(2) s(1)] e [OF s(2) s(2)])
qed

lemma seat_targets_ids_distinct:
  assumes "a < 10" "sl \<in> {''DAY'', ''NIGHT''}" "distinct units"
  shows "distinct (map seat_record_id (seat_targets units (shift_id_for wid a sl) fo))"
proof -
  have s: "''ATTENDANT'' \<in> set SEATS" "''DRIVER'' \<in> set SEATS" by (simp_all add: SEATS_def)
  have e: "\<And>u v s t l m. s \<in> set SEATS \<Longrightarrow> t \<in> set SEATS \<Longrightarrow>
      l \<in> {''PRIMARY'', ''SHADOW''} \<Longrightarrow> m \<in> {''PRIMARY'', ''SHADOW''} \<Longrightarrow>
      (gen_seat_record_id (shift_id_for wid a sl) u s l =
       gen_seat_record_id (shift_id_for wid a sl) v t m) \<longleftrightarrow> (l = m \<and> u = v \<and> s = t)"
    using gen_seat_record_id_eq [OF assms(1) assms(1) assms(2) assms(2)] by simp
  have d: "distinct (filter (\<lambda>u. u \<noteq> fo) units)" using assms(3) by simp
  have p: "\<And>s. s \<in> set SEATS \<Longrightarrow>
      Some (gen_seat_record_id (shift_id_for wid a sl) fo s ''PRIMARY'') \<notin>
        seat_record_id ` set (concat (map (\<lambda>u. [new_seat (shift_id_for wid a sl) u ''ATTENDANT'' ''SHADOW'',
                               new_seat (shift_id_for wid a sl) u ''DRIVER'' ''SHADOW''])
                   (filter (\<lambda>u. u \<noteq> fo) units)))"
    using s by (auto simp: new_seat_id e)
  show ?thesis
    unfolding seat_targets_unfold
    using shadow_ids_distinct [OF assms(1) assms(2) d, of wid] p [OF s(1)] p [OF s(2)]
    by (simp add: new_seat_id e [OF s(1) s(2)])
qed

lemma seat_targets_ids_disjoint:
  assumes "a < 10" "b < 10" "sl \<in> {''DAY'', ''NIGHT''}" "tslot \<in> {''DAY'', ''NIGHT''}"
    and "shift_id_for wid a sl \<noteq> shift_id_for wid b tslot"
  shows "seat_record_id ` set (seat_targets units (shift_id_for wid a sl) fo) \<inter>
         seat_record_id ` set (seat_targets units (shift_id_for wid b tslot) fo') = {}"
proof (rule ccontr)
  assume "\<not> ?thesis"
  then obtain r r' where r: "r \<in> set (seat_targets units (shift_id_for wid a sl) fo)"
    and r': "r' \<in> set (seat_targets units (shift_id_for wid b tslot) fo')"
    and e: "seat_record_id r = seat_record_id r'"
    by auto
  from seat_targets_shape [OF r] obtain u s l where
    1: "l \<in> {''PRIMARY'', ''SHADOW''}" "s \<in> set SEATS" "r = new_seat (shift_id_for wid a sl) u s l"
    by blast
  from seat_targets_shape [OF r'] obtain v t m where
    2: "m \<in> {''PRIMARY'', ''SHADOW''}" "t \<in> set SEATS" "r' = new_seat (shift_id_for wid b tslot) v t m"
    by blast
  from e have "gen_seat_record_id (shift_id_for wid a sl) u s l = gen_seat_record_id (shift_id_for wid b tslot) v t m"
    unfolding 1(3) 2(3) new_seat_id by simp
  with gen_seat_record_id_eq [OF assms(1-4) 1(1) 2(1) 1(2) 2(2), of wid u v]
  have "a = b \<and> sl = tslot" by blast
  with assms(5) show False by simp
qed

lemma distinct_concat_map:
  assumes "distinct xs" "\<forall>x\<in>set xs. distinct (map k (T x))"
    and "\<forall>x\<in>set xs. \<forall>y\<in>set xs. x \<noteq> y \<longrightarrow> k ` set (T x) \<inter> k ` set (T y) = {}"
  shows "distinct (map k (concat (map T xs)))"
  using assms
proof (induction xs)
  case Nil
  show ?case by simp
next
  case (Cons x xs)
  have "k ` set (T x) \<inter> k ` set (concat (map T xs)) = {}"
  proof (rule ccontr)
    assume "\<not> ?thesis"
    then obtain y where y: "y \<in> set xs" and i: "k ` set (T x) \<inter> k ` set (T y) \<noteq> {}"
      by auto
    from Cons.prems(1) y have "x \<noteq> y" by auto
    with Cons.prems(3) y i show False by auto
  qed
  moreover have "distinct (map k (concat (map T xs)))"
    using Cons by auto
  ultimately show ?case using Cons.prems(2) by auto
qed


lemma find_append_miss:
  "\<not> (\<exists>x\<in>set xs. P x) \<Longrightarrow> find P (xs @ ys) = find P ys"
  by (induction xs) auto

lemma staffed_unit_of_new:
  assumes "sid \<notin> cfg_shift_id ` set cs"
  shows "staffed_unit_of sid fo (cs @ [new_cfg sid fo]) = fo"
proof -
  from assms have "\<not> (\<exists>c\<in>set cs. cfg_shift_id c = sid)" by auto
  then have "find (\<lambda>c. cfg_shift_id c = sid) (cs @ [new_cfg sid fo]) = Some (new_cfg sid fo)"
    by (simp add: find_append_miss new_cfg_def)
  then show ?thesis
    by (simp add: staffed_unit_of_def new_cfg_def truthy_def or_empty_def)
qed

lemma ensure_shift_rows_fresh:
  assumes "sid \<notin> cfg_shift_id ` set cs"
    and "distinct (map seat_record_id (seat_targets units sid fo))"
    and "seat_record_id ` set (seat_targets units sid fo) \<inter> seat_record_id ` set ss = {}"
  shows "ensure_shift_rows units fo sid (cs, ss) = (cs @ [new_cfg sid fo], ss @ seat_targets units sid fo)"
proof -
  have c: "ensure_cfg sid fo cs = cs @ [new_cfg sid fo]"
    using assms(1) by (auto simp: ensure_cfg_def)
  have "fold (ensure_by seat_record_id) (seat_targets units sid fo) ss = ss @ seat_targets units sid fo"
    using assms(2,3) by (rule fold_ensure_fresh)
  then show ?thesis
    by (simp add: ensure_shift_rows_def Let_def c staffed_unit_of_new [OF assms(1)] ensure_seat_by)
qed

lemma fold_ensure_shift_rows_fresh:
  assumes "distinct sids" "\<forall>sid\<in>set sids. sid \<notin> cfg_shift_id ` set cs"
    and "distinct (map seat_record_id (concat (map (\<lambda>sid. seat_targets units sid fo) sids)))"
    and "seat_record_id ` set (concat (map (\<lambda>sid. seat_targets units sid fo) sids))
           \<inter> seat_record_id ` set ss = {}"
  shows "fold (ensure_shift_rows units fo) sids (cs, ss) =
           (cs @ map (\<lambda>sid. new_cfg sid fo) sids,
            ss @ concat (map (\<lambda>sid. seat_targets units sid fo) sids))"
  using assms
proof (induction sids arbitrary: cs ss)
  case Nil
  show ?case by simp
next
  case (Cons sid sids)
  let ?T = "\<lambda>sid. seat_targets units sid fo"
  from Cons.prems(2) have a: "sid \<notin> cfg_shift_id ` set cs" by simp
  from Cons.prems(3) have b: "distinct (map seat_record_id (?T sid))" by simp
  from Cons.prems(4) have c: "seat_record_id ` set (?T sid) \<inter> seat_record_id ` set ss = {}" by auto
  have step: "ensure_shift_rows units fo sid (cs, ss) = (cs @ [new_cfg sid fo], ss @ ?T sid)"
    using a b c by (rule ensure_shift_rows_fresh)
  have 1: "distinct sids" using Cons.prems(1) by simp
  have 2: "\<forall>x\<in>set sids. x \<notin> cfg_shift_id ` set (cs @ [new_cfg sid fo])"
    using Cons.prems(1,2) by (auto simp: new_cfg_def)
  have 3: "distinct (map seat_record_id (concat (map ?T sids)))"
    using Cons.prems(3) by simp
  have 4: "seat_record_id ` set (concat (map ?T sids)) \<inter> seat_record_id ` set (ss @ ?T sid) = {}"
  proof -
    have "seat_record_id ` set (concat (map ?T sids)) \<inter> seat_record_id ` set ss = {}"
      using Cons.prems(4) by auto
    moreover have "seat_record_id ` set (concat (map ?T sids)) \<inter> seat_record_id ` set (?T sid) = {}"
      using Cons.prems(3) by auto
    ultimately show ?thesis by (simp add: image_Un Int_Un_distrib)
  qed
  have "fold (ensure_shift_rows units fo) (sid # sids) (cs, ss) =
        fold (ensure_shift_rows units fo) sids (cs @ [new_cfg sid fo], ss @ ?T sid)"
    by (simp add: step)
  also have "\<dots> = ((cs @ [new_cfg sid fo]) @ map (\<lambda>sid. new_cfg sid fo) sids,
                     (ss @ ?T sid) @ concat (map ?T sids))"
    using 1 2 3 4 by (rule Cons.IH)
  finally show ?case by simp
qed

lemma length_filter_other:
  "distinct xs \<Longrightarrow> x \<in> set xs \<Longrightarrow> Suc (length (filter (\<lambda>u. u \<noteq> x) xs)) = length xs"
proof (induction xs)
  case Nil
  then show ?case by simp
next
  case (Cons y ys)
  show ?case
  proof (cases "y = x")
    case True
    with Cons.prems have "x \<notin> set ys" by simp
    then have "filter (\<lambda>u. u \<noteq> x) ys = ys" by (auto simp: filter_id_conv)
    with True show ?thesis by simp
  next
    case False
    with Cons show ?thesis by simp
  qed
qed

lemma length_concat_pairs: "length (concat (map (\<lambda>u. [f u, g u]) us)) = 2 * length us"
  by (induction us) simp_all

lemma seat_targets_length:
  assumes "distinct units" "fo \<in> set units"
  shows "length (seat_targets units sid fo) = 2 * length units"
  using length_filter_other [OF assms]
  by (simp add: seat_targets_unfold length_concat_pairs)

lemma seat_targets_fields:
  "\<forall>r\<in>set (seat_targets units sid fo).
      seat_shift_id r = sid \<and> assigned_entity_type r = Some ''NONE'' \<and>
      assigned_person_id r = None \<and> assigned_placeholder_id r = None \<and>
      health_status r = Some ''UNFILLED'' \<and> seat_note r = None"
  by (auto simp: seat_targets_unfold new_seat_def)

lemma seat_targets_triples:
  "map (\<lambda>r. (layer r, unit_id r, seat_id r)) (seat_targets units sid fo) =
     [(''PRIMARY'', fo, ''ATTENDANT''), (''PRIMARY'', fo, ''DRIVER'')] @
     concat (map (\<lambda>u. [(''SHADOW'', u, ''ATTENDANT''), (''SHADOW'', u, ''DRIVER'')])
                 (filter (\<lambda>u. u \<noteq> fo) units))"
  by (simp add: seat_targets_unfold new_seat_def map_concat comp_def)


lemma week_sids_shape:
  assumes "x \<in> set (map shift_id (week_shift_rows wid start))"
  shows "\<exists>a sl. a < 10 \<and> sl \<in> {''DAY'', ''NIGHT''} \<and> x = shift_id_for wid a sl"
  using assms week_shift_rows_shape [of _ wid start] by auto

lemma week_targets_distinct:
  assumes "distinct units"
  shows "distinct (map seat_record_id
           (concat (map (\<lambda>sid. seat_targets units sid fo) (map shift_id (week_shift_rows wid start)))))"
proof (rule distinct_concat_map)
  show "distinct (map shift_id (week_shift_rows wid start))"
    by (rule week_shift_rows_distinct)
  show "\<forall>x\<in>set (map shift_id (week_shift_rows wid start)).
          distinct (map seat_record_id (seat_targets units x fo))"
  proof
    fix x assume "x \<in> set (map shift_id (week_shift_rows wid start))"
    from week_sids_shape [OF this] obtain a sl where
      "a < 10" "sl \<in> {''DAY'', ''NIGHT''}" "x = shift_id_for wid a sl" by blast
    then show "distinct (map seat_record_id (seat_targets units x fo))"
      using seat_targets_ids_distinct [of a sl units wid fo] assms by simp
  qed
  show "\<forall>x\<in>set (map shift_id (week_shift_rows wid start)).
        \<forall>y\<in>set (map shift_id (week_shift_rows wid start)). x \<noteq> y \<longrightarrow>
          seat_record_id ` set (seat_targets units x fo) \<inter> seat_record_id ` set (seat_targets units y fo) = {}"
  proof (intro ballI impI)
    fix x y
    assume x: "x \<in> set (map shift_id (week_shift_rows wid start))"
      and y: "y \<in> set (map shift_id (week_shift_rows wid start))" and ne: "x \<noteq> y"
    from week_sids_shape [OF x] obtain a sl where
      1: "a < 10" "sl \<in> {''DAY'', ''NIGHT''}" "x = shift_id_for wid a sl" by blast
    from week_sids_shape [OF y] obtain b tslot where
      2: "b < 10" "tslot \<in> {''DAY'', ''NIGHT''}" "y = shift_id_for wid b tslot" by blast
    from ne have "shift_id_for wid a sl \<noteq> shift_id_for wid b tslot" unfolding 1(3) 2(3) .
    from seat_targets_ids_disjoint [OF 1(1) 2(1) 1(2) 2(2) this, of units fo fo]
    show "seat_record_id ` set (seat_targets units x fo) \<inter> seat_record_id ` set (seat_targets units y fo) = {}"
      unfolding 1(3) 2(3) .
  qed
qed

lemma week_target_id_starts:
  assumes "x \<in> set (map shift_id (week_shift_rows wid start))" "r \<in> set (seat_targets units x fo)"
  shows "\<exists>i. seat_record_id r = Some i \<and> starts_with wid i"
proof -
  from week_sids_shape [OF assms(1)] obtain a sl where x: "x = shift_id_for wid a sl" by blast
  from seat_targets_shape [OF assms(2)] obtain u s l where r: "r = new_seat x u s l" by blast
  have "starts_with wid (gen_seat_record_id x u s l)"
    unfolding x using shift_id_for_starts gen_seat_record_id_starts by (rule starts_with_trans)
  then show ?thesis by (simp add: r new_seat_id)
qed

lemma ensure_week_rows_fresh:
  assumes "distinct units" "week_absent start d"
  shows "ensure_week_rows units start fo d =
     \<lparr>sc_weeks = sc_weeks d @ [new_week start 28 fo],
      sc_shifts = sc_shifts d @ week_shift_rows (week_id_for start) start,
      sc_shift_config = sc_shift_config d @
         map (\<lambda>s. new_cfg (shift_id s) fo) (week_shift_rows (week_id_for start) start),
      sc_seat_records = sc_seat_records d @
         concat (map (\<lambda>s. seat_targets units (shift_id s) fo) (week_shift_rows (week_id_for start) start))\<rparr>"
proof -
  let ?wid = "week_id_for start"
  let ?rows = "week_shift_rows ?wid start"
  let ?sids = "map shift_id ?rows"
  let ?T = "\<lambda>sid. seat_targets units sid fo"
  from assms(2) have aw: "\<forall>w\<in>set (sc_weeks d). week_id w \<noteq> ?wid"
    and as: "\<forall>s\<in>set (sc_shifts d). shift_week_id s \<noteq> ?wid \<and> \<not> starts_with ?wid (shift_id s)"
    and ac: "\<forall>c\<in>set (sc_shift_config d). \<not> starts_with ?wid (cfg_shift_id c)"
    and ar: "\<forall>r\<in>set (sc_seat_records d).
          case seat_record_id r of None \<Rightarrow> True | Some i \<Rightarrow> \<not> starts_with ?wid i"
    by (simp_all add: week_absent_def)
  have sid_starts: "\<And>x. x \<in> set ?sids \<Longrightarrow> starts_with ?wid x"
    using week_sids_shape shift_id_for_starts by metis
  have w: "ensure_by week_id (new_week start 28 fo) (sc_weeks d) = sc_weeks d @ [new_week start 28 fo]"
    using aw by (intro ensure_by_fresh) (auto simp: new_week_def)
  have "shift_id ` set ?rows \<inter> shift_id ` set (sc_shifts d) = {}"
    using as sid_starts by fastforce
  with week_shift_rows_distinct
  have s: "fold (ensure_by shift_id) ?rows (sc_shifts d) = sc_shifts d @ ?rows"
    by (rule fold_ensure_fresh)
  have i: "map shift_id (filter (\<lambda>s. shift_week_id s = ?wid) (sc_shifts d @ ?rows)) = ?sids"
  proof -
    have "filter (\<lambda>s. shift_week_id s = ?wid) (sc_shifts d) = []"
      using as by (auto simp: filter_empty_conv)
    moreover have "filter (\<lambda>s. shift_week_id s = ?wid) ?rows = ?rows"
      using week_shift_rows_week [of ?wid start] by (auto simp: filter_id_conv)
    ultimately show ?thesis by simp
  qed
  have f1: "\<forall>sid\<in>set ?sids. sid \<notin> cfg_shift_id ` set (sc_shift_config d)"
    using ac sid_starts by fastforce
  have f2: "seat_record_id ` set (concat (map ?T ?sids)) \<inter> seat_record_id ` set (sc_seat_records d) = {}"
  proof (rule ccontr)
    assume "\<not> ?thesis"
    then obtain r r' where r: "r \<in> set (concat (map ?T ?sids))"
      and r': "r' \<in> set (sc_seat_records d)" and e: "seat_record_id r = seat_record_id r'"
      by auto
    from r obtain x where "x \<in> set ?sids" "r \<in> set (?T x)" by auto
    from week_target_id_starts [OF this] obtain i where
      "seat_record_id r = Some i" "starts_with ?wid i" by blast
    moreover from ar r' have "case seat_record_id r' of None \<Rightarrow> True | Some i \<Rightarrow> \<not> starts_with ?wid i"
      by blast
    ultimately show False using e by (simp split: option.splits)
  qed
  have f: "fold (ensure_shift_rows units fo) ?sids (sc_shift_config d, sc_seat_records d) =
      (sc_shift_config d @ map (\<lambda>sid. new_cfg sid fo) ?sids,
       sc_seat_records d @ concat (map ?T ?sids))"
    using week_shift_rows_distinct f1 week_targets_distinct [OF assms(1)] f2
    by (rule fold_ensure_shift_rows_fresh)
  show ?thesis
    unfolding ensure_week_rows_def Let_def ensure_week_row_by fold_ensure_day
      week_shift_rows_def [symmetric] w s i f
    by (simp add: comp_def)
qed


lemma filter_concat_by_key:
  assumes "distinct (map key xs)" "\<forall>x\<in>set xs. \<forall>r\<in>set (T x). k r = key x" "s \<in> set xs"
  shows "filter (\<lambda>r. k r = key s) (concat (map T xs)) = T s"
  using assms
proof (induction xs)
  case Nil
  then show ?case by simp
next
  case (Cons x xs)
  show ?case
  proof (cases "key x = key s")
    case True
    have xs_none: "filter (\<lambda>r. k r = key s) (concat (map T xs)) = []"
    proof -
      have "key s \<notin> key ` set xs" using Cons.prems(1) True by auto
      then have "\<forall>y\<in>set xs. key y \<noteq> key s" by (metis imageI)
      with Cons.prems(2) show ?thesis by (auto simp: filter_empty_conv)
    qed
    have "s = x"
    proof (rule ccontr)
      assume "s \<noteq> x"
      with Cons.prems(3) have "s \<in> set xs" by simp
      then have "key s \<in> key ` set xs" by (rule imageI)
      with Cons.prems(1) True show False by auto
    qed
    moreover have "filter (\<lambda>r. k r = key s) (T x) = T x"
      using Cons.prems(2) True by (auto simp: filter_id_conv)
    ultimately show ?thesis using xs_none by simp
  next
    case False
    then have "filter (\<lambda>r. k r = key s) (T x) = []"
      using Cons.prems(2) by (auto simp: filter_empty_conv)
    moreover from False Cons.prems(3) have "s \<in> set xs" by auto
    ultimately show ?thesis using Cons by simp
  qed
qed

lemma week_shift_rows_times:
  "map (\<lambda>s. (day_index s, slot s, shift_start s, shift_end s)) (week_shift_rows wid start) =
     concat (map (\<lambda>di.
        [(int di, ''DAY'', strftime_dt (start + int di) (6, 0, 0), strftime_dt (start + int di) (18, 0, 0)),
         (int di, ''NIGHT'', strftime_dt (start + int di) (18, 0, 0), strftime_dt (start + int di + 1) (6, 0, 0))])
        [0..<7])"
  by (simp add: week_shift_rows_def day_shift_def night_shift_def Let_def upt7)

subsection \<open>The rows \<open>create_week\<close> writes\<close>

lemma length_v1_rows: "length (v1_rows uuid4 units wid fo tuples k) = length tuples"
  by (induction tuples arbitrary: k) simp_all

lemma v1_shift_id: "shift_id (v1_shift sid wid t) = sid"
  by (cases t) (simp add: v1_shift_def)

lemma v1_rows_ids:
  "(shift_id \<circ> fst) ` set (v1_rows uuid4 units wid fo tuples k)
     \<subseteq> uuid4 ` {k..<k + length tuples * (1 + 2 * length units)}"
proof (induction tuples arbitrary: k)
  case Nil
  show ?case by simp
next
  case (Cons t tuples)
  let ?n = "2 * length units"
  have "(shift_id \<circ> fst) ` set (v1_rows uuid4 units wid fo tuples (Suc k + ?n))
     \<subseteq> uuid4 ` {Suc k + ?n..<Suc k + ?n + length tuples * (1 + ?n)}"
    by (rule Cons.IH)
  also have "\<dots> \<subseteq> uuid4 ` {k..<k + length (t # tuples) * (1 + ?n)}"
    by (rule image_mono) auto
  finally have r: "(shift_id \<circ> fst) ` set (v1_rows uuid4 units wid fo tuples (Suc k + ?n))
     \<subseteq> uuid4 ` {k..<k + length (t # tuples) * (1 + ?n)}" .
  have "uuid4 k \<in> uuid4 ` {k..<k + length (t # tuples) * (1 + ?n)}" by simp
  with r show ?case by (simp add: v1_shift_id length_unit_seat_pairs)
qed

lemma v1_rows_distinct:
  assumes "inj_on uuid4 {k..<k + length tuples * (1 + 2 * length units)}"
  shows "distinct (map (shift_id \<circ> fst) (v1_rows uuid4 units wid fo tuples k))"
  using assms
proof (induction tuples arbitrary: k)
  case Nil
  show ?case by simp
next
  case (Cons t tuples)
  let ?n = "2 * length units"
  let ?rest = "v1_rows uuid4 units wid fo tuples (Suc k + ?n)"
  have inj': "inj_on uuid4 {Suc k + ?n..<Suc k + ?n + length tuples * (1 + ?n)}"
    using Cons.prems by (rule inj_on_subset) auto
  have d: "distinct (map (shift_id \<circ> fst) ?rest)" using inj' by (rule Cons.IH)
  have "uuid4 k \<notin> (shift_id \<circ> fst) ` set ?rest"
  proof
    assume "uuid4 k \<in> (shift_id \<circ> fst) ` set ?rest"
    with v1_rows_ids [of uuid4 units wid fo tuples "Suc k + ?n"]
    obtain j where j: "j \<in> {Suc k + ?n..<Suc k + ?n + length tuples * (1 + ?n)}"
      and e: "uuid4 k = uuid4 j" by auto
    have "k \<in> {k..<k + length (t # tuples) * (1 + ?n)}" by simp
    moreover from j have "j \<in> {k..<k + length (t # tuples) * (1 + ?n)}" by auto
    ultimately have "k = j" using Cons.prems e by (auto dest: inj_onD)
    with j show False by simp
  qed
  with d show ?case by (simp add: v1_shift_id length_unit_seat_pairs comp_def)
qed

lemma v1_rows_times:
  "map (\<lambda>x. (day_index (fst x), slot (fst x), shift_start (fst x), shift_end (fst x)))
       (v1_rows uuid4 units wid fo tuples k) =
   map (\<lambda>t. case t of (slt, d_start, d_end, di) \<Rightarrow>
          (int di, slt, strftime_dt d_start (if slt = ''DAY'' then (6, 0, 0) else (18, 0, 0)),
           strftime_dt d_end (if slt = ''DAY'' then (18, 0, 0) else (6, 0, 0)))) tuples"
  by (induction tuples arbitrary: k) (auto simp: v1_shift_def split: prod.splits)

lemma v1_week_times:
  "map (\<lambda>x. (day_index (fst x), slot (fst x), shift_start (fst x), shift_end (fst x)))
       (v1_rows uuid4 units wid fo (week_shift_tuples start) k) =
   concat (map (\<lambda>di.
        [(int di, ''DAY'', strftime_dt (start + int di) (6, 0, 0), strftime_dt (start + int di) (18, 0, 0)),
         (int di, ''NIGHT'', strftime_dt (start + int di) (18, 0, 0), strftime_dt (start + int di + 1) (6, 0, 0))])
        [0..<7])"
  unfolding v1_rows_times by (simp add: week_shift_tuples_def upt7)

lemma v1_seat_rows_fields:
  "map (\<lambda>r. (seat_shift_id r, layer r, unit_id r, seat_id r, assigned_entity_type r,
              assigned_person_id r, assigned_placeholder_id r, health_status r, seat_note r))
       (v1_seat_rows uuid4 sid fo us k) =
   map (\<lambda>p. (sid, if fst p = fo then ''PRIMARY'' else ''SHADOW'', fst p, snd p,
              Some ''UNASSIGNED'', None, None, Some ''UNFILLED'', None)) us"
  by (induction uuid4 sid fo us k rule: v1_seat_rows.induct) (simp_all add: v1_seat_def)

lemma v1_rows_elems:
  assumes "x \<in> set (v1_rows uuid4 units wid fo tuples k)"
  shows "fst (snd x) = \<lparr>cfg_shift_id = shift_id (fst x), first_out_override_unit_id = None,
                         staffed_unit_id = Some fo, is_salary_only = 0, cfg_active = 1\<rparr> \<and>
         map (\<lambda>r. (seat_shift_id r, layer r, unit_id r, seat_id r, assigned_entity_type r,
              assigned_person_id r, assigned_placeholder_id r, health_status r, seat_note r))
             (snd (snd x)) =
         concat (map (\<lambda>u. map (\<lambda>seat. (shift_id (fst x), if u = fo then ''PRIMARY'' else ''SHADOW'', u, seat,
                     Some ''UNASSIGNED'', None, None, Some ''UNFILLED'', None)) SEATS) units)"
  using assms
proof (induction tuples arbitrary: k)
  case Nil
  then show ?case by simp
next
  case (Cons t tuples)
  have p: "map (\<lambda>p. (sid, if fst p = fo then ''PRIMARY'' else ''SHADOW'', fst p, snd p,
              Some ''UNASSIGNED'', None, None, Some ''UNFILLED'', None)) (unit_seat_pairs units) =
      concat (map (\<lambda>u. map (\<lambda>seat. (sid, if u = fo then ''PRIMARY'' else ''SHADOW'', u, seat,
                     Some ''UNASSIGNED'', None, None, Some ''UNFILLED'', None)) SEATS) units)" for sid :: string
    by (simp add: unit_seat_pairs_def map_concat comp_def)
  from Cons.prems have "x = (v1_shift (uuid4 k) wid t, v1_cfg (uuid4 k) fo,
      v1_seat_rows uuid4 (uuid4 k) fo (unit_seat_pairs units) (Suc k))
    \<or> x \<in> set (v1_rows uuid4 units wid fo tuples (Suc k + length (unit_seat_pairs units)))"
    by simp
  then show ?case
  proof
    assume "x = (v1_shift (uuid4 k) wid t, v1_cfg (uuid4 k) fo,
      v1_seat_rows uuid4 (uuid4 k) fo (unit_seat_pairs units) (Suc k))"
    then show ?thesis
      by (simp add: v1_shift_id v1_cfg_def v1_seat_rows_fields p)
  next
    assume "x \<in> set (v1_rows uuid4 units wid fo tuples (Suc k + length (unit_seat_pairs units)))"
    then show ?thesis by (rule Cons.IH)
  qed
qed

lemma length_v1_seat_rows: "length (v1_seat_rows uuid4 sid fo us k) = length us"
  by (induction uuid4 sid fo us k rule: v1_seat_rows.induct) simp_all

lemma v1_rows_seat_count:
  assumes "x \<in> set (v1_rows uuid4 units wid fo tuples k)"
  shows "length (snd (snd x)) = 2 * length units"
  using assms
  by (induction tuples arbitrary: k) (auto simp: length_v1_seat_rows length_unit_seat_pairs)

lemma v1_seat_rows_entity:
  "map assigned_entity_type (v1_seat_rows uuid4 sid fo us k) = replicate (length us) (Some ''UNASSIGNED'')"
  by (induction uuid4 sid fo us k rule: v1_seat_rows.induct) (simp_all add: v1_seat_def)

lemma v1_rows_entity:
  "map assigned_entity_type (concat (map (snd \<circ> snd) (v1_rows uuid4 units wid fo tuples k))) =
     replicate (length tuples * (2 * length units)) (Some ''UNASSIGNED'')"
  by (induction tuples arbitrary: k)
     (simp_all add: v1_seat_rows_entity length_unit_seat_pairs replicate_add)

lemma length_concat_const:
  "\<forall>x\<in>set xs. length (f x) = n \<Longrightarrow> length (concat (map f xs)) = n * length xs"
  by (induction xs) simp_all

text \<open>
  C1, as stated, fails on \<open>create_week\<close>: its \<open>INSERT\<close> of a seat row names no
  entity type, so all 84 seat rows of the week of 2025-12-04 created by \<open>create_week.py\<close>
  carry the column default \<open>UNASSIGNED\<close> of its schema, not \<open>NONE\<close>.
\<close>

theorem C1_entity_type_counterexample:
  "map_sum id (\<lambda>p. map assigned_entity_type (sc_seat_records (snd p)))
       (create_week_main str_nat UNITS 739589 ''AMB121'' empty_db)
     = Inr (replicate 84 (Some ''UNASSIGNED''))"
proof -
  have a: "date_ok (739589 + 6)" "date_ok (739589 - lock_rule_days_default)" "date_ok (739589 + 7)"
    by (simp_all add: date_ok_def MINORD_def MAXORD_def lock_rule_days_default_def)
  have b: "\<forall>w\<in>set (sc_weeks empty_db). week_id w \<noteq> week_id_for 739589"
    by (simp add: empty_db_def)
  note r = create_week_rows [OF a b fresh_uuids_str_nat_empty, of UNITS "''AMB121''"]
  have m: "create_week_main str_nat UNITS 739589 ''AMB121'' empty_db =
      create_week str_nat UNITS 739589 ''AMB121'' lock_rule_days_default empty_db"
    by (simp add: create_week_main_def ensure_week_not_exists_empty)
  have n: "length (week_shift_tuples 739589) * (2 * length UNITS) = 84"
    by (simp add: length_week_shift_tuples UNITS_def)
  have e: "map assigned_entity_type
      (concat (map (snd \<circ> snd)
         (v1_rows str_nat UNITS (week_id_for 739589) ''AMB121'' (week_shift_tuples 739589) 0)))
      = replicate 84 (Some ''UNASSIGNED'')"
    unfolding v1_rows_entity n by (rule refl)
  have s: "sc_seat_records empty_db = []" by (simp add: empty_db_def)
  show ?thesis
    unfolding m r by (simp only: map_sum.simps snd_conv db.simps s append_Nil e id_apply)
qed

text \<open>
  C1, amended. For a valid start date, a list of distinct units and a first-out unit among
  them, on a state that holds nothing of the week, generation returns and adds exactly: one
  week row whose end date is the start date plus 6 days; 14 shift rows with different ids,
  for each of the 7 days a DAY shift from 06:00 to 18:00 and a NIGHT shift from 18:00 to
  06:00 of the next day; one config row per shift with the first-out unit as staffed unit,
  no override, \<open>is_salary_only = 0\<close> and \<open>active = 1\<close>; and per shift twice as many seat
  rows as there are units: PRIMARY ATTENDANT and DRIVER for the first-out unit, SHADOW
  ATTENDANT and DRIVER for every other unit, each with health status UNFILLED and no
  assignment. The entity type of a new seat row is \<open>NONE\<close> in \<open>ensure_week\<close> and the
  column default \<open>UNASSIGNED\<close> in \<open>create_week\<close>, which draws its ids from
  \<open>uuid4\<close> (taken fresh) and writes the seats in the order of the unit list.
\<close>

theorem C1_generate_week:
  assumes "valid_start start" and "distinct units" and "fo \<in> set units" and "week_absent start d"
    and "date_ok (start - lead)" and "fresh_uuids uuid4 0 (14 * (1 + 2 * length units)) d"
  shows "(\<exists>d'. ensure_week_units units start fo d = Inr d' \<and>
     sc_weeks d' = sc_weeks d @ [new_week start 28 fo] \<and>
     week_id (new_week start 28 fo) = week_id_for start \<and>
     start_date (new_week start 28 fo) = isoformat start \<and>
     end_date (new_week start 28 fo) = isoformat (start + 6) \<and>
     sc_shifts d' = sc_shifts d @ week_shift_rows (week_id_for start) start \<and>
     length (week_shift_rows (week_id_for start) start) = 14 \<and>
     distinct (map shift_id (week_shift_rows (week_id_for start) start)) \<and>
     map (\<lambda>s. (day_index s, slot s, shift_start s, shift_end s)) (week_shift_rows (week_id_for start) start) =
       concat (map (\<lambda>di.
        [(int di, ''DAY'', strftime_dt (start + int di) (6, 0, 0), strftime_dt (start + int di) (18, 0, 0)),
         (int di, ''NIGHT'', strftime_dt (start + int di) (18, 0, 0), strftime_dt (start + int di + 1) (6, 0, 0))])
        [0..<7]) \<and>
     sc_shift_config d' = sc_shift_config d @
       map (\<lambda>s. \<lparr>cfg_shift_id = shift_id s, first_out_override_unit_id = None,
                  staffed_unit_id = Some fo, is_salary_only = 0, cfg_active = 1\<rparr>)
           (week_shift_rows (week_id_for start) start) \<and>
     sc_seat_records d' = sc_seat_records d @
       concat (map (\<lambda>s. seat_targets units (shift_id s) fo) (week_shift_rows (week_id_for start) start)) \<and>
     (\<forall>s\<in>set (week_shift_rows (week_id_for start) start).
        filter (\<lambda>r. seat_shift_id r = shift_id s)
          (concat (map (\<lambda>s. seat_targets units (shift_id s) fo) (week_shift_rows (week_id_for start) start)))
        = seat_targets units (shift_id s) fo) \<and>
     (\<forall>sid. length (seat_targets units sid fo) = 2 * length units \<and>
        map (\<lambda>r. (layer r, unit_id r, seat_id r)) (seat_targets units sid fo) =
          [(''PRIMARY'', fo, ''ATTENDANT''), (''PRIMARY'', fo, ''DRIVER'')] @
          concat (map (\<lambda>u. [(''SHADOW'', u, ''ATTENDANT''), (''SHADOW'', u, ''DRIVER'')])
                      (filter (\<lambda>u. u \<noteq> fo) units)) \<and>
        (\<forall>r\<in>set (seat_targets units sid fo).
           seat_shift_id r = sid \<and> assigned_entity_type r = Some ''NONE'' \<and>
           assigned_person_id r = None \<and> assigned_placeholder_id r = None \<and>
           health_status r = Some ''UNFILLED'' \<and> seat_note r = None)))
   \<and> (\<exists>d' R. create_week uuid4 units start fo lead d = Inr (week_id_for start, d') \<and>
     sc_weeks d' = sc_weeks d @ [new_week start lead fo] \<and>
     week_id (new_week start lead fo) = week_id_for start \<and>
     start_date (new_week start lead fo) = isoformat start \<and>
     end_date (new_week start lead fo) = isoformat (start + 6) \<and>
     sc_shifts d' = sc_shifts d @ map fst R \<and>
     sc_shift_config d' = sc_shift_config d @ map (fst \<circ> snd) R \<and>
     sc_seat_records d' = sc_seat_records d @ concat (map (snd \<circ> snd) R) \<and>
     length R = 14 \<and>
     distinct (map (shift_id \<circ> fst) R) \<and>
     map (\<lambda>x. (day_index (fst x), slot (fst x), shift_start (fst x), shift_end (fst x))) R =
       concat (map (\<lambda>di.
        [(int di, ''DAY'', strftime_dt (start + int di) (6, 0, 0), strftime_dt (start + int di) (18, 0, 0)),
         (int di, ''NIGHT'', strftime_dt (start + int di) (18, 0, 0), strftime_dt (start + int di + 1) (6, 0, 0))])
        [0..<7]) \<and>
     (\<forall>x\<in>set R.
        fst (snd x) = \<lparr>cfg_shift_id = shift_id (fst x), first_out_override_unit_id = None,
                         staffed_unit_id = Some fo, is_salary_only = 0, cfg_active = 1\<rparr> \<and>
        length (snd (snd x)) = 2 * length units \<and>
        map (\<lambda>r. (seat_shift_id r, layer r, unit_id r, seat_id r, assigned_entity_type r,
              assigned_person_id r, assigned_placeholder_id r, health_status r, seat_note r))
            (snd (snd x)) =
          concat (map (\<lambda>u. map (\<lambda>seat. (shift_id (fst x), if u = fo then ''PRIMARY'' else ''SHADOW'', u, seat,
                     Some ''UNASSIGNED'', None, None, Some ''UNFILLED'', None)) SEATS) units)))"
    (is "?ensure \<and> ?create")
proof (rule conjI)
  show ?ensure
  proof -
    let ?rows = "week_shift_rows (week_id_for start) start"
    have r: "ensure_week_units units start fo d = Inr (ensure_week_rows units start fo d)"
      using assms(1) by (simp add: ensure_week_units_def)
    note f = ensure_week_rows_fresh [OF assms(2) assms(4), of fo]
    have per: "\<forall>s\<in>set ?rows.
          filter (\<lambda>r. seat_shift_id r = shift_id s)
            (concat (map (\<lambda>s. seat_targets units (shift_id s) fo) ?rows))
          = seat_targets units (shift_id s) fo"
    proof
      fix s assume s: "s \<in> set ?rows"
      show "filter (\<lambda>r. seat_shift_id r = shift_id s)
            (concat (map (\<lambda>s. seat_targets units (shift_id s) fo) ?rows))
          = seat_targets units (shift_id s) fo"
        using week_shift_rows_distinct _ s
      proof (rule filter_concat_by_key)
        show "\<forall>x\<in>set ?rows. \<forall>r\<in>set (seat_targets units (shift_id x) fo). seat_shift_id r = shift_id x"
          using seat_targets_fields by blast
      qed
    qed
    have cfgs: "map (\<lambda>s. new_cfg (shift_id s) fo) ?rows =
         map (\<lambda>s. \<lparr>cfg_shift_id = shift_id s, first_out_override_unit_id = None,
                    staffed_unit_id = Some fo, is_salary_only = 0, cfg_active = 1\<rparr>) ?rows"
      by (simp add: new_cfg_def)
    have wk: "week_id (new_week start 28 fo) = week_id_for start"
      "start_date (new_week start 28 fo) = isoformat start"
      "end_date (new_week start 28 fo) = isoformat (start + 6)"
      by (simp_all add: new_week_def)
    have tg: "\<forall>sid. length (seat_targets units sid fo) = 2 * length units \<and>
          map (\<lambda>r. (layer r, unit_id r, seat_id r)) (seat_targets units sid fo) =
            [(''PRIMARY'', fo, ''ATTENDANT''), (''PRIMARY'', fo, ''DRIVER'')] @
            concat (map (\<lambda>u. [(''SHADOW'', u, ''ATTENDANT''), (''SHADOW'', u, ''DRIVER'')])
                        (filter (\<lambda>u. u \<noteq> fo) units)) \<and>
          (\<forall>r\<in>set (seat_targets units sid fo).
             seat_shift_id r = sid \<and> assigned_entity_type r = Some ''NONE'' \<and>
             assigned_person_id r = None \<and> assigned_placeholder_id r = None \<and>
             health_status r = Some ''UNFILLED'' \<and> seat_note r = None)"
      using seat_targets_length [OF assms(2,3)] seat_targets_triples seat_targets_fields by blast
    show ?thesis
      apply (rule exI [of _ "ensure_week_rows units start fo d"])
      apply (intro conjI)
      subgoal by (rule r)
      subgoal by (simp add: f)
      subgoal by (rule wk(1))
      subgoal by (rule wk(2))
      subgoal by (rule wk(3))
      subgoal by (simp add: f)
      subgoal by (rule week_shift_rows_length)
      subgoal by (rule week_shift_rows_distinct)
      subgoal by (rule week_shift_rows_times)
      subgoal by (simp add: f cfgs)
      subgoal by (simp add: f)
      subgoal by (rule per)
      subgoal by (rule tg)
      done
  qed
next
  let ?R = "v1_rows uuid4 units (week_id_for start) fo (week_shift_tuples start) 0"
  from assms(1) have dk: "date_ok (start + 6)" "date_ok (start + 7)"
    by (simp_all add: valid_start_def)
  from assms(4) have ab: "\<forall>w\<in>set (sc_weeks d). week_id w \<noteq> week_id_for start"
    by (simp add: week_absent_def)
  note r = create_week_rows [OF dk(1) assms(5) dk(2) ab assms(6), of fo]
  have wk: "week_id (new_week start lead fo) = week_id_for start"
    "start_date (new_week start lead fo) = isoformat start"
    "end_date (new_week start lead fo) = isoformat (start + 6)"
    by (simp_all add: new_week_def)
  have len: "length ?R = 14"
    by (simp add: length_v1_rows length_week_shift_tuples)
  have "inj_on uuid4 {0..<0 + length (week_shift_tuples start) * (1 + 2 * length units)}"
    using assms(6) by (simp add: fresh_uuids_def length_week_shift_tuples)
  then have dist: "distinct (map (shift_id \<circ> fst) ?R)"
    by (rule v1_rows_distinct)
  have el: "\<forall>x\<in>set ?R.
        fst (snd x) = \<lparr>cfg_shift_id = shift_id (fst x), first_out_override_unit_id = None,
                         staffed_unit_id = Some fo, is_salary_only = 0, cfg_active = 1\<rparr> \<and>
        length (snd (snd x)) = 2 * length units \<and>
        map (\<lambda>r. (seat_shift_id r, layer r, unit_id r, seat_id r, assigned_entity_type r,
              assigned_person_id r, assigned_placeholder_id r, health_status r, seat_note r))
            (snd (snd x)) =
          concat (map (\<lambda>u. map (\<lambda>seat. (shift_id (fst x), if u = fo then ''PRIMARY'' else ''SHADOW'', u, seat,
                     Some ''UNASSIGNED'', None, None, Some ''UNFILLED'', None)) SEATS) units)"
    using v1_rows_elems v1_rows_seat_count by blast
  show ?create
    apply (rule exI [of _ "\<lparr>sc_weeks = sc_weeks d @ [new_week start lead fo],
           sc_shifts = sc_shifts d @ map fst ?R,
           sc_shift_config = sc_shift_config d @ map (fst \<circ> snd) ?R,
           sc_seat_records = sc_seat_records d @ concat (map (snd \<circ> snd) ?R)\<rparr>"])
    apply (rule exI [of _ ?R])
    apply (intro conjI)
    subgoal by (rule r)
    subgoal by simp
    subgoal by (rule wk(1))
    subgoal by (rule wk(2))
    subgoal by (rule wk(3))
    subgoal by simp
    subgoal by simp
    subgoal by simp
    subgoal by (rule len)
    subgoal by (rule dist)
    subgoal by (rule v1_week_times)
    subgoal by (rule el)
    done
qed

theorem C1_generate_week_witness:
  "(\<exists>d'. ensure_week 739589 ''AMB121'' empty_db = Inr d' \<and>
     map week_id (sc_weeks d') = [week_id_for 739589] \<and>
     length (sc_shifts d') = 14 \<and>
     length (sc_shift_config d') = 14 \<and>
     length (sc_seat_records d') = 84 \<and>
     map (\<lambda>r. (layer r, unit_id r, seat_id r)) (take 6 (sc_seat_records d')) =
       [(''PRIMARY'', ''AMB121'', ''ATTENDANT''), (''PRIMARY'', ''AMB121'', ''DRIVER''),
        (''SHADOW'', ''AMB120'', ''ATTENDANT''), (''SHADOW'', ''AMB120'', ''DRIVER''),
        (''SHADOW'', ''AMB131'', ''ATTENDANT''), (''SHADOW'', ''AMB131'', ''DRIVER'')])
   \<and> (\<exists>d'. create_week str_nat UNITS 739589 ''AMB121'' 29 empty_db = Inr (week_id_for 739589, d') \<and>
     map week_id (sc_weeks d') = [week_id_for 739589] \<and>
     length (sc_shifts d') = 14 \<and>
     length (sc_shift_config d') = 14 \<and>
     length (sc_seat_records d') = 84)"
proof -
  let ?rows = "week_shift_rows (week_id_for 739589) 739589"
  let ?T = "\<lambda>s. seat_targets UNITS (shift_id s) ''AMB121''"
  have v: "valid_start 739589"
    by (simp add: valid_start_def date_ok_def MINORD_def MAXORD_def)
  have u: "distinct UNITS" "''AMB121'' \<in> set UNITS"
    by (simp_all add: UNITS_def)
  have a: "week_absent 739589 empty_db"
    by (simp add: week_absent_def empty_db_def)
  have dl: "date_ok (739589 - 29)"
    by (simp add: date_ok_def MINORD_def MAXORD_def)
  note th = C1_generate_week [OF v u a dl fresh_uuids_str_nat_empty]
  from th [THEN conjunct1] obtain d' where
    r: "ensure_week_units UNITS 739589 ''AMB121'' empty_db = Inr d'"
    and w: "sc_weeks d' = sc_weeks empty_db @ [new_week 739589 28 ''AMB121'']"
    and wi: "week_id (new_week 739589 28 ''AMB121'') = week_id_for 739589"
    and s: "sc_shifts d' = sc_shifts empty_db @ ?rows"
    and l: "length ?rows = 14"
    and c: "sc_shift_config d' = sc_shift_config empty_db @
       map (\<lambda>s. \<lparr>cfg_shift_id = shift_id s, first_out_override_unit_id = None,
                  staffed_unit_id = Some ''AMB121'', is_salary_only = 0, cfg_active = 1\<rparr>) ?rows"
    and t: "sc_seat_records d' = sc_seat_records empty_db @ concat (map ?T ?rows)"
    and g: "\<And>sid. length (seat_targets UNITS sid ''AMB121'') = 2 * length UNITS"
    and p: "\<And>sid. map (\<lambda>r. (layer r, unit_id r, seat_id r)) (seat_targets UNITS sid ''AMB121'') =
          [(''PRIMARY'', ''AMB121'', ''ATTENDANT''), (''PRIMARY'', ''AMB121'', ''DRIVER'')] @
          concat (map (\<lambda>u. [(''SHADOW'', u, ''ATTENDANT''), (''SHADOW'', u, ''DRIVER'')])
                      (filter (\<lambda>u. u \<noteq> ''AMB121'') UNITS))"
    by blast
  have lu: "2 * length UNITS = 6" by (simp add: UNITS_def)
  have g6: "\<And>sid. length (seat_targets UNITS sid ''AMB121'') = 6"
    unfolding g lu by (rule refl)
  have len: "length (concat (map ?T ?rows)) = 6 * length ?rows"
    by (rule length_concat_const) (simp add: g6)
  obtain s0 rest where rows: "?rows = s0 # rest"
    using l by (cases ?rows) auto
  have six: "length (?T s0) = 6" by (rule g6)
  have tk: "take 6 (concat (map ?T ?rows)) = ?T s0"
    unfolding rows using six by simp
  have 1: "ensure_week 739589 ''AMB121'' empty_db = Inr d'"
    using r by (simp add: ensure_week_def)
  have 2: "map week_id (sc_weeks d') = [week_id_for 739589]"
    by (simp add: w wi empty_db_def)
  have 3: "length (sc_shifts d') = 14" by (simp add: s l empty_db_def)
  have 4: "length (sc_shift_config d') = 14" by (simp add: c l empty_db_def)
  have 5: "length (sc_seat_records d') = 84" by (simp add: t len l empty_db_def)
  have 6: "map (\<lambda>r. (layer r, unit_id r, seat_id r)) (take 6 (sc_seat_records d')) =
       [(''PRIMARY'', ''AMB121'', ''ATTENDANT''), (''PRIMARY'', ''AMB121'', ''DRIVER''),
        (''SHADOW'', ''AMB120'', ''ATTENDANT''), (''SHADOW'', ''AMB120'', ''DRIVER''),
        (''SHADOW'', ''AMB131'', ''ATTENDANT''), (''SHADOW'', ''AMB131'', ''DRIVER'')]"
    unfolding t by (simp add: empty_db_def tk p) (simp add: UNITS_def)
  have A: "\<exists>d'. ensure_week 739589 ''AMB121'' empty_db = Inr d' \<and>
     map week_id (sc_weeks d') = [week_id_for 739589] \<and>
     length (sc_shifts d') = 14 \<and>
     length (sc_shift_config d') = 14 \<and>
     length (sc_seat_records d') = 84 \<and>
     map (\<lambda>r. (layer r, unit_id r, seat_id r)) (take 6 (sc_seat_records d')) =
       [(''PRIMARY'', ''AMB121'', ''ATTENDANT''), (''PRIMARY'', ''AMB121'', ''DRIVER''),
        (''SHADOW'', ''AMB120'', ''ATTENDANT''), (''SHADOW'', ''AMB120'', ''DRIVER''),
        (''SHADOW'', ''AMB131'', ''ATTENDANT''), (''SHADOW'', ''AMB131'', ''DRIVER'')]"
    by (rule exI [of _ d']) (intro conjI 1 2 3 4 5 6)
  from th [THEN conjunct2] obtain d2 R where
    cr: "create_week str_nat UNITS 739589 ''AMB121'' 29 empty_db = Inr (week_id_for 739589, d2)"
    and cw: "sc_weeks d2 = sc_weeks empty_db @ [new_week 739589 29 ''AMB121'']"
    and cwi: "week_id (new_week 739589 29 ''AMB121'') = week_id_for 739589"
    and cs: "sc_shifts d2 = sc_shifts empty_db @ map fst R"
    and cc: "sc_shift_config d2 = sc_shift_config empty_db @ map (fst \<circ> snd) R"
    and ct: "sc_seat_records d2 = sc_seat_records empty_db @ concat (map (snd \<circ> snd) R)"
    and cl: "length R = 14"
    and ce: "\<forall>x\<in>set R. length (snd (snd x)) = 2 * length UNITS"
    by blast
  have clen: "length (concat (map (snd \<circ> snd) R)) = 6 * length R"
    by (rule length_concat_const) (simp add: ce lu)
  have B: "\<exists>d'. create_week str_nat UNITS 739589 ''AMB121'' 29 empty_db = Inr (week_id_for 739589, d') \<and>
     map week_id (sc_weeks d') = [week_id_for 739589] \<and>
     length (sc_shifts d') = 14 \<and>
     length (sc_shift_config d') = 14 \<and>
     length (sc_seat_records d') = 84"
    apply (rule exI [of _ d2])
    apply (intro conjI)
    subgoal by (rule cr)
    subgoal by (simp add: cw cwi empty_db_def)
    subgoal by (simp add: cs cl empty_db_def)
    subgoal by (simp add: cc cl empty_db_def)
    subgoal by (simp add: ct clen cl empty_db_def)
    done
  from A B show ?thesis by (rule conjI)
qed

end
